(* ===== verification/Rtc_Prelude.thy ===== *)
theory Rtc_Prelude
  imports Main "HOL-Library.Word" "HOL-Library.Monad_Syntax"
begin

text \<open>
  Shared vocabulary of the development: the machine integer types of the C++ sources, the
  outcome of a parser, the collections of rewrite rules that carry the component proofs, and
  the generic lemmas on words and lists the components share.

  A parser of the sources reads from a pointer and answers \<open>true\<close> or \<open>false\<close>. Its model has
  type \<open>'p outcome option\<close>: \<open>None\<close> is a read outside the buffer the parser was given (undefined
  behaviour in C++), \<open>Some Rejected\<close> is \<open>return false\<close>, and \<open>Some (Accepted p)\<close> is
  \<open>return true\<close> with \<open>p\<close> the contents of the parsed object. Memory safety of a parser is thus the
  statement that it never yields \<open>None\<close>.

  Assertions (\<open>RTC_DCHECK\<close>) are compiled out of release builds and change no state; the models
  follow the release build, and the lemmas state the asserted conditions where they matter.
  Logging is left out everywhere.
\<close>

unbundle bit_operations_syntax

type_synonym u8 = "8 word"
type_synonym u16 = "16 word"
type_synonym u32 = "32 word"
type_synonym u64 = "64 word"
type_synonym bytes = "u8 list"

datatype 'p outcome = Rejected | Accepted 'p

named_theorems wire_simps \<open>reading back what was written\<close>
named_theorems packet_defs \<open>the definitions of the packet classes\<close>
named_theorems field_defs \<open>constants of the packet layouts\<close>
named_theorems safe_intros \<open>reads that stay inside the buffer\<close>

section \<open>Words\<close>

lemma bit_u8_lt: "bit (a :: u8) n \<Longrightarrow> n < 8"
  using bit_imp_le_length [of a n] by simp

lemma bit_u8_ge: "8 \<le> n \<Longrightarrow> \<not> bit (a :: u8) n"
  using bit_u8_lt [of a n] by auto

lemma bit_u16_lt: "bit (a :: u16) n \<Longrightarrow> n < 16"
  using bit_imp_le_length [of a n] by simp

lemma bit_less_exp: "n < 2 ^ m \<Longrightarrow> bit (n :: nat) k \<Longrightarrow> k < m"
  by (metis bit_take_bit_iff take_bit_nat_eq_self)

lemma bit_word_less_exp: "unat w < 2 ^ m \<Longrightarrow> bit (w :: 'a::len word) k \<Longrightarrow> k < m"
  by (metis bit_less_exp bit_unsigned_iff bit_imp_le_length possible_bit_nat)

lemma drop_bit_push_bit_or:
  fixes d f :: "'a::len word"
  assumes "unat d < 2 ^ m" and "m + k \<le> LENGTH('a)" and "unat f < 2 ^ k"
  shows "drop_bit k (push_bit k d OR f) = d"
proof (rule bit_word_eqI)
  fix n
  show "bit (drop_bit k (push_bit k d OR f)) n \<longleftrightarrow> bit d n"
    using bit_word_less_exp [OF assms(1), of n] bit_word_less_exp [OF assms(3), of "k + n"] assms(2)
    by (auto simp: bit_simps)
qed

lemma unat_u8_lt [simp]: "unat (a :: u8) < 256"
  using unsigned_less [of a, where 'a = nat] by simp

lemma unat_u8_le [simp]: "unat (a :: u8) \<le> 255"
  using unat_u8_lt [of a] by linarith

lemma unat_u16_lt [simp]: "unat (a :: u16) < 65536"
  using unsigned_less [of a, where 'a = nat] by simp

lemma unat_u16_le [simp]: "unat (a :: u16) \<le> 65535"
  using unat_u16_lt [of a] by linarith

lemma unat_u64_lt: "unat (a :: u64) < 2 ^ 64"
  using unsigned_less [of a, where 'a = nat] by simp

lemma unat_of_nat_u8: "n < 256 \<Longrightarrow> unat (of_nat n :: u8) = n"
  by (simp add: unat_of_nat)

lemma unat_of_nat_u16: "n < 65536 \<Longrightarrow> unat (of_nat n :: u16) = n"
  by (simp add: unat_of_nat)

lemma uint_u16_bounds: "0 \<le> uint (a :: u16)" "uint (a :: u16) < 65536"
  using uint_lt2p [of a] by simp_all

lemma uint_u32_bounds: "0 \<le> uint (a :: u32)" "uint (a :: u32) < 4294967296"
  using uint_lt2p [of a] by simp_all

section \<open>Lists\<close>

lemma take_append_exact: "length xs = n \<Longrightarrow> take n (xs @ ys) = xs"
  by simp

lemma drop_append_exact: "length xs = n \<Longrightarrow> drop n (xs @ ys) = ys"
  by simp

lemma length_concat_uniform:
  "(\<And>x. x \<in> set xs \<Longrightarrow> length (f x) = n) \<Longrightarrow> length (concat (map f xs)) = n * length xs"
  by (induction xs) auto

lemma upt_numerals:
  "[0..<2] = [0, 1]" "[0..<3] = [0, 1, 2]" "[0..<4] = [0, 1, 2, 3]"
  "[0..<8] = [0, 1, 2, 3, 4, 5, 6, 7]"
  by code_simp+

lemma sum_list_const_map: "(\<And>x. x \<in> set xs \<Longrightarrow> f x = (n :: nat)) \<Longrightarrow> sum_list (map f xs) = n * length xs"
  by (induction xs) auto

section \<open>Options\<close>

lemma map_option_bind_Some: "map_option f m = Option.bind m (\<lambda>x. Some (f x))"
  by (cases m) auto

lemma bind_neq_None:
  "m \<noteq> None \<Longrightarrow> (\<And>x. m = Some x \<Longrightarrow> f x \<noteq> None) \<Longrightarrow> Option.bind m f \<noteq> None"
  by (cases m) auto

text \<open>A computation that stays inside its buffers.\<close>

definition safe :: "'a option \<Rightarrow> bool" where
  "safe m \<longleftrightarrow> m \<noteq> None"

lemma safe_Some [safe_intros, simp]: "safe (Some x)"
  by (simp add: safe_def)

lemma safe_if [safe_intros]: "(c \<Longrightarrow> safe a) \<Longrightarrow> (\<not> c \<Longrightarrow> safe b) \<Longrightarrow> safe (if c then a else b)"
  by simp

lemma safe_Let [safe_intros]: "(\<And>x. x = v \<Longrightarrow> safe (f x)) \<Longrightarrow> safe (let x = v in f x)"
  by simp

lemma safe_bind: "safe m \<Longrightarrow> (\<And>x. m = Some x \<Longrightarrow> safe (f x)) \<Longrightarrow> safe (Option.bind m f)"
  by (cases m) (auto simp: safe_def)

lemma safe_case_outcome [safe_intros]:
  "safe a \<Longrightarrow> (\<And>p. r = Accepted p \<Longrightarrow> safe (f p)) \<Longrightarrow> safe (case r of Rejected \<Rightarrow> a | Accepted p \<Rightarrow> f p)"
  by (cases r) auto

lemma safe_case_option [safe_intros]:
  "(r = None \<Longrightarrow> safe a) \<Longrightarrow> (\<And>p. r = Some p \<Longrightarrow> safe (f p)) \<Longrightarrow> safe (case r of None \<Rightarrow> a | Some p \<Rightarrow> f p)"
  by (cases r) auto

end
