(* ===== verification/Byte_IO.thy ===== *)
theory Byte_IO
  imports Rtc_Prelude
begin

text \<open>
  The byte order conversions of \<open>modules/rtp_rtcp/source/byte_io.h\<close>: the generic
  \<open>ByteReader\<close>/\<open>ByteWriter\<close> templates over \<open>B\<close> bytes, the sign extension of the signed
  reader, and the specialisations for one, two, four and eight bytes. A pointer to data is the
  list of the bytes from that position on. The lemmas characterise every bit that is read, show
  that the specialisations compute what the generic template computes, and that reading inverts
  writing.
\<close>

section \<open>The generic templates\<close>

definition InternalReadBigEndian :: "nat \<Rightarrow> bytes \<Rightarrow> 'a::len word" where
  "InternalReadBigEndian B data =
     fold (\<lambda>i val. val OR push_bit ((B - 1 - i) * 8) (ucast (data ! i))) [0..<B] 0"

definition InternalReadLittleEndian :: "nat \<Rightarrow> bytes \<Rightarrow> 'a::len word" where
  "InternalReadLittleEndian B data =
     fold (\<lambda>i val. val OR push_bit (i * 8) (ucast (data ! i))) [0..<B] 0"

definition WriteBigEndian :: "nat \<Rightarrow> 'a::len word \<Rightarrow> bytes" where
  "WriteBigEndian B val = map (\<lambda>i. ucast (drop_bit ((B - 1 - i) * 8) val)) [0..<B]"

definition WriteLittleEndian :: "nat \<Rightarrow> 'a::len word \<Rightarrow> bytes" where
  "WriteLittleEndian B val = map (\<lambda>i. ucast (drop_bit (i * 8) val)) [0..<B]"

text \<open>Signed values are read as their unsigned equivalent and converted by hand.\<close>

definition ReinterpretAsSigned :: "'a::len word \<Rightarrow> int" where
  "ReinterpretAsSigned unsigned_val =
     (let kUnsignedHighestBitMask = push_bit (LENGTH('a) - 1) 1;
          kSignedHighestBitMask = - (2 ^ (LENGTH('a) - 1))
      in if unsigned_val AND kUnsignedHighestBitMask \<noteq> 0
         then uint (unsigned_val AND NOT kUnsignedHighestBitMask) OR kSignedHighestBitMask
         else uint unsigned_val)"

definition SignExtend :: "nat \<Rightarrow> 'a::len word \<Rightarrow> 'a word" where
  "SignExtend B val =
     (let kMsb = ucast (drop_bit ((B - 1) * 8) val) :: u8
      in if kMsb AND 0x80 \<noteq> 0
         then let kUsedBitsMask = push_bit ((B mod (LENGTH('a) div 8)) * 8) 1 - 1
              in NOT kUsedBitsMask OR val
         else val)"

definition ReadBigEndian_signed :: "nat \<Rightarrow> 'a::len itself \<Rightarrow> bytes \<Rightarrow> int" where
  "ReadBigEndian_signed B T data =
     (let unsigned_val = InternalReadBigEndian B data :: 'a word;
          unsigned_val = (if B < LENGTH('a) div 8 then SignExtend B unsigned_val else unsigned_val)
      in ReinterpretAsSigned unsigned_val)"

definition WriteBigEndian_signed :: "nat \<Rightarrow> 'a::len itself \<Rightarrow> int \<Rightarrow> bytes" where
  "WriteBigEndian_signed B T val = WriteBigEndian B (word_of_int val :: 'a word)"

section \<open>The specialisations\<close>

definition ReadBigEndian1 :: "bytes \<Rightarrow> u8" where
  "ReadBigEndian1 data = data ! 0"

definition WriteBigEndian1 :: "u8 \<Rightarrow> bytes" where
  "WriteBigEndian1 val = [val]"

definition ReadBigEndian2 :: "bytes \<Rightarrow> u16" where
  "ReadBigEndian2 data = push_bit 8 (ucast (data ! 0)) OR ucast (data ! 1)"

definition ReadLittleEndian2 :: "bytes \<Rightarrow> u16" where
  "ReadLittleEndian2 data = ucast (data ! 0) OR push_bit 8 (ucast (data ! 1))"

definition WriteBigEndian2 :: "u16 \<Rightarrow> bytes" where
  "WriteBigEndian2 val = [ucast (drop_bit 8 val), ucast val]"

definition WriteLittleEndian2 :: "u16 \<Rightarrow> bytes" where
  "WriteLittleEndian2 val = [ucast val, ucast (drop_bit 8 val)]"

definition ReadBigEndian4 :: "bytes \<Rightarrow> u32" where
  "ReadBigEndian4 data =
     push_bit 24 (ucast (data ! 0)) OR push_bit 16 (ucast (data ! 1)) OR
     push_bit 8 (ucast (data ! 2)) OR ucast (data ! 3)"

definition ReadLittleEndian4 :: "bytes \<Rightarrow> u32" where
  "ReadLittleEndian4 data =
     ucast (data ! 0) OR push_bit 8 (ucast (data ! 1)) OR
     push_bit 16 (ucast (data ! 2)) OR push_bit 24 (ucast (data ! 3))"

definition WriteBigEndian4 :: "u32 \<Rightarrow> bytes" where
  "WriteBigEndian4 val =
     [ucast (drop_bit 24 val), ucast (drop_bit 16 val), ucast (drop_bit 8 val), ucast val]"

definition WriteLittleEndian4 :: "u32 \<Rightarrow> bytes" where
  "WriteLittleEndian4 val =
     [ucast val, ucast (drop_bit 8 val), ucast (drop_bit 16 val), ucast (drop_bit 24 val)]"

definition ReadBigEndian8 :: "bytes \<Rightarrow> u64" where
  "ReadBigEndian8 data =
     push_bit 56 (ucast (data ! 0)) OR push_bit 48 (ucast (data ! 1)) OR
     push_bit 40 (ucast (data ! 2)) OR push_bit 32 (ucast (data ! 3)) OR
     push_bit 24 (ucast (data ! 4)) OR push_bit 16 (ucast (data ! 5)) OR
     push_bit 8 (ucast (data ! 6)) OR ucast (data ! 7)"

definition ReadLittleEndian8 :: "bytes \<Rightarrow> u64" where
  "ReadLittleEndian8 data =
     ucast (data ! 0) OR push_bit 8 (ucast (data ! 1)) OR
     push_bit 16 (ucast (data ! 2)) OR push_bit 24 (ucast (data ! 3)) OR
     push_bit 32 (ucast (data ! 4)) OR push_bit 40 (ucast (data ! 5)) OR
     push_bit 48 (ucast (data ! 6)) OR push_bit 56 (ucast (data ! 7))"

definition WriteBigEndian8 :: "u64 \<Rightarrow> bytes" where
  "WriteBigEndian8 val =
     [ucast (drop_bit 56 val), ucast (drop_bit 48 val), ucast (drop_bit 40 val),
      ucast (drop_bit 32 val), ucast (drop_bit 24 val), ucast (drop_bit 16 val),
      ucast (drop_bit 8 val), ucast val]"

definition WriteLittleEndian8 :: "u64 \<Rightarrow> bytes" where
  "WriteLittleEndian8 val =
     [ucast val, ucast (drop_bit 8 val), ucast (drop_bit 16 val), ucast (drop_bit 24 val),
      ucast (drop_bit 32 val), ucast (drop_bit 40 val), ucast (drop_bit 48 val),
      ucast (drop_bit 56 val)]"

section \<open>Reading bits\<close>

lemma bit_fold_or:
  fixes z :: "'a::len word"
  shows "bit (fold (\<lambda>i val. val OR push_bit (s i) (ucast (data ! i))) is z) n \<longleftrightarrow>
    bit z n \<or> (\<exists>i \<in> set is. s i \<le> n \<and> n < LENGTH('a) \<and> bit (data ! i :: u8) (n - s i))"
proof (induction "is" arbitrary: z)
  case Nil
  show ?case by simp
next
  case (Cons i "is")
  have "bit (z OR push_bit (s i) (ucast (data ! i))) n \<longleftrightarrow>
      bit z n \<or> s i \<le> n \<and> n < LENGTH('a) \<and> bit (data ! i) (n - s i)"
    by (auto simp: bit_simps)
  with Cons.IH show ?case by auto
qed

lemma bit_InternalReadBigEndian:
  "bit (InternalReadBigEndian B data :: 'a::len word) n \<longleftrightarrow>
     n < 8 * B \<and> n < LENGTH('a) \<and> bit (data ! (B - 1 - n div 8)) (n mod 8)"
proof -
  have "(\<exists>i \<in> set [0..<B]. (B - 1 - i) * 8 \<le> n \<and> n < LENGTH('a) \<and>
          bit (data ! i) (n - (B - 1 - i) * 8)) \<longleftrightarrow>
        n < 8 * B \<and> n < LENGTH('a) \<and> bit (data ! (B - 1 - n div 8)) (n mod 8)" (is "?L = ?R")
  proof
    assume ?L
    then obtain i where i: "i < B" "(B - 1 - i) * 8 \<le> n" "n < LENGTH('a)"
      and b: "bit (data ! i) (n - (B - 1 - i) * 8)" by auto
    from b have "n - (B - 1 - i) * 8 < 8" by (rule bit_u8_lt)
    with i(2) have q: "n div 8 = B - 1 - i" and r: "n mod 8 = n - (B - 1 - i) * 8"
      by (simp_all add: minus_div_mult_eq_mod [symmetric] div_nat_eqI mult.commute)
    have "B - 1 - n div 8 = i" using q i(1) by simp
    moreover have "n < 8 * B" using q i(1) by linarith
    ultimately show ?R using i(3) b r by simp
  next
    assume r: ?R
    let ?i = "B - 1 - n div 8"
    from r have "?i < B" and "B - 1 - ?i = n div 8" by auto
    moreover have "n - n div 8 * 8 = n mod 8" by (simp add: minus_div_mult_eq_mod)
    ultimately show ?L using r by (intro bexI [of _ ?i]) auto
  qed
  then show ?thesis unfolding InternalReadBigEndian_def bit_fold_or by simp
qed

lemma bit_InternalReadLittleEndian:
  "bit (InternalReadLittleEndian B data :: 'a::len word) n \<longleftrightarrow>
     n < 8 * B \<and> n < LENGTH('a) \<and> bit (data ! (n div 8)) (n mod 8)"
proof -
  have "(\<exists>i \<in> set [0..<B]. i * 8 \<le> n \<and> n < LENGTH('a) \<and> bit (data ! i) (n - i * 8)) \<longleftrightarrow>
        n < 8 * B \<and> n < LENGTH('a) \<and> bit (data ! (n div 8)) (n mod 8)" (is "?L = ?R")
  proof
    assume ?L
    then obtain i where i: "i < B" "i * 8 \<le> n" "n < LENGTH('a)" and b: "bit (data ! i) (n - i * 8)"
      by auto
    from b have "n - i * 8 < 8" by (rule bit_u8_lt)
    with i(2) have q: "n div 8 = i" and r: "n mod 8 = n - i * 8"
      by (simp_all add: minus_div_mult_eq_mod [symmetric] div_nat_eqI mult.commute)
    have "n < 8 * B" using q i(1) by linarith
    then show ?R using q r i b by simp
  next
    assume r: ?R
    moreover have "n - n div 8 * 8 = n mod 8" by (simp add: minus_div_mult_eq_mod)
    ultimately show ?L by (intro bexI [of _ "n div 8"]) auto
  qed
  then show ?thesis unfolding InternalReadLittleEndian_def bit_fold_or by simp
qed

section \<open>The specialisations compute the generic template\<close>

lemma ReadBigEndian1_generic: "ReadBigEndian1 data = InternalReadBigEndian 1 data"
  by (simp add: ReadBigEndian1_def InternalReadBigEndian_def)

lemma ReadBigEndian2_generic: "ReadBigEndian2 data = InternalReadBigEndian 2 data"
  by (simp add: ReadBigEndian2_def InternalReadBigEndian_def upt_numerals)

lemma ReadBigEndian4_generic: "ReadBigEndian4 data = InternalReadBigEndian 4 data"
  by (simp add: ReadBigEndian4_def InternalReadBigEndian_def upt_numerals or.assoc)

lemma ReadBigEndian8_generic: "ReadBigEndian8 data = InternalReadBigEndian 8 data"
  by (simp add: ReadBigEndian8_def InternalReadBigEndian_def upt_numerals or.assoc)

lemma ReadLittleEndian2_generic: "ReadLittleEndian2 data = InternalReadLittleEndian 2 data"
  by (simp add: ReadLittleEndian2_def InternalReadLittleEndian_def upt_numerals)

lemma ReadLittleEndian4_generic: "ReadLittleEndian4 data = InternalReadLittleEndian 4 data"
  by (simp add: ReadLittleEndian4_def InternalReadLittleEndian_def upt_numerals or.assoc)

lemma ReadLittleEndian8_generic: "ReadLittleEndian8 data = InternalReadLittleEndian 8 data"
  by (simp add: ReadLittleEndian8_def InternalReadLittleEndian_def upt_numerals or.assoc)

lemma WriteBigEndian1_generic: "WriteBigEndian1 val = WriteBigEndian 1 val"
  by (simp add: WriteBigEndian1_def WriteBigEndian_def)

lemma WriteBigEndian2_generic: "WriteBigEndian2 val = WriteBigEndian 2 val"
  by (simp add: WriteBigEndian2_def WriteBigEndian_def upt_numerals)

lemma WriteBigEndian4_generic: "WriteBigEndian4 val = WriteBigEndian 4 val"
  by (simp add: WriteBigEndian4_def WriteBigEndian_def upt_numerals)

lemma WriteBigEndian8_generic: "WriteBigEndian8 val = WriteBigEndian 8 val"
  by (simp add: WriteBigEndian8_def WriteBigEndian_def upt_numerals)

lemma WriteLittleEndian2_generic: "WriteLittleEndian2 val = WriteLittleEndian 2 val"
  by (simp add: WriteLittleEndian2_def WriteLittleEndian_def upt_numerals)

lemma WriteLittleEndian4_generic: "WriteLittleEndian4 val = WriteLittleEndian 4 val"
  by (simp add: WriteLittleEndian4_def WriteLittleEndian_def upt_numerals)

lemma WriteLittleEndian8_generic: "WriteLittleEndian8 val = WriteLittleEndian 8 val"
  by (simp add: WriteLittleEndian8_def WriteLittleEndian_def upt_numerals)

lemmas generic_big_endian =
  ReadBigEndian1_generic ReadBigEndian2_generic ReadBigEndian4_generic ReadBigEndian8_generic
  WriteBigEndian1_generic WriteBigEndian2_generic WriteBigEndian4_generic WriteBigEndian8_generic

lemmas generic_little_endian =
  ReadLittleEndian2_generic ReadLittleEndian4_generic ReadLittleEndian8_generic
  WriteLittleEndian2_generic WriteLittleEndian4_generic WriteLittleEndian8_generic

section \<open>Reading inverts writing\<close>

lemma length_WriteBigEndian [simp]: "length (WriteBigEndian B val) = B"
  by (simp add: WriteBigEndian_def)

lemma length_WriteLittleEndian [simp]: "length (WriteLittleEndian B val) = B"
  by (simp add: WriteLittleEndian_def)

lemma bit_WriteBigEndian:
  fixes val :: "'a::len word"
  shows "i < B \<Longrightarrow> bit (WriteBigEndian B val ! i) k \<longleftrightarrow> k < 8 \<and> bit val ((B - 1 - i) * 8 + k)"
  by (auto simp: WriteBigEndian_def bit_simps)

lemma bit_WriteLittleEndian:
  fixes val :: "'a::len word"
  shows "i < B \<Longrightarrow> bit (WriteLittleEndian B val ! i) k \<longleftrightarrow> k < 8 \<and> bit val (i * 8 + k)"
  by (auto simp: WriteLittleEndian_def bit_simps)

lemma read_write_big_endian:
  fixes val :: "'a::len word"
  shows "(InternalReadBigEndian B (WriteBigEndian B val @ rest) :: 'a word) = take_bit (8 * B) val"
proof (rule bit_word_eqI)
  fix n assume n: "n < LENGTH('a)"
  show "bit (InternalReadBigEndian B (WriteBigEndian B val @ rest) :: 'a word) n \<longleftrightarrow>
    bit (take_bit (8 * B) val) n"
  proof (cases "n < 8 * B")
    case True
    then have "n div 8 < B" by auto
    then have i: "B - 1 - n div 8 < B" and "B - 1 - (B - 1 - n div 8) = n div 8" by auto
    moreover have "n div 8 * 8 + n mod 8 = n" by (rule div_mult_mod_eq)
    ultimately show ?thesis using True n
      by (simp add: bit_InternalReadBigEndian nth_append bit_WriteBigEndian bit_take_bit_iff)
  next
    case False
    then show ?thesis by (simp add: bit_InternalReadBigEndian bit_take_bit_iff)
  qed
qed

lemma read_write_little_endian:
  fixes val :: "'a::len word"
  shows "(InternalReadLittleEndian B (WriteLittleEndian B val @ rest) :: 'a word) =
    take_bit (8 * B) val"
proof (rule bit_word_eqI)
  fix n assume n: "n < LENGTH('a)"
  show "bit (InternalReadLittleEndian B (WriteLittleEndian B val @ rest) :: 'a word) n \<longleftrightarrow>
    bit (take_bit (8 * B) val) n"
  proof (cases "n < 8 * B")
    case True
    then have B: "n div 8 < B" by auto
    then have "(WriteLittleEndian B val @ rest) ! (n div 8) = WriteLittleEndian B val ! (n div 8)"
      by (intro nth_append_left) simp
    moreover have "n div 8 * 8 + n mod 8 = n" by (rule div_mult_mod_eq)
    ultimately show ?thesis using True n bit_WriteLittleEndian [OF B, of val "n mod 8"]
      by (simp add: bit_InternalReadLittleEndian bit_take_bit_iff)
  next
    case False
    then show ?thesis by (simp add: bit_InternalReadLittleEndian bit_take_bit_iff)
  qed
qed

text \<open>The other direction: writing what was read gives the bytes back, wherever the integer type
  is wide enough.\<close>

lemma write_read_big_endian:
  assumes "length data = B" and "8 * B \<le> LENGTH('a)"
  shows "WriteBigEndian B (InternalReadBigEndian B data :: 'a::len word) = data"
proof (rule nth_equalityI)
  show "length (WriteBigEndian B (InternalReadBigEndian B data :: 'a word)) = length data"
    using assms by simp
next
  fix i assume "i < length (WriteBigEndian B (InternalReadBigEndian B data :: 'a word))"
  then have i: "i < B" by simp
  show "WriteBigEndian B (InternalReadBigEndian B data :: 'a word) ! i = data ! i"
  proof (rule bit_word_eqI)
    fix k assume "k < LENGTH(8)"
    then have k: "k < 8" by simp
    let ?n = "(B - 1 - i) * 8 + k"
    have "?n div 8 = B - 1 - i" "?n mod 8 = k" "?n < 8 * B" using k i by auto
    moreover have "B - 1 - (B - 1 - i) = i" using i by simp
    ultimately show "bit (WriteBigEndian B (InternalReadBigEndian B data :: 'a word) ! i) k \<longleftrightarrow>
        bit (data ! i) k"
      using assms i k by (simp add: bit_WriteBigEndian bit_InternalReadBigEndian)
  qed
qed

lemma take_bit_full_word:
  fixes val :: "'a::len word"
  shows "LENGTH('a) \<le> n \<Longrightarrow> take_bit n val = val"
  by (rule bit_word_eqI) (simp add: bit_take_bit_iff)

lemma ReadBigEndian1_write [wire_simps]: "ReadBigEndian1 (v # rest) = v"
  by (simp add: ReadBigEndian1_def)

lemma ReadBigEndian2_write [wire_simps]: "ReadBigEndian2 (WriteBigEndian2 v @ rest) = v"
  by (simp add: generic_big_endian read_write_big_endian take_bit_full_word)

lemma ReadBigEndian4_write [wire_simps]: "ReadBigEndian4 (WriteBigEndian4 v @ rest) = v"
  by (simp add: generic_big_endian read_write_big_endian take_bit_full_word)

lemma ReadBigEndian8_write: "ReadBigEndian8 (WriteBigEndian8 v @ rest) = v"
  by (simp add: generic_big_endian read_write_big_endian take_bit_full_word)

section \<open>Signed values\<close>

lemma ReinterpretAsSigned_sint: "ReinterpretAsSigned (w :: 'a::len word) = sint w"
proof (rule bit_eqI)
  fix n
  show "bit (ReinterpretAsSigned w) n \<longleftrightarrow> bit (sint w) n"
    unfolding ReinterpretAsSigned_def Let_def bit_iff_and_push_bit_not_eq_0 [symmetric]
      minus_exp_eq_not_mask
    by (cases "n = LENGTH('a) - 1") (auto simp: bit_or_iff bit_not_iff bit_mask_iff bit_uint_iff bit_and_iff bit_push_bit_iff
        bit_1_iff bit_exp_iff bit_sint_iff dest: bit_imp_le_length)
qed

lemma SignExtend_signed_take_bit:
  fixes v :: u32
  shows "SignExtend 3 (take_bit 24 v) = signed_take_bit 23 v"
proof (rule bit_word_eqI)
  fix n assume "n < LENGTH(32)"
  have b: "(ucast (drop_bit ((3 - 1) * 8) (take_bit 24 v)) :: u8) AND 0x80 \<noteq> 0 \<longleftrightarrow> bit v 23"
  proof -
    have "(0x80 :: u8) = push_bit 7 1" by simp
    then show ?thesis by (simp only: bit_iff_and_push_bit_not_eq_0 [symmetric]) (simp add: bit_simps)
  qed
  have m: "push_bit ((3 mod (LENGTH(32) div 8)) * 8) 1 - 1 = (mask 24 :: u32)"
    by (simp add: mask_eq_exp_minus_1)
  show "bit (SignExtend 3 (take_bit 24 v)) n = bit (signed_take_bit 23 v) n"
    unfolding SignExtend_def Let_def b m using \<open>n < LENGTH(32)\<close>
    by (cases "n = 23") (auto simp: bit_simps min_def not_less)
qed

lemma read_write_s24:
  assumes "- (2 ^ 23) \<le> x" and "x < 2 ^ 23"
  shows "ReadBigEndian_signed 3 TYPE(32) (WriteBigEndian_signed 3 TYPE(32) x @ rest) = x"
proof -
  have "sint (signed_take_bit 23 (word_of_int x :: u32)) = x" 
  proof -
    have "signed_take_bit 23 (word_of_int x :: u32) = word_of_int (signed_take_bit 23 x)"
      by (rule bit_word_eqI) (auto simp: bit_simps min_def)
    also have "signed_take_bit 23 x = x" using assms by (simp add: signed_take_bit_int_eq_self)
    finally show ?thesis using assms by (simp add: sint_sbintrunc' signed_take_bit_int_eq_self)
  qed
  then show ?thesis
    by (simp add: ReadBigEndian_signed_def WriteBigEndian_signed_def read_write_big_endian
        SignExtend_signed_take_bit ReinterpretAsSigned_sint)
qed

lemma read_write_s16:
  assumes "- (2 ^ 15) \<le> x" and "x < 2 ^ 15"
  shows "ReadBigEndian_signed 2 TYPE(16) (WriteBigEndian_signed 2 TYPE(16) x @ rest) = x"
  using assms
    by (simp add: ReadBigEndian_signed_def WriteBigEndian_signed_def read_write_big_endian
        ReinterpretAsSigned_sint take_bit_full_word sint_sbintrunc' signed_take_bit_int_eq_self)

section \<open>Reads at an offset\<close>

text \<open>
  \<open>ByteReader<...>::ReadBigEndian(&p[off])\<close> as it occurs in the parsers: the read of \<open>n\<close> bytes
  at \<open>off\<close> is defined only inside the buffer.
\<close>

definition rd_at :: "nat \<Rightarrow> (bytes \<Rightarrow> 'a) \<Rightarrow> bytes \<Rightarrow> nat \<Rightarrow> 'a option" where
  "rd_at n f p off = (if off + n \<le> length p then Some (f (drop off p)) else None)"

definition rd8 :: "bytes \<Rightarrow> nat \<Rightarrow> u8 option" where
  "rd8 = rd_at 1 ReadBigEndian1"

definition rd16 :: "bytes \<Rightarrow> nat \<Rightarrow> u16 option" where
  "rd16 = rd_at 2 ReadBigEndian2"

definition rd24 :: "bytes \<Rightarrow> nat \<Rightarrow> u32 option" where
  "rd24 = rd_at 3 (InternalReadBigEndian 3)"

definition rd32 :: "bytes \<Rightarrow> nat \<Rightarrow> u32 option" where
  "rd32 = rd_at 4 ReadBigEndian4"

definition rd_s16 :: "bytes \<Rightarrow> nat \<Rightarrow> int option" where
  "rd_s16 = rd_at 2 (ReadBigEndian_signed 2 TYPE(16))"

definition rd_s24 :: "bytes \<Rightarrow> nat \<Rightarrow> int option" where
  "rd_s24 = rd_at 3 (ReadBigEndian_signed 3 TYPE(32))"

lemmas rd_defs = rd8_def rd16_def rd24_def rd32_def rd_s16_def rd_s24_def

lemma rd_in_bounds:
  "off + 1 \<le> length p \<Longrightarrow> rd8 p off \<noteq> None"
  "off + 2 \<le> length p \<Longrightarrow> rd16 p off \<noteq> None"
  "off + 3 \<le> length p \<Longrightarrow> rd24 p off \<noteq> None"
  "off + 4 \<le> length p \<Longrightarrow> rd32 p off \<noteq> None"
  "off + 2 \<le> length p \<Longrightarrow> rd_s16 p off \<noteq> None"
  "off + 3 \<le> length p \<Longrightarrow> rd_s24 p off \<noteq> None"
  by (simp_all add: rd_defs rd_at_def)

lemma safe_rd [safe_intros]:
  "off + 1 \<le> length p \<Longrightarrow> safe (rd8 p off)"
  "off + 2 \<le> length p \<Longrightarrow> safe (rd16 p off)"
  "off + 3 \<le> length p \<Longrightarrow> safe (rd24 p off)"
  "off + 4 \<le> length p \<Longrightarrow> safe (rd32 p off)"
  "off + 2 \<le> length p \<Longrightarrow> safe (rd_s16 p off)"
  "off + 3 \<le> length p \<Longrightarrow> safe (rd_s24 p off)"
  by (simp_all add: safe_def rd_in_bounds)

lemma safe_bind_rd [safe_intros]:
  "off + 1 \<le> length p \<Longrightarrow> (\<And>x. safe (f8 x)) \<Longrightarrow> safe (Option.bind (rd8 p off) f8)"
  "off + 2 \<le> length p \<Longrightarrow> (\<And>x. safe (f16 x)) \<Longrightarrow> safe (Option.bind (rd16 p off) f16)"
  "off + 3 \<le> length p \<Longrightarrow> (\<And>x. safe (f24 x)) \<Longrightarrow> safe (Option.bind (rd24 p off) f24)"
  "off + 4 \<le> length p \<Longrightarrow> (\<And>x. safe (f32 x)) \<Longrightarrow> safe (Option.bind (rd32 p off) f32)"
  "off + 2 \<le> length p \<Longrightarrow> (\<And>x. safe (g16 x)) \<Longrightarrow> safe (Option.bind (rd_s16 p off) g16)"
  "off + 3 \<le> length p \<Longrightarrow> (\<And>x. safe (g24 x)) \<Longrightarrow> safe (Option.bind (rd_s24 p off) g24)"
  by (auto intro!: safe_bind safe_rd)

lemma rd_at_Some:
  "off + n \<le> length p \<Longrightarrow> rd_at n f p off = Some (f (drop off p))"
  by (simp add: rd_at_def)

lemma rd_at_skip: "length xs \<le> off \<Longrightarrow> rd_at n f (xs @ ys) off = rd_at n f ys (off - length xs)"
  by (auto simp: rd_at_def)

lemma rd_at_skip_Cons: "0 < off \<Longrightarrow> rd_at n f (x # ys) off = rd_at n f ys (off - 1)"
  by (auto simp: rd_at_def drop_Cons split: nat.splits)

lemma rd_skip [wire_simps]:
  assumes "length xs \<le> off"
  shows "rd8 (xs @ ys) off = rd8 ys (off - length xs)"
    and "rd16 (xs @ ys) off = rd16 ys (off - length xs)"
    and "rd24 (xs @ ys) off = rd24 ys (off - length xs)"
    and "rd32 (xs @ ys) off = rd32 ys (off - length xs)"
    and "rd_s16 (xs @ ys) off = rd_s16 ys (off - length xs)"
    and "rd_s24 (xs @ ys) off = rd_s24 ys (off - length xs)"
  using assms by (simp_all add: rd_defs rd_at_skip)

lemma rd_skip_Cons [wire_simps]:
  assumes "0 < off"
  shows "rd8 (x # ys) off = rd8 ys (off - 1)"
    and "rd16 (x # ys) off = rd16 ys (off - 1)"
    and "rd24 (x # ys) off = rd24 ys (off - 1)"
    and "rd32 (x # ys) off = rd32 ys (off - 1)"
    and "rd_s16 (x # ys) off = rd_s16 ys (off - 1)"
    and "rd_s24 (x # ys) off = rd_s24 ys (off - 1)"
  using assms by (simp_all add: rd_defs rd_at_skip_Cons)

lemma length_writes [simp]:
  "length (WriteBigEndian1 b) = 1" "length (WriteBigEndian2 h) = 2"
  "length (WriteBigEndian4 w) = 4" "length (WriteBigEndian_signed B T x) = B"
  "length (WriteBigEndian B v) = B"
  by (simp_all add: WriteBigEndian1_def WriteBigEndian2_def WriteBigEndian4_def
      WriteBigEndian_signed_def WriteBigEndian_def)

lemma rd8_write [wire_simps]: "rd8 (b # rest) 0 = Some b"
  by (simp add: rd8_def rd_at_def ReadBigEndian1_def)

lemma rd16_write [wire_simps]:
  "rd16 (WriteBigEndian2 h @ rest) 0 = Some h" "rd16 (WriteBigEndian2 h) 0 = Some h"
  using ReadBigEndian2_write [of h "[]"]
  by (simp_all add: rd16_def rd_at_def ReadBigEndian2_write)

lemma rd32_write [wire_simps]:
  "rd32 (WriteBigEndian4 w @ rest) 0 = Some w" "rd32 (WriteBigEndian4 w) 0 = Some w"
  using ReadBigEndian4_write [of w "[]"]
  by (simp_all add: rd32_def rd_at_def ReadBigEndian4_write)

lemma rd24_write [wire_simps]:
  "rd24 (WriteBigEndian 3 (w :: u32) @ rest) 0 = Some (take_bit 24 w)"
  "rd24 (WriteBigEndian 3 (w :: u32)) 0 = Some (take_bit 24 w)"
  using read_write_big_endian [of 3 w "[]"] by (simp_all add: rd24_def rd_at_def read_write_big_endian)

lemma rd_s16_write:
  "- (2 ^ 15) \<le> x \<Longrightarrow> x < 2 ^ 15 \<Longrightarrow>
    rd_s16 (WriteBigEndian_signed 2 TYPE(16) x @ rest) 0 = Some x"
  by (simp add: rd_s16_def rd_at_def read_write_s16)

lemma rd_s24_write:
  "- (2 ^ 23) \<le> x \<Longrightarrow> x < 2 ^ 23 \<Longrightarrow>
    rd_s24 (WriteBigEndian_signed 3 TYPE(32) x @ rest) 0 = Some x"
  by (simp add: rd_s24_def rd_at_def read_write_s24)

text \<open>A copy of \<open>n\<close> bytes out of the buffer (\<open>memcpy\<close>, \<open>assign\<close>, \<open>SetData\<close>).\<close>

definition rd_bytes :: "bytes \<Rightarrow> nat \<Rightarrow> nat \<Rightarrow> bytes option" where
  "rd_bytes p off n = (if off + n \<le> length p then Some (take n (drop off p)) else None)"

lemma safe_rd_bytes [safe_intros]:
  "off + n \<le> length p \<Longrightarrow> safe (rd_bytes p off n)"
  "off + n \<le> length p \<Longrightarrow> (\<And>x. safe (f x)) \<Longrightarrow> safe (Option.bind (rd_bytes p off n) f)"
  by (simp_all add: rd_bytes_def)

lemma rd_bytes_skip [wire_simps]:
  "length xs \<le> off \<Longrightarrow> rd_bytes (xs @ ys) off n = rd_bytes ys (off - length xs) n"
  "0 < off \<Longrightarrow> rd_bytes (x # ys) off n = rd_bytes ys (off - 1) n"
  by (auto simp: rd_bytes_def drop_Cons split: nat.splits)

lemma rd_bytes_written [wire_simps]:
  "length xs = n \<Longrightarrow> rd_bytes (xs @ ys) 0 n = Some xs" "length xs = n \<Longrightarrow> rd_bytes xs 0 n = Some xs"
  by (simp_all add: rd_bytes_def)

section \<open>Arrays of items\<close>

text \<open>The loop \<open>for (item : items) { ... next += len; }\<close> of the parsers, reading \<open>n\<close> items of
  \<open>len\<close> bytes each from offset \<open>off\<close> on; \<open>rd_items_checked\<close> is the variant whose item parser
  may fail, and then makes the whole parser fail.\<close>

primrec rd_items :: "nat \<Rightarrow> (bytes \<Rightarrow> nat \<Rightarrow> 'i option) \<Rightarrow> bytes \<Rightarrow> nat \<Rightarrow> nat \<Rightarrow> 'i list option" where
  "rd_items len rd p off 0 = Some []"
| "rd_items len rd p off (Suc n) = do {
     x \<leftarrow> rd p off;
     xs \<leftarrow> rd_items len rd p (off + len) n;
     Some (x # xs)
   }"

primrec rd_items_checked ::
  "nat \<Rightarrow> (bytes \<Rightarrow> nat \<Rightarrow> 'i outcome option) \<Rightarrow> bytes \<Rightarrow> nat \<Rightarrow> nat \<Rightarrow> 'i list outcome option" where
  "rd_items_checked len rd p off 0 = Some (Accepted [])"
| "rd_items_checked len rd p off (Suc n) = do {
     r \<leftarrow> rd p off;
     case r of
       Rejected \<Rightarrow> Some Rejected
     | Accepted x \<Rightarrow> do {
         rs \<leftarrow> rd_items_checked len rd p (off + len) n;
         case rs of
           Rejected \<Rightarrow> Some Rejected
         | Accepted xs \<Rightarrow> Some (Accepted (x # xs))
       }
   }"

lemma safe_rd_items:
  assumes "\<And>i. i < n \<Longrightarrow> safe (rd p (off + len * i))"
  shows "safe (rd_items len rd p off n)"
  using assms
proof (induction n arbitrary: off)
  case (Suc n)
  have "safe (rd p off)" using Suc.prems [of 0] by simp
  moreover have "safe (rd_items len rd p (off + len) n)"
    by (rule Suc.IH) (use Suc.prems [of "Suc i" for i] in \<open>simp add: algebra_simps\<close>)
  ultimately show ?case by (auto intro!: safe_bind)
qed simp

lemma safe_rd_items_checked:
  assumes "\<And>i. i < n \<Longrightarrow> safe (rd p (off + len * i))"
  shows "safe (rd_items_checked len rd p off n)"
  using assms
proof (induction n arbitrary: off)
  case (Suc n)
  have "safe (rd p off)" using Suc.prems [of 0] by simp
  moreover have "safe (rd_items_checked len rd p (off + len) n)"
    by (rule Suc.IH) (use Suc.prems [of "Suc i" for i] in \<open>simp add: algebra_simps\<close>)
  ultimately show ?case by (auto intro!: safe_bind safe_intros)
qed simp

lemma rd_items_written:
  assumes rd: "\<And>x pre post. x \<in> set xs \<Longrightarrow> rd (pre @ w x @ post) (length pre) = Some (f x)"
    and len: "\<And>x. x \<in> set xs \<Longrightarrow> length (w x) = len"
  shows "rd_items len rd (pre @ concat (map w xs) @ post) (length pre) (length xs) = Some (map f xs)"
  using assms
proof (induction xs arbitrary: pre)
  case (Cons x xs)
  have "rd_items len rd ((pre @ w x) @ concat (map w xs) @ post) (length (pre @ w x)) (length xs) =
      Some (map f xs)"
    using Cons.prems by (intro Cons.IH) auto
  moreover have "length (w x) = len" using Cons.prems(2) by simp
  ultimately show ?case using Cons.prems(1) [of x pre "concat (map w xs) @ post"] by simp
qed simp

lemma rd_items_checked_written:
  assumes rd: "\<And>x pre post. x \<in> set xs \<Longrightarrow> rd (pre @ w x @ post) (length pre) = Some (Accepted (f x))"
    and len: "\<And>x. x \<in> set xs \<Longrightarrow> length (w x) = len"
  shows "rd_items_checked len rd (pre @ concat (map w xs) @ post) (length pre) (length xs) =
    Some (Accepted (map f xs))"
  using assms
proof (induction xs arbitrary: pre)
  case (Cons x xs)
  have "rd_items_checked len rd ((pre @ w x) @ concat (map w xs) @ post) (length (pre @ w x)) (length xs) =
      Some (Accepted (map f xs))"
    using Cons.prems by (intro Cons.IH) auto
  moreover have "length (w x) = len" using Cons.prems(2) by simp
  ultimately show ?case using Cons.prems(1) [of x pre "concat (map w xs) @ post"] by simp
qed simp

lemma rd_items_length: "rd_items len rd p off n = Some xs \<Longrightarrow> length xs = n"
  by (induction n arbitrary: off xs) (auto simp: bind_eq_Some_conv)

end
