(* ===== verification/Seq_Num.thy ===== *)
theory Seq_Num
  imports Rtc_Prelude
begin

text \<open>
  Wrapping sequence numbers: the modular arithmetic of \<open>rtc_base/numerics/mod_ops.h\<close>, the
  \<open>ahead\<close> tests of \<open>rtc_base/numerics/sequence_number_util.h\<close> and the unwrapper class of
  \<open>rtc_base/numerics/sequence_number_unwrapper.h\<close>. The template parameters are the width of
  the word type (\<open>T\<close>) and the modulus \<open>M\<close>, where \<open>M = 0\<close> stands for the natural wrap-around
  of \<open>T\<close>. The unwrapped value is an \<open>int64_t\<close>, modelled as \<open>int\<close>: reaching its limits would
  take \<open>2 ^ 47\<close> wraps of a 16 bit number.
\<close>

section \<open>Modular arithmetic\<close>

definition Add :: "u64 \<Rightarrow> u64 \<Rightarrow> u64 \<Rightarrow> u64" where
  "Add M a b =
     (let t = M - b mod M;
          res = a - t
      in if t > a then res + M else res)"

definition Subtract :: "u64 \<Rightarrow> u64 \<Rightarrow> u64 \<Rightarrow> u64" where
  "Subtract M a b =
     (let sub = b mod M
      in if a < sub then M - (sub - a) else a - sub)"

definition ForwardDiff :: "'a::len word \<Rightarrow> 'a word \<Rightarrow> 'a word \<Rightarrow> 'a word" where
  "ForwardDiff M a b = (if M > 0 then (if a \<le> b then b - a else M - (a - b)) else b - a)"

definition ReverseDiff :: "'a::len word \<Rightarrow> 'a word \<Rightarrow> 'a word \<Rightarrow> 'a word" where
  "ReverseDiff M a b = (if M > 0 then (if b \<le> a then a - b else M - (b - a)) else a - b)"

definition MinDiff :: "'a::len word \<Rightarrow> 'a word \<Rightarrow> 'a word \<Rightarrow> 'a word" where
  "MinDiff M a b = min (ForwardDiff M a b) (ReverseDiff M a b)"

section \<open>Comparing sequence numbers\<close>

text \<open>
  In the unbounded case the code compares \<open>a - b == maxDist\<close>. Types narrower than \<open>int\<close> are
  promoted first, so for them the difference is the signed one.
\<close>

definition difference_is :: "'a::len word \<Rightarrow> 'a word \<Rightarrow> 'a word \<Rightarrow> bool" where
  "difference_is a b d =
     (if LENGTH('a) < 32 then uint a - uint b = uint d else a - b = d)"

definition AheadOrAt :: "'a::len word \<Rightarrow> 'a word \<Rightarrow> 'a word \<Rightarrow> bool" where
  "AheadOrAt M a b =
     (if M > 0 then
        let maxDist = M div 2
        in if M AND 1 = 0 \<and> MinDiff M a b = maxDist then b < a
           else ForwardDiff M b a \<le> maxDist
      else
        let maxDist = (- 1) div 2 + 1
        in if difference_is a b maxDist then b < a
           else ForwardDiff 0 b a < maxDist)"

definition AheadOf :: "'a::len word \<Rightarrow> 'a word \<Rightarrow> 'a word \<Rightarrow> bool" where
  "AheadOf M a b \<longleftrightarrow> a \<noteq> b \<and> AheadOrAt M a b"

definition AscendingSeqNumComp :: "'a::len word \<Rightarrow> 'a word \<Rightarrow> 'a word \<Rightarrow> bool" where
  "AscendingSeqNumComp M a b = AheadOf M a b"

definition DescendingSeqNumComp :: "'a::len word \<Rightarrow> 'a word \<Rightarrow> 'a word \<Rightarrow> bool" where
  "DescendingSeqNumComp M a b = AheadOf M b a"

text \<open>\<open>IsNewer\<close> of \<open>modules/include/module_common_types_public.h\<close>, the older form of the same
  test.\<close>

definition IsNewer :: "'a::len word \<Rightarrow> 'a word \<Rightarrow> bool" where
  "IsNewer val prev_val =
     (let kBreakpoint = drop_bit 1 (- 1) + 1
      in if difference_is val prev_val kBreakpoint then val > prev_val
         else val \<noteq> prev_val \<and> val - prev_val < kBreakpoint)"

definition IsNewerSequenceNumber :: "u16 \<Rightarrow> u16 \<Rightarrow> bool" where
  "IsNewerSequenceNumber sequence_number prev_sequence_number =
     IsNewer sequence_number prev_sequence_number"

definition IsNewerTimestamp :: "u32 \<Rightarrow> u32 \<Rightarrow> bool" where
  "IsNewerTimestamp timestamp prev_timestamp = IsNewer timestamp prev_timestamp"

definition LatestSequenceNumber :: "u16 \<Rightarrow> u16 \<Rightarrow> u16" where
  "LatestSequenceNumber sequence_number1 sequence_number2 =
     (if IsNewerSequenceNumber sequence_number1 sequence_number2
      then sequence_number1 else sequence_number2)"

definition LatestTimestamp :: "u32 \<Rightarrow> u32 \<Rightarrow> u32" where
  "LatestTimestamp timestamp1 timestamp2 =
     (if IsNewerTimestamp timestamp1 timestamp2 then timestamp1 else timestamp2)"

section \<open>The unwrapper\<close>

record 't SeqNumUnwrapper =
  last_unwrapped :: int
  last_value :: "'t option"

definition SeqNumUnwrapper_init :: "'a::len word SeqNumUnwrapper" where
  "SeqNumUnwrapper_init = \<lparr>last_unwrapped = 0, last_value = None\<rparr>"

definition Delta :: "'a::len word \<Rightarrow> 'a word \<Rightarrow> 'a word \<Rightarrow> int" where
  "Delta M last_val new_val =
     (let kBackwardAdjustment = (if M = 0 then uint (- 1 :: 'a word) + 1 else uint M);
          result = uint (ForwardDiff M last_val new_val)
      in if \<not> AheadOrAt M new_val last_val then result - kBackwardAdjustment else result)"

definition Unwrap :: "'a::len word \<Rightarrow> 'a word \<Rightarrow> 'a word SeqNumUnwrapper \<Rightarrow> int \<times> 'a word SeqNumUnwrapper" where
  "Unwrap M val u =
     (let unwrapped = (case last_value u of
                         None \<Rightarrow> uint val
                       | Some last_val \<Rightarrow> last_unwrapped u + Delta M last_val val)
      in (unwrapped, u\<lparr>last_unwrapped := unwrapped, last_value := Some val\<rparr>))"

definition PeekUnwrap :: "'a::len word \<Rightarrow> 'a word \<Rightarrow> 'a word SeqNumUnwrapper \<Rightarrow> int" where
  "PeekUnwrap M val u =
     (case last_value u of
        None \<Rightarrow> uint val
      | Some last_val \<Rightarrow> last_unwrapped u + Delta M last_val val)"

definition Reset :: "'a::len word SeqNumUnwrapper \<Rightarrow> 'a word SeqNumUnwrapper" where
  "Reset u = u\<lparr>last_unwrapped := 0, last_value := None\<rparr>"

section \<open>The modulus\<close>

definition modulus :: "'a::len word \<Rightarrow> int" where
  "modulus M = (if M = 0 then 2 ^ LENGTH('a) else uint M)"

definition in_range :: "'a::len word \<Rightarrow> 'a word \<Rightarrow> bool" where
  "in_range M a \<longleftrightarrow> M = 0 \<or> a < M"

lemma modulus_pos: "0 < modulus M"
proof (cases "M = 0")
  case False
  then have "uint M \<noteq> 0" by (simp add: unsigned_eq_0_iff)
  then have "0 < uint M" by (rule le_neq_trans [OF uint_ge_0 not_sym])
  with False show ?thesis by (simp add: modulus_def)
qed (simp add: modulus_def)

lemma in_range_uint: "in_range M a \<Longrightarrow> 0 \<le> uint a \<and> uint a < modulus M"
  using uint_lt2p [of a] by (auto simp: in_range_def modulus_def word_less_def)

lemma uint_minus_le: "b \<le> a \<Longrightarrow> uint (a - b) = uint a - uint b"
  by (simp add: uint_minus_simple_alt)

lemma uint_ForwardDiff:
  assumes "in_range M a" and "in_range M b"
  shows "uint (ForwardDiff M a b) = (uint b - uint a) mod modulus M"
proof (cases "M = 0")
  case True
  then show ?thesis by (simp add: ForwardDiff_def modulus_def uint_word_ariths(2))
next
  case False
  then have M: "a < M" "b < M" using assms by (auto simp: in_range_def)
  have I: "0 \<le> uint a" "0 \<le> uint b" "uint a < uint M" "uint b < uint M"
    using M by (simp_all add: word_less_def)
  have F: "ForwardDiff M a b = (if a \<le> b then b - a else M - (a - b))"
    using False by (simp add: ForwardDiff_def word_gt_0)
  show ?thesis
  proof (cases "a \<le> b")
    case True
    then have "uint (b - a) = uint b - uint a" by (rule uint_minus_le)
    moreover have "uint a \<le> uint b" using True by (simp add: word_le_def)
    then have "(uint b - uint a) mod uint M = uint b - uint a"
      using I by (intro mod_pos_pos_trivial) linarith+
    ultimately show ?thesis using True False by (simp add: F modulus_def)
  next
    case Gt: False
    then have ab: "uint (a - b) = uint a - uint b" by (intro uint_minus_le) simp
    moreover have lt: "uint b < uint a" using Gt by (simp add: word_le_def)
    ultimately have "a - b \<le> M" unfolding word_le_def using I by linarith
    then have "uint (M - (a - b)) = uint M - (uint a - uint b)"
      using ab by (simp add: uint_minus_le)
    moreover have "(uint M + (uint b - uint a)) mod uint M = uint M + (uint b - uint a)"
      using lt I by (intro mod_pos_pos_trivial) linarith+
    then have "(uint b - uint a) mod uint M = uint M + (uint b - uint a)" by simp
    ultimately show ?thesis using Gt False by (simp add: F modulus_def)
  qed
qed

lemma ReverseDiff_ForwardDiff: "ReverseDiff M a b = ForwardDiff M b a"
  by (simp add: ReverseDiff_def ForwardDiff_def)


lemma uint_two: "1 < LENGTH('a::len) \<Longrightarrow> uint (2 :: 'a word) = 2"
  by simp

lemma uint_half_range:
  assumes "1 < LENGTH('a::len)"
  shows "uint ((- 1 :: 'a word) div 2 + 1) = 2 ^ (LENGTH('a) - 1)"
proof -
  obtain k where k: "LENGTH('a) = Suc (Suc k)"
    using assms by (metis One_nat_def Suc_lessE less_imp_Suc_add add_Suc)
  have m: "uint (- 1 :: 'a word) = 2 * 2 ^ Suc k - 1"
    using k by (simp add: unsigned_minus_1_eq_mask mask_eq_exp_minus_1)
  have d: "uint ((- 1 :: 'a word) div 2) = 2 ^ Suc k - 1"
    unfolding uint_div_distrib uint_two [OF assms] m by simp
  have "uint ((- 1 :: 'a word) div 2 + 1) = (2 ^ Suc k - 1 + 1) mod 2 ^ LENGTH('a)"
    unfolding uint_word_ariths(1) d by simp
  also have "\<dots> = 2 ^ Suc k" unfolding k by simp
  finally show ?thesis by (simp add: k)
qed

lemma half_less_range: "(2::int) ^ (LENGTH('a::len) - 1) < 2 ^ LENGTH('a)"
  by (rule power_strict_increasing) auto

lemma double_half_range: "2 * (2::int) ^ (LENGTH('a::len) - 1) = 2 ^ LENGTH('a)"
  by (metis One_nat_def len_gt_0 power_minus_mult mult.commute)

text \<open>Whatever the promotion does, the half-way test answers like the unsigned one, since the
  tie is then decided by \<open>b < a\<close>.\<close>

lemma difference_is_half:
  fixes a b d :: "'a::len word"
  assumes d: "uint d = 2 ^ (LENGTH('a) - 1)"
  shows "difference_is a b d \<and> b < a \<longleftrightarrow> (uint a - uint b) mod 2 ^ LENGTH('a) = uint d \<and> b < a"
proof -
  have "(uint a - uint b) mod 2 ^ LENGTH('a) = uint a - uint b" if "b < a"
    using that uint_ge_0 [of b] uint_lt2p [of a]
    by (intro mod_pos_pos_trivial) (simp_all add: word_less_def)
  then show ?thesis by (auto simp: difference_is_def uint_word_ariths(2) word_uint_eq_iff)
qed

lemma difference_is_imp_half:
  fixes a b d :: "'a::len word"
  assumes d: "uint d = 2 ^ (LENGTH('a) - 1)" and "difference_is a b d"
  shows "(uint a - uint b) mod 2 ^ LENGTH('a) = uint d"
proof (cases "LENGTH('a) < 32")
  case True
  with assms(2) have "uint a - uint b = uint d" by (simp add: difference_is_def)
  then show ?thesis using half_less_range [where 'a = 'a] d by simp
next
  case False
  with assms(2) have "uint (a - b) = uint d" by (simp add: difference_is_def)
  then show ?thesis by (simp add: uint_word_ariths(2))
qed

lemma nearer_half:
  fixes d N :: int
  assumes "0 \<le> d" and "d < N"
  shows "(if even N \<and> min (if d = 0 then 0 else N - d) d = N div 2 then P else d \<le> N div 2) \<longleftrightarrow>
    2 * d < N \<or> 2 * d = N \<and> P"
proof (cases "even N")
  case True
  then obtain k where "N = 2 * k" by (elim evenE)
  with assms show ?thesis by (auto simp: min_def)
next
  case False
  then obtain k where "N = 2 * k + 1" by (elim oddE)
  with assms show ?thesis by auto
qed

lemma AheadOrAt_spec:
  fixes M a b :: "'a::len word"
  assumes r: "in_range M a" "in_range M b" and L: "1 < LENGTH('a)"
  shows "AheadOrAt M a b \<longleftrightarrow>
    (let d = (uint a - uint b) mod modulus M
     in 2 * d < modulus M \<or> 2 * d = modulus M \<and> b < a)"
proof (cases "M = 0")
  case True
  let ?N = "2 ^ LENGTH('a) :: int" and ?d = "(uint a - uint b) mod 2 ^ LENGTH('a)"
  define h where "h = (- 1 :: 'a word) div 2 + 1"
  have h: "uint h = 2 ^ (LENGTH('a) - 1)" unfolding h_def by (rule uint_half_range [OF L])
  have lt: "ForwardDiff 0 b a < h \<longleftrightarrow> 2 * ?d < ?N"
  proof -
    have "uint (ForwardDiff 0 b a) = ?d" by (simp add: ForwardDiff_def uint_word_ariths(2))
    then show ?thesis unfolding word_less_def h using double_half_range [where 'a = 'a] by linarith
  qed
  have eq: "?d = uint h \<longleftrightarrow> 2 * ?d = ?N"
    using double_half_range [where 'a = 'a] h by linarith
  have "AheadOrAt M a b \<longleftrightarrow> (if difference_is a b h then b < a else 2 * ?d < ?N)"
    unfolding AheadOrAt_def Let_def h_def [symmetric] using True lt by simp
  also have "\<dots> \<longleftrightarrow> 2 * ?d < ?N \<or> 2 * ?d = ?N \<and> b < a"
    using difference_is_half [OF h, of a b] difference_is_imp_half [OF h, of a b] eq by auto
  finally show ?thesis using True by (simp add: modulus_def Let_def)
next
  case False
  let ?d = "(uint a - uint b) mod uint M"
  have m: "modulus M = uint M" using False by (simp add: modulus_def)
  have pos: "0 < uint M" using modulus_pos [of M] m by simp
  have fd: "uint (ForwardDiff M b a) = ?d" and rd: "uint (ForwardDiff M a b) = (- ?d) mod uint M"
    using uint_ForwardDiff [OF r(2,1)] uint_ForwardDiff [OF r(1,2)]
    by (simp_all add: m mod_minus_eq)
  have bnd: "0 \<le> ?d" "?d < uint M" using pos by auto
  have neg: "(- ?d) mod uint M = (if ?d = 0 then 0 else uint M - ?d)"
    using bnd zmod_zminus1_eq_if [of ?d "uint M"] by simp
  have half: "uint (M div 2) = uint M div 2" by (simp only: uint_div_distrib uint_two [OF L])
  have ev: "M AND 1 = 0 \<longleftrightarrow> even (uint M)"
  proof -
    have "M AND 1 \<noteq> 0 \<longleftrightarrow> bit M 0" using bit_iff_and_push_bit_not_eq_0 [of M 0] by simp
    also have "bit M 0 \<longleftrightarrow> odd (uint M)" by (simp add: bit_uint_iff flip: bit_0)
    finally show ?thesis by blast
  qed
  have md: "MinDiff M a b = M div 2 \<longleftrightarrow> min ((- ?d) mod uint M) ?d = uint M div 2"
    by (simp add: MinDiff_def ReverseDiff_ForwardDiff word_uint_eq_iff half min_def word_le_def fd rd)
  have "AheadOrAt M a b \<longleftrightarrow>
      (if even (uint M) \<and> min ((- ?d) mod uint M) ?d = uint M div 2 then b < a
       else ?d \<le> uint M div 2)"
    using False by (simp add: AheadOrAt_def Let_def word_gt_0 ev md word_le_def half fd)
  also have "\<dots> \<longleftrightarrow> 2 * ?d < uint M \<or> 2 * ?d = uint M \<and> b < a"
    unfolding neg by (rule nearer_half [OF bnd])
  finally show ?thesis by (simp add: m Let_def)
qed


section \<open>Addition and subtraction modulo \<open>M\<close>\<close>

lemma mod_add_once:
  fixes m n N :: nat
  assumes "m < N" and "n < N"
  shows "(m + n) mod N = (if m + n < N then m + n else m + n - N)"
proof (cases "m + n < N")
  case False
  then have "(m + n) mod N = (m + n - N) mod N" by (simp add: le_mod_geq)
  also have "\<dots> = m + n - N" using assms False by (intro mod_less) linarith
  finally show ?thesis using False by simp
qed simp

lemma unat_Add:
  assumes "a < M"
  shows "unat (Add M a b) = (unat a + unat b) mod unat M"
proof -
  let ?r = "unat b mod unat M"
  have M: "0 < unat M" "unat a < unat M" using assms by (auto simp: word_less_nat_alt)
  then have r: "?r < unat M" by simp
  then have t: "unat (M - b mod M) = unat M - ?r"
    by (simp add: unat_sub word_le_nat_alt unat_mod_distrib)
  show ?thesis
  proof (cases "unat M - ?r \<le> unat a")
    case True
    then have le: "M - b mod M \<le> a" by (simp add: word_le_nat_alt t)
    then have "Add M a b = a - (M - b mod M)" unfolding Add_def Let_def by (simp only: leD if_False)
    then have "unat (Add M a b) = unat a - (unat M - ?r)" by (simp only: unat_sub [OF le] t)
    also have "\<dots> = (unat a + ?r) mod unat M"
    proof -
      have "\<not> unat a + ?r < unat M" using True r by linarith
      then show ?thesis unfolding mod_add_once [OF M(2) r] using True r by simp
    qed
    finally show ?thesis by (simp add: mod_add_right_eq)
  next
    case False
    then have lt: "a < M - b mod M" by (simp add: word_less_nat_alt t)
    have "unat (Add M a b) = unat (a + b mod M)" using lt by (simp add: Add_def Let_def)
    also have "\<dots> = unat a + ?r"
    proof -
      have "unat a + unat (b mod M) < 2 ^ LENGTH(64)"
        using False unsigned_less [of M, where 'a = nat] by (simp add: unat_mod_distrib)
      then show ?thesis by (simp add: unat_add_lem [THEN iffD1] unat_mod_distrib)
    qed
    also have "\<dots> = (unat a + ?r) mod unat M" using False by simp
    finally show ?thesis by (simp add: mod_add_right_eq)
  qed
qed

lemma Subtract_Add: "a < M \<Longrightarrow> Subtract M (Add M a b) b = a"
proof -
  assume a: "a < M"
  let ?r = "unat b mod unat M" and ?s = "(unat a + unat b) mod unat M"
  have M: "0 < unat M" "unat a < unat M" using a by (auto simp: word_less_nat_alt)
  have r: "?r < unat M" using M by simp
  have s: "?s = (if unat a + ?r < unat M then unat a + ?r else unat a + ?r - unat M)"
  proof -
    have "?s = (unat a + ?r) mod unat M" by (simp add: mod_add_right_eq)
    then show ?thesis unfolding mod_add_once [OF M(2) r] .
  qed
  have le: "b mod M \<le> M" using r by (simp add: word_le_nat_alt unat_mod_distrib)
  have "unat (Subtract M (Add M a b) b) = unat a"
  proof (cases "unat a + ?r < unat M")
    case True
    then have "b mod M \<le> Add M a b" using s by (simp add: word_le_nat_alt unat_Add [OF a] unat_mod_distrib)
    then show ?thesis
      using True s by (simp add: Subtract_def Let_def not_less unat_sub unat_Add [OF a] unat_mod_distrib)
  next
    case False
    then have lt: "Add M a b < b mod M"
      using s M by (simp add: word_less_nat_alt unat_Add [OF a] unat_mod_distrib)
    then have d: "unat (b mod M - Add M a b) = ?r - (unat a + ?r - unat M)"
      using s False by (simp add: unat_sub unat_Add [OF a] unat_mod_distrib)
    then have "b mod M - Add M a b \<le> M" using r by (simp add: word_le_nat_alt)
    then show ?thesis using lt d False M r by (simp add: Subtract_def Let_def unat_sub)
  qed
  then show ?thesis by (rule word_unat_eq_iff [THEN iffD2])
qed

section \<open>Properties of the order\<close>

lemma AheadOrAt_refl:
  assumes "in_range M a" and "1 < LENGTH('a)"
  shows "AheadOrAt M (a :: 'a::len word) a"
  using AheadOrAt_spec [OF assms(1,1,2)] modulus_pos [of M] by simp

lemma mod_minus_flip:
  fixes N :: int
  assumes "0 < N" and "(x - y) mod N \<noteq> 0"
  shows "(y - x) mod N = N - (x - y) mod N"
  using assms zmod_zminus1_eq_if [of "x - y" N] by simp

lemma uint_diff_mod_eq_0:
  assumes "in_range M a" and "in_range M b"
  shows "(uint a - uint b) mod modulus M = 0 \<longleftrightarrow> a = b"
proof
  assume "(uint a - uint b) mod modulus M = 0"
  then have "uint a mod modulus M = uint b mod modulus M"
    by (simp add: mod_eq_dvd_iff mod_eq_0_iff_dvd)
  then show "a = b"
    using in_range_uint [OF assms(1)] in_range_uint [OF assms(2)] by (simp add: word_uint_eq_iff)
qed simp

lemma AheadOf_asym:
  assumes r: "in_range M a" "in_range M b" and L: "1 < LENGTH('a)" and "a \<noteq> (b :: 'a::len word)"
  shows "AheadOf M a b \<longleftrightarrow> \<not> AheadOf M b a"
proof -
  let ?N = "modulus M" and ?d = "(uint a - uint b) mod modulus M"
  have ne: "?d \<noteq> 0" using uint_diff_mod_eq_0 [OF r] assms(4) by simp
  then have flip: "(uint b - uint a) mod ?N = ?N - ?d" by (rule mod_minus_flip [OF modulus_pos])
  have "b < a \<longleftrightarrow> \<not> a < b" using assms(4) by auto
  then show ?thesis
    using assms(4) AheadOrAt_spec [OF r L] AheadOrAt_spec [OF r(2,1) L]
    by (auto simp: AheadOf_def Let_def flip)
qed

lemma in_range_0 [simp]: "in_range 0 a"
  by (simp add: in_range_def)

lemma modulus_0: "modulus (0 :: 'a::len word) = 2 ^ LENGTH('a)"
  by (simp add: modulus_def)

lemma IsNewer_AheadOf:
  assumes L: "1 < LENGTH('a)"
  shows "IsNewer a (b :: 'a::len word) \<longleftrightarrow> AheadOf 0 a b"
proof -
  have "drop_bit 1 (- 1 :: 'a word) = (- 1) div 2"
    by (simp add: drop_bit_eq_div)
  moreover have "difference_is a a ((- 1) div 2 + 1) \<Longrightarrow> False"
  proof -
    have "uint ((- 1 :: 'a word) div 2 + 1) \<noteq> 0" unfolding uint_half_range [OF L] by simp
    then have "(- 1 :: 'a word) div 2 + 1 \<noteq> 0" by auto
    then show "difference_is a a ((- 1) div 2 + 1) \<Longrightarrow> False"
      unfolding difference_is_def using uint_half_range [OF L] by (simp split: if_splits)
  qed
  ultimately show ?thesis
    unfolding IsNewer_def AheadOf_def AheadOrAt_def Let_def ForwardDiff_def by auto
qed

section \<open>Properties of the unwrapper\<close>

lemma Delta_spec:
  fixes M a b :: "'a::len word"
  assumes r: "in_range M a" "in_range M b" and L: "1 < LENGTH('a)"
  shows "Delta M a b =
    (let d = (uint b - uint a) mod modulus M
     in if 2 * d < modulus M \<or> 2 * d = modulus M \<and> a < b then d else d - modulus M)"
proof -
  have "(if M = 0 then uint (- 1 :: 'a word) + 1 else uint M) = modulus M"
    by (simp add: modulus_def unsigned_minus_1_eq_mask mask_eq_exp_minus_1)
  then show ?thesis
    unfolding Delta_def Let_def uint_ForwardDiff [OF r] AheadOrAt_spec [OF r(2,1) L] by auto
qed

lemma Delta_cong:
  assumes "in_range M a" "in_range M b" "1 < LENGTH('a::len)"
  shows "(Delta M a (b :: 'a word)) mod modulus M = (uint b - uint a) mod modulus M"
  unfolding Delta_spec [OF assms] Let_def by simp

lemma Delta_bounds:
  assumes "in_range M a" "in_range M b" "1 < LENGTH('a::len)"
  shows "- modulus M \<le> 2 * Delta M a (b :: 'a word)" "2 * Delta M a b \<le> modulus M"
proof -
  have "0 \<le> (uint b - uint a) mod modulus M" "(uint b - uint a) mod modulus M < modulus M"
    using modulus_pos [of M] by simp_all
  then show "- modulus M \<le> 2 * Delta M a b" "2 * Delta M a b \<le> modulus M"
    unfolding Delta_spec [OF assms] Let_def by auto
qed

text \<open>Two numbers in the open half range around zero that agree modulo \<open>N\<close> are equal.\<close>

lemma cong_small_eq:
  fixes x y N :: int
  assumes "x mod N = y mod N" "- N \<le> 2 * x" "2 * x \<le> N" "- N < 2 * y" "2 * y < N"
  shows "x = y"
proof -
  have "N dvd x - y" using assms(1) by (simp add: mod_eq_dvd_iff)
  then obtain k where k: "x - y = N * k" by (elim dvdE)
  have "k = 0"
  proof (rule ccontr)
    assume "k \<noteq> 0"
    then have "\<bar>N\<bar> * 1 \<le> \<bar>N\<bar> * \<bar>k\<bar>" by (intro mult_left_mono) auto
    then have "\<bar>N\<bar> \<le> \<bar>x - y\<bar>" by (simp add: k abs_mult)
    then show False using assms by linarith
  qed
  then show ?thesis using k by simp
qed


definition wrap_seq :: "'a::len word \<Rightarrow> int \<Rightarrow> 'a word" where
  "wrap_seq M x = word_of_int (x mod modulus M)"

definition unwrapper_ok :: "'a::len word \<Rightarrow> 'a word SeqNumUnwrapper \<Rightarrow> bool" where
  "unwrapper_ok M u \<longleftrightarrow>
     (case last_value u of
        None \<Rightarrow> True
      | Some v \<Rightarrow> in_range M v \<and> last_unwrapped u mod modulus M = uint v)"

definition unwrapper_pos :: "'a::len word SeqNumUnwrapper \<Rightarrow> int option" where
  "unwrapper_pos u = map_option (\<lambda>_. last_unwrapped u) (last_value u)"

lemma modulus_le: "modulus (M :: 'a::len word) \<le> 2 ^ LENGTH('a)"
proof (cases "M = 0")
  case False
  then show ?thesis using less_imp_le [OF uint_lt2p [of M]] by (simp only: modulus_def if_False)
qed (simp add: modulus_def)

lemma uint_wrap_seq: "uint (wrap_seq (M :: 'a::len word) x) = x mod modulus M"
proof -
  have "0 \<le> x mod modulus M" "x mod modulus M < modulus M"
    using modulus_pos [of M] by simp_all
  then have "x mod modulus M mod 2 ^ LENGTH('a) = x mod modulus M"
    using modulus_le [of M] by (intro mod_pos_pos_trivial) linarith+
  then show ?thesis by (simp add: wrap_seq_def uint_word_of_int)
qed

lemma in_range_wrap_seq: "in_range M (wrap_seq M x)"
proof (cases "M = 0")
  case False
  then have "x mod modulus M < uint M" using modulus_pos [of M] by (simp add: modulus_def)
  then show ?thesis by (simp add: in_range_def word_less_def uint_wrap_seq)
qed simp

lemma unwrapper_ok_init: "unwrapper_ok M SeqNumUnwrapper_init"
  by (simp add: unwrapper_ok_def SeqNumUnwrapper_init_def)

lemma Unwrap_ok:
  assumes L: "1 < LENGTH('a::len)" and ok: "unwrapper_ok M u" and r: "in_range M (v :: 'a word)"
  shows "unwrapper_ok M (snd (Unwrap M v u))"
proof (cases "last_value u")
  case None
  then show ?thesis
    using r in_range_uint [OF r] by (simp add: Unwrap_def unwrapper_ok_def Let_def)
next
  case (Some l)
  with ok have l: "in_range M l" "last_unwrapped u mod modulus M = uint l"
    by (simp_all add: unwrapper_ok_def)
  have "(last_unwrapped u + Delta M l v) mod modulus M = (uint l + (uint v - uint l)) mod modulus M"
    using Delta_cong [OF l(1) r L] l(2) by (metis mod_add_eq mod_mod_trivial)
  then show ?thesis
    using Some r in_range_uint [OF r] by (simp add: Unwrap_def unwrapper_ok_def Let_def)
qed

lemma Unwrap_pos: "unwrapper_pos (snd (Unwrap M v u)) = Some (fst (Unwrap M v u))"
  by (simp add: unwrapper_pos_def Unwrap_def Let_def)

lemma PeekUnwrap_Unwrap: "PeekUnwrap M v u = fst (Unwrap M v u)"
  by (simp add: PeekUnwrap_def Unwrap_def Let_def)

lemma Unwrap_first:
  assumes "unwrapper_pos u = None" and "0 \<le> x" and "x < modulus M"
  shows "fst (Unwrap M (wrap_seq M x) u) = x"
  using assms by (simp add: Unwrap_def unwrapper_pos_def uint_wrap_seq Let_def)

lemma Unwrap_next:
  assumes L: "1 < LENGTH('a::len)" and ok: "unwrapper_ok (M :: 'a word) u"
    and pos: "unwrapper_pos u = Some y" and near: "2 * \<bar>x - y\<bar> < modulus M"
  shows "fst (Unwrap M (wrap_seq M x) u) = x"
proof -
  from pos obtain l where l: "last_value u = Some l" "last_unwrapped u = y"
    by (auto simp: unwrapper_pos_def)
  with ok have r: "in_range M l" and y: "y mod modulus M = uint l"
    by (simp_all add: unwrapper_ok_def)
  let ?D = "Delta M l (wrap_seq M x)"
  have "?D mod modulus M = (x mod modulus M - y mod modulus M) mod modulus M"
    using Delta_cong [OF r in_range_wrap_seq L] by (simp add: uint_wrap_seq y)
  also have "\<dots> = (x - y) mod modulus M" by (rule mod_diff_eq)
  finally have c: "?D mod modulus M = (x - y) mod modulus M" .
  have "\<bar>2 * (x - y)\<bar> < modulus M" using near by (simp only: abs_mult abs_numeral)
  then have lo: "- modulus M < 2 * (x - y)" and hi: "2 * (x - y) < modulus M"
    unfolding abs_less_iff by linarith+
  have "?D = x - y"
    by (rule cong_small_eq [OF c Delta_bounds [OF r in_range_wrap_seq L] lo hi])
  then show ?thesis by (simp add: Unwrap_def l Let_def)
qed

section \<open>The contract of an unwrapper\<close>

primrec unwrap_run :: "('w \<Rightarrow> 's \<Rightarrow> int \<times> 's) \<Rightarrow> 'w list \<Rightarrow> 's \<Rightarrow> int list" where
  "unwrap_run unwrap [] s = []"
| "unwrap_run unwrap (w # ws) s = fst (unwrap w s) # unwrap_run unwrap ws (snd (unwrap w s))"

text \<open>
  What clients of an unwrapper rely on: fed the wrapped form of a value that is less than half
  the number space away from the previous one, it returns the value. The consequence for a
  whole stream is proved once, from the contract.
\<close>

locale seq_unwrapper =
  fixes unwrap :: "'w \<Rightarrow> 's \<Rightarrow> int \<times> 's"
    and wrap :: "int \<Rightarrow> 'w"
    and pos :: "'s \<Rightarrow> int option"
    and ok :: "'s \<Rightarrow> bool"
    and N :: int
  assumes first: "pos s = None \<Longrightarrow> 0 \<le> x \<Longrightarrow> x < N \<Longrightarrow> fst (unwrap (wrap x) s) = x"
    and step: "ok s \<Longrightarrow> pos s = Some y \<Longrightarrow> 2 * \<bar>x - y\<bar> < N \<Longrightarrow> fst (unwrap (wrap x) s) = x"
    and keeps: "ok s \<Longrightarrow> ok (snd (unwrap (wrap x) s))"
    and moves: "pos (snd (unwrap w s)) = Some (fst (unwrap w s))"
begin

lemma run_from:
  "ok s \<Longrightarrow> pos s = Some y \<Longrightarrow> successively (\<lambda>a b. 2 * \<bar>b - a\<bar> < N) (y # xs) \<Longrightarrow>
    unwrap_run unwrap (map wrap xs) s = xs"
proof (induction xs arbitrary: s y)
  case Nil
  then show ?case by simp
next
  case (Cons x xs)
  then have near: "2 * \<bar>x - y\<bar> < N" and rest: "successively (\<lambda>a b. 2 * \<bar>b - a\<bar> < N) (x # xs)"
    by simp_all
  have x: "fst (unwrap (wrap x) s) = x" using Cons.prems(1,2) near by (rule step)
  then have "pos (snd (unwrap (wrap x) s)) = Some x" by (simp add: moves)
  with Cons.IH [OF keeps [OF Cons.prems(1)] _ rest] x show ?case by simp
qed

lemma run_stream:
  assumes "ok s" and "pos s = None" and "0 \<le> hd xs" and "hd xs < N"
    and "successively (\<lambda>a b. 2 * \<bar>b - a\<bar> < N) xs"
  shows "unwrap_run unwrap (map wrap xs) s = xs"
proof (cases xs)
  case (Cons x ys)
  with assms have x: "fst (unwrap (wrap x) s) = x" by (simp add: first)
  then have "pos (snd (unwrap (wrap x) s)) = Some x" by (simp add: moves)
  with run_from [OF keeps [OF assms(1)] this] assms(5) Cons x show ?thesis by simp
qed simp

end

lemma wide_unwrapper:
  assumes "1 < LENGTH('a::len)"
  shows "seq_unwrapper (Unwrap (M :: 'a word)) (wrap_seq M) unwrapper_pos (unwrapper_ok M) (modulus M)"
  using Unwrap_first Unwrap_next [OF assms] Unwrap_ok [OF assms _ in_range_wrap_seq] Unwrap_pos
  by unfold_locales

interpretation seq16: seq_unwrapper "Unwrap (0 :: u16)" "wrap_seq 0" unwrapper_pos
  "unwrapper_ok 0" "modulus (0 :: u16)"
  by (rule wide_unwrapper) simp

interpretation seq32: seq_unwrapper "Unwrap (0 :: u32)" "wrap_seq 0" unwrapper_pos
  "unwrapper_ok 0" "modulus (0 :: u32)"
  by (rule wide_unwrapper) simp

end
