(* ===== verification/Units.thy ===== *)
theory Units
  imports Rtc_Prelude "HOL-Library.Signed_Division"
begin

text \<open>
  The typed quantities of \<open>rtc_base/units/unit_base.h\<close> and \<open>api/units\<close>: \<open>TimeDelta\<close> and
  \<open>Timestamp\<close> in microseconds, \<open>DataRate\<close> in bits per second, \<open>DataSize\<close> in bytes. Each
  holds one \<open>int64_t\<close>, whose two extreme values stand for plus and minus infinity. The model of
  a quantity is that value, as an \<open>int\<close>; the comparison operators are the ones of \<open>int\<close>.
  Signed overflow is undefined behaviour in C++: the operations compute in \<open>int\<close>, and
  \<open>fits_int64\<close> states the range in which they agree with the machine. C++ division truncates
  (\<open>sdiv\<close>, \<open>smod\<close>).
\<close>

section \<open>Rounding divisions\<close>

definition DivideRoundUp :: "int \<Rightarrow> int \<Rightarrow> int" where
  "DivideRoundUp dividend divisor =
     (let quotient = dividend sdiv divisor;
          remainder = dividend smod divisor
      in quotient + (if remainder > 0 then 1 else 0))"

definition DivideRoundToNearest :: "int \<Rightarrow> int \<Rightarrow> int" where
  "DivideRoundToNearest dividend divisor =
     (if dividend < 0 then
        let half_of_divisor = divisor sdiv 2;
            quotient = dividend sdiv divisor;
            remainder = dividend smod divisor
        in if - remainder > half_of_divisor then quotient - 1 else quotient
      else
        let half_of_divisor = (divisor - 1) sdiv 2;
            quotient = dividend sdiv divisor;
            remainder = dividend smod divisor
        in if remainder > half_of_divisor then quotient + 1 else quotient)"

section \<open>UnitBase\<close>

type_synonym unit_value = int
type_synonym TimeDelta = int
type_synonym Timestamp = int
type_synonym DataRate = int
type_synonym DataSize = int

definition PlusInfinity :: unit_value where
  "PlusInfinity = 2 ^ 63 - 1"

definition MinusInfinity :: unit_value where
  "MinusInfinity = - (2 ^ 63)"

definition IsPlusInfinity :: "unit_value \<Rightarrow> bool" where
  "IsPlusInfinity v \<longleftrightarrow> v = PlusInfinity"

definition IsMinusInfinity :: "unit_value \<Rightarrow> bool" where
  "IsMinusInfinity v \<longleftrightarrow> v = MinusInfinity"

definition IsInfinite :: "unit_value \<Rightarrow> bool" where
  "IsInfinite v \<longleftrightarrow> v = PlusInfinity \<or> v = MinusInfinity"

definition IsFinite :: "unit_value \<Rightarrow> bool" where
  "IsFinite v \<longleftrightarrow> \<not> IsInfinite v"

definition IsZero :: "unit_value \<Rightarrow> bool" where
  "IsZero v \<longleftrightarrow> v = 0"

definition RoundTo :: "unit_value \<Rightarrow> unit_value \<Rightarrow> unit_value" where
  "RoundTo v resolution = (v + resolution sdiv 2) sdiv resolution * resolution"

definition RoundUpTo :: "unit_value \<Rightarrow> unit_value \<Rightarrow> unit_value" where
  "RoundUpTo v resolution = (v + resolution - 1) sdiv resolution * resolution"

definition RoundDownTo :: "unit_value \<Rightarrow> unit_value \<Rightarrow> unit_value" where
  "RoundDownTo v resolution = v sdiv resolution * resolution"

definition FromFraction :: "int \<Rightarrow> int \<Rightarrow> unit_value" where
  "FromFraction denominator v = v * denominator"

definition ToValueOr :: "unit_value \<Rightarrow> int \<Rightarrow> int" where
  "ToValueOr v fallback_value = (if IsFinite v then v else fallback_value)"

definition ToFraction :: "int \<Rightarrow> unit_value \<Rightarrow> int" where
  "ToFraction Denominator v = DivideRoundToNearest v Denominator"

definition ToFractionOr :: "int \<Rightarrow> unit_value \<Rightarrow> int \<Rightarrow> int" where
  "ToFractionOr Denominator v fallback_value =
     (if IsFinite v then DivideRoundToNearest v Denominator else fallback_value)"

definition ToMultiple :: "int \<Rightarrow> unit_value \<Rightarrow> int" where
  "ToMultiple Factor v = v * Factor"

section \<open>RelativeUnit\<close>

definition Clamped :: "unit_value \<Rightarrow> unit_value \<Rightarrow> unit_value \<Rightarrow> unit_value" where
  "Clamped v min_value max_value = max min_value (min v max_value)"

definition unit_plus :: "unit_value \<Rightarrow> unit_value \<Rightarrow> unit_value" where
  "unit_plus a b =
     (if IsPlusInfinity a \<or> IsPlusInfinity b then PlusInfinity
      else if IsMinusInfinity a \<or> IsMinusInfinity b then MinusInfinity
      else a + b)"

definition unit_minus :: "unit_value \<Rightarrow> unit_value \<Rightarrow> unit_value" where
  "unit_minus a b =
     (if IsPlusInfinity a \<or> IsMinusInfinity b then PlusInfinity
      else if IsMinusInfinity a \<or> IsPlusInfinity b then MinusInfinity
      else a - b)"

definition unit_divide :: "unit_value \<Rightarrow> int \<Rightarrow> unit_value" where
  "unit_divide v scalar = v sdiv scalar"

definition unit_times :: "unit_value \<Rightarrow> int \<Rightarrow> unit_value" where
  "unit_times v scalar = v * scalar"

definition unit_uminus :: "unit_value \<Rightarrow> unit_value" where
  "unit_uminus v =
     (if IsPlusInfinity v then MinusInfinity
      else if IsMinusInfinity v then PlusInfinity
      else unit_times v (- 1))"

section \<open>TimeDelta and Timestamp\<close>

definition TimeDelta_Seconds :: "int \<Rightarrow> TimeDelta" where
  "TimeDelta_Seconds v = FromFraction 1000000 v"

definition TimeDelta_Minutes :: "int \<Rightarrow> TimeDelta" where
  "TimeDelta_Minutes v = TimeDelta_Seconds (v * 60)"

definition TimeDelta_Millis :: "int \<Rightarrow> TimeDelta" where
  "TimeDelta_Millis v = FromFraction 1000 v"

definition TimeDelta_Micros :: "int \<Rightarrow> TimeDelta" where
  "TimeDelta_Micros v = v"

definition TimeDelta_seconds :: "TimeDelta \<Rightarrow> int" where
  "TimeDelta_seconds v = ToFraction 1000000 v"

definition TimeDelta_ms :: "TimeDelta \<Rightarrow> int" where
  "TimeDelta_ms v = ToFraction 1000 v"

definition TimeDelta_Abs :: "TimeDelta \<Rightarrow> TimeDelta" where
  "TimeDelta_Abs v = (if v < 0 then TimeDelta_Micros (- v) else v)"

definition Timestamp_plus :: "Timestamp \<Rightarrow> TimeDelta \<Rightarrow> Timestamp" where
  "Timestamp_plus t delta =
     (if IsPlusInfinity t \<or> IsPlusInfinity delta then PlusInfinity
      else if IsMinusInfinity t \<or> IsMinusInfinity delta then MinusInfinity
      else t + delta)"

definition Timestamp_minus_delta :: "Timestamp \<Rightarrow> TimeDelta \<Rightarrow> Timestamp" where
  "Timestamp_minus_delta t delta =
     (if IsPlusInfinity t \<or> IsMinusInfinity delta then PlusInfinity
      else if IsMinusInfinity t \<or> IsPlusInfinity delta then MinusInfinity
      else t - delta)"

definition Timestamp_minus :: "Timestamp \<Rightarrow> Timestamp \<Rightarrow> TimeDelta" where
  "Timestamp_minus t other =
     (if IsPlusInfinity t \<or> IsMinusInfinity other then PlusInfinity
      else if IsMinusInfinity t \<or> IsPlusInfinity other then MinusInfinity
      else t - other)"

section \<open>DataRate and DataSize\<close>

definition Microbits :: "DataSize \<Rightarrow> int" where
  "Microbits sz = sz * 8000000"

definition MillibytePerSec :: "DataRate \<Rightarrow> int" where
  "MillibytePerSec rate = rate * (1000 sdiv 8)"

definition DataSize_per_TimeDelta :: "DataSize \<Rightarrow> TimeDelta \<Rightarrow> DataRate" where
  "DataSize_per_TimeDelta sz duration = Microbits sz sdiv duration"

definition DataSize_per_DataRate :: "DataSize \<Rightarrow> DataRate \<Rightarrow> TimeDelta" where
  "DataSize_per_DataRate sz rate = TimeDelta_Micros (Microbits sz sdiv rate)"

definition DataRate_times_TimeDelta :: "DataRate \<Rightarrow> TimeDelta \<Rightarrow> DataSize" where
  "DataRate_times_TimeDelta rate duration =
     (let microbits = rate * duration in (microbits + 4000000) sdiv 8000000)"

section \<open>Properties\<close>

definition fits_int64 :: "int \<Rightarrow> bool" where
  "fits_int64 v \<longleftrightarrow> MinusInfinity \<le> v \<and> v \<le> PlusInfinity"

lemmas infinity_defs = PlusInfinity_def MinusInfinity_def IsPlusInfinity_def IsMinusInfinity_def
  IsInfinite_def IsFinite_def

lemma sdiv_nonneg: "0 \<le> a \<Longrightarrow> 0 < b \<Longrightarrow> a sdiv b = a div (b :: int)"
  by (simp add: signed_divide_int_def sgn_if)

lemma smod_nonneg: "0 \<le> a \<Longrightarrow> 0 < b \<Longrightarrow> a smod b = a mod (b :: int)"
  by (cases "a = 0") (simp_all add: signed_modulo_int_def)

lemma sdiv_neg: "a < 0 \<Longrightarrow> 0 < b \<Longrightarrow> a sdiv b = - ((- a) div (b :: int))"
  by (simp add: signed_divide_int_def sgn_if)

lemma smod_neg: "a < 0 \<Longrightarrow> 0 < b \<Longrightarrow> a smod b = - ((- a) mod (b :: int))"
  using div_mult_mod_eq [of "- a" b] by (simp add: signed_modulo_int_def sdiv_neg)

lemma euclid:
  fixes a b :: int
  assumes "0 < b"
  obtains q r where "a div b = q" "a mod b = r" "a = q * b + r" "0 \<le> r" "r < b"
  using assms div_mult_mod_eq [of a b] by (metis pos_mod_bound pos_mod_sign)

lemma DivideRoundUp_ceiling:
  assumes "0 \<le> a" and b: "0 < b"
  shows "a \<le> DivideRoundUp a b * b" and "DivideRoundUp a b * b < a + b"
proof -
  obtain q r where qr: "a div b = q" "a mod b = r" "a = q * b + r" "0 \<le> r" "r < b"
    using euclid [OF b] by blast
  have "DivideRoundUp a b = q + (if r > 0 then 1 else 0)"
    using assms qr(1,2) by (simp add: DivideRoundUp_def Let_def sdiv_nonneg smod_nonneg)
  then have "DivideRoundUp a b * b = q * b + (if r > 0 then b else 0)"
    by (simp add: distrib_right)
  then show "a \<le> DivideRoundUp a b * b" "DivideRoundUp a b * b < a + b"
    using qr(3-5) by (auto split: if_splits)
qed

lemma div_eq_if_between: "0 < (b :: int) \<Longrightarrow> q * b \<le> a \<Longrightarrow> a < q * b + b \<Longrightarrow> a div b = q"
  by (rule int_div_pos_eq [of a b q "a - q * b"]) (auto simp: algebra_simps)

lemma DivideRoundToNearest_nearest:
  assumes b: "0 < b"
  shows "DivideRoundToNearest a b = (2 * a + b) div (2 * b)"
proof (cases "a < 0")
  case True
  obtain q r where qr: "(- a) div b = q" "(- a) mod b = r" "- a = q * b + r" "0 \<le> r" "r < b"
    using euclid [OF b] by blast
  have h: "b sdiv 2 = b div 2" using b by (simp add: sdiv_nonneg)
  have D: "DivideRoundToNearest a b = (if r > b div 2 then - q - 1 else - q)"
    using True b qr(1,2) by (simp add: DivideRoundToNearest_def Let_def sdiv_neg smod_neg h)
  have "2 * a + b = - q * (2 * b) + (b - 2 * r)" using qr(3) by linarith
  then show ?thesis unfolding D using b qr(4,5)
    by (intro div_eq_if_between [symmetric]) (auto simp: left_diff_distrib)
next
  case False
  obtain q r where qr: "a div b = q" "a mod b = r" "a = q * b + r" "0 \<le> r" "r < b"
    using euclid [OF b] by blast
  have h: "(b - 1) sdiv 2 = (b - 1) div 2" using b by (simp add: sdiv_nonneg)
  have D: "DivideRoundToNearest a b = (if r > (b - 1) div 2 then q + 1 else q)"
    using False b qr(1,2) by (simp add: DivideRoundToNearest_def Let_def sdiv_nonneg smod_nonneg h)
  have "2 * a + b = q * (2 * b) + (b + 2 * r)" using qr(3) by linarith
  then show ?thesis unfolding D using b qr(4,5)
    by (intro div_eq_if_between [symmetric]) (auto simp: distrib_right)
qed

lemma RoundUpTo_ceiling:
  assumes "0 \<le> v" and "0 < res"
  shows "v \<le> RoundUpTo v res" and "RoundUpTo v res < v + res" and "res dvd RoundUpTo v res"
proof -
  obtain q r where qr: "(v + res - 1) div res = q" "v + res - 1 = q * res + r" "0 \<le> r" "r < res"
    using euclid [OF assms(2)] by blast
  have "RoundUpTo v res = q * res"
    using assms qr(1) by (simp add: RoundUpTo_def sdiv_nonneg)
  then show "v \<le> RoundUpTo v res" "RoundUpTo v res < v + res" "res dvd RoundUpTo v res"
    using qr(2-4) by auto
qed

lemma unit_plus_finite: "IsFinite a \<Longrightarrow> IsFinite b \<Longrightarrow> unit_plus a b = a + b"
  by (simp add: unit_plus_def infinity_defs)

lemma unit_minus_finite: "IsFinite a \<Longrightarrow> IsFinite b \<Longrightarrow> unit_minus a b = a - b"
  by (simp add: unit_minus_def infinity_defs)

lemma Timestamp_plus_finite: "IsFinite a \<Longrightarrow> IsFinite b \<Longrightarrow> Timestamp_plus a b = a + b"
  by (simp add: Timestamp_plus_def infinity_defs)

lemma Timestamp_minus_finite: "IsFinite a \<Longrightarrow> IsFinite b \<Longrightarrow> Timestamp_minus a b = a - b"
  by (simp add: Timestamp_minus_def infinity_defs)

text \<open>Addition is commutative and monotone on the whole extended range, infinities included, as
  long as no finite sum leaves the \<open>int64_t\<close> range.\<close>

lemma unit_plus_comm: "unit_plus a b = unit_plus b a"
  by (auto simp: unit_plus_def)

lemma unit_plus_mono:
  assumes "a \<le> a'" and "fits_int64 (a + b)" "fits_int64 (a' + b)" and "fits_int64 a" "fits_int64 a'"
    and "\<not> (IsMinusInfinity a \<and> IsPlusInfinity b)"
  shows "unit_plus a b \<le> unit_plus a' b"
  using assms by (auto simp: unit_plus_def fits_int64_def infinity_defs)

lemma unit_uminus_involutive:
  "fits_int64 v \<Longrightarrow> v \<noteq> - PlusInfinity \<Longrightarrow> unit_uminus (unit_uminus v) = v"
  by (auto simp: unit_uminus_def unit_times_def fits_int64_def infinity_defs)

lemma Clamped_bounds: "lo \<le> hi \<Longrightarrow> lo \<le> Clamped v lo hi \<and> Clamped v lo hi \<le> hi"
  by (auto simp: Clamped_def)

end
