(* ===== verification/Rtcp_Header.thy ===== *)
theory Rtcp_Header
  imports Byte_IO
begin

text \<open>
  The part of \<open>modules/rtp_rtcp/source\<close> every RTCP packet class shares: \<open>CommonHeader\<close>
  (\<open>rtcp_packet/common_header.cc\<close>), the packet buffer protocol of \<open>RtcpPacket\<close>
  (\<open>rtcp_packet.cc\<close>), and the contract of a packet class.

  \<open>Create(packet, index, max_length, callback)\<close> appends a packet to a buffer that already holds
  \<open>*index\<close> bytes, and hands the buffer to the callback first when the packet does not fit. The
  state it works on is the record \<open>wbuf\<close>: the bytes \<open>packet[0..*index)\<close> and the packets handed to
  the callback so far. The answer of \<open>Create\<close> is the boolean beside the new state.

  A parsed header keeps the payload as the list of its \<open>payload_size_bytes()\<close> bytes, so a
  parser that reads past the payload, even inside the buffer, yields \<open>None\<close>.
\<close>

unbundle bit_operations_syntax

section \<open>CommonHeader\<close>

definition kHeaderSizeBytes :: nat where
  "kHeaderSizeBytes = 4"

text \<open>\<open>ch_payload\<close> holds the \<open>payload_size_\<close> bytes at \<open>payload_\<close>; \<open>ch_next\<close> is the buffer from
  \<open>NextPacket()\<close> on.\<close>

record CommonHeader =
  ch_packet_type :: u8
  ch_count_or_format :: u8
  ch_padding_size :: u8
  ch_payload :: bytes
  ch_next :: bytes

definition payload_size :: "CommonHeader \<Rightarrow> nat" where
  "payload_size h = length (ch_payload h)"

definition packet_size :: "CommonHeader \<Rightarrow> nat" where
  "packet_size h = kHeaderSizeBytes + payload_size h + unat (ch_padding_size h)"

definition CommonHeader_Parse :: "bytes \<Rightarrow> CommonHeader outcome option" where
  "CommonHeader_Parse buffer =
     (if length buffer < kHeaderSizeBytes then Some Rejected
      else do {
        b0 \<leftarrow> rd8 buffer 0;
        if drop_bit 6 b0 \<noteq> 2 then Some Rejected
        else do {
          let has_padding = (b0 AND 0x20 \<noteq> 0);
          type \<leftarrow> rd8 buffer 1;
          words \<leftarrow> rd16 buffer 2;
          let size = unat words * 4;
          let payload = drop kHeaderSizeBytes buffer;
          if length buffer < kHeaderSizeBytes + size then Some Rejected
          else if has_padding then
            if size = 0 then Some Rejected
            else do {
              padding \<leftarrow> rd8 payload (size - 1);
              if padding = 0 then Some Rejected
              else if unat padding > size then Some Rejected
              else Some (Accepted \<lparr>ch_packet_type = type, ch_count_or_format = b0 AND 0x1F,
                ch_padding_size = padding, ch_payload = take (size - unat padding) payload,
                ch_next = drop size payload\<rparr>)
            }
          else Some (Accepted \<lparr>ch_packet_type = type, ch_count_or_format = b0 AND 0x1F,
            ch_padding_size = 0, ch_payload = take size payload, ch_next = drop size payload\<rparr>)
        }
      })"

section \<open>RtcpPacket\<close>

record wbuf =
  w_bytes :: bytes
  w_ready :: "bytes list"

definition wbuf_init :: wbuf where
  "wbuf_init = \<lparr>w_bytes = [], w_ready = []\<rparr>"

definition put :: "bytes \<Rightarrow> wbuf \<Rightarrow> wbuf" where
  "put bs w = w\<lparr>w_bytes := w_bytes w @ bs\<rparr>"

definition OnBufferFull :: "wbuf \<Rightarrow> bool \<times> wbuf" where
  "OnBufferFull w =
     (if length (w_bytes w) = 0 then (False, w)
      else (True, w\<lparr>w_bytes := [], w_ready := w_ready w @ [w_bytes w]\<rparr>))"

text \<open>The loop \<open>while (*index + BlockLength() > max_length) if (!OnBufferFull(...)) return false;\<close>
  at the start of every \<open>Create\<close>.\<close>

function ensure_room :: "nat \<Rightarrow> nat \<Rightarrow> wbuf \<Rightarrow> bool \<times> wbuf" where
  "ensure_room len max_length w =
     (if length (w_bytes w) + len > max_length
      then let (ok, w') = OnBufferFull w
           in if ok then ensure_room len max_length w' else (False, w')
      else (True, w))"
  by auto
termination
  by (relation "measure (\<lambda>(len, m, w). length (w_bytes w))")
    (auto simp: OnBufferFull_def split: if_splits)

declare ensure_room.simps [simp del]

definition create_block :: "nat \<Rightarrow> bytes \<Rightarrow> nat \<Rightarrow> wbuf \<Rightarrow> bool \<times> wbuf" where
  "create_block len body max_length w =
     (let (ok, w') = ensure_room len max_length w
      in if ok then (True, put body w') else (False, w'))"

definition HeaderLength :: "nat \<Rightarrow> nat" where
  "HeaderLength block_length = (block_length - kHeaderSizeBytes) div 4"

definition CreateHeader_padded :: "nat \<Rightarrow> u8 \<Rightarrow> nat \<Rightarrow> bool \<Rightarrow> bytes" where
  "CreateHeader_padded count_or_format packet_type len padding =
     [0x80 OR (if padding then 0x20 else 0) OR of_nat count_or_format,
      packet_type,
      of_nat (drop_bit 8 len AND 0xff),
      of_nat (len AND 0xff)]"

definition CreateHeader :: "nat \<Rightarrow> u8 \<Rightarrow> nat \<Rightarrow> bytes" where
  "CreateHeader count_or_format packet_type len =
     CreateHeader_padded count_or_format packet_type len False"

text \<open>\<open>Build()\<close> with the class's \<open>BlockLength\<close> and \<open>Create\<close>: the bytes written into a buffer
  of exactly \<open>BlockLength()\<close> bytes; the answer of \<open>Create\<close> is only asserted there.
  \<open>Build(max_length, callback)\<close>, for a \<open>max_length\<close> of at most \<open>IP_PACKET_SIZE\<close>, answers with a
  boolean and the packets handed to the callback.\<close>

definition Build :: "nat \<Rightarrow> (nat \<Rightarrow> wbuf \<Rightarrow> bool \<times> wbuf) \<Rightarrow> bytes" where
  "Build block_length create = w_bytes (snd (create block_length wbuf_init))"

definition Build_callback :: "nat \<Rightarrow> (nat \<Rightarrow> wbuf \<Rightarrow> bool \<times> wbuf) \<Rightarrow> bool \<times> bytes list" where
  "Build_callback max_length create =
     (let (ok, w) = create max_length wbuf_init
      in if \<not> ok then (False, w_ready w)
         else let (ok', w') = OnBufferFull w in (ok', w_ready w'))"

section \<open>Properties of the header\<close>

lemma CommonHeader_Parse_safe: "safe (CommonHeader_Parse buffer)"
  unfolding CommonHeader_Parse_def kHeaderSizeBytes_def
  by (intro safe_intros) auto

lemma CommonHeader_Parse_layout:
  assumes "CommonHeader_Parse buffer = Some (Accepted h)"
  shows "length buffer = packet_size h + length (ch_next h)" and "ch_next h = drop (packet_size h) buffer"
  using assms
  by (auto simp: CommonHeader_Parse_def packet_size_def payload_size_def kHeaderSizeBytes_def Let_def
      bind_eq_Some_conv add.commute split: if_splits)

lemma CommonHeader_Parse_progress:
  "CommonHeader_Parse buffer = Some (Accepted h) \<Longrightarrow> length (ch_next h) < length buffer"
  using CommonHeader_Parse_layout [of buffer h] by (simp add: packet_size_def kHeaderSizeBytes_def)

lemma version_byte_table:
  "list_all (\<lambda>n. list_all (\<lambda>pad.
     (let b = (0x80 :: u8) OR (if pad then 0x20 else 0) OR of_nat n
      in drop_bit 6 b = 2 \<and> (b AND 0x20 \<noteq> 0) = pad \<and> b AND 0x1F = of_nat n)) [False, True]) [0..<32]"
  by code_simp

lemma version_byte:
  assumes "n < 32"
  shows "drop_bit 6 ((0x80 :: u8) OR (if pad then 0x20 else 0) OR of_nat n) = 2"
    and "((0x80 :: u8) OR (if pad then 0x20 else 0) OR of_nat n) AND 0x20 \<noteq> 0 \<longleftrightarrow> pad"
    and "((0x80 :: u8) OR (if pad then 0x20 else 0) OR of_nat n) AND 0x1F = of_nat n"
proof -
  have n: "n \<in> set [0..<32]" using assms by simp
  have pad: "pad \<in> set [False, True]" by simp
  note t = bspec [OF bspec [OF version_byte_table [unfolded list_all_iff] n] pad, unfolded Let_def]
  show "drop_bit 6 ((0x80 :: u8) OR (if pad then 0x20 else 0) OR of_nat n) = 2"
    "((0x80 :: u8) OR (if pad then 0x20 else 0) OR of_nat n) AND 0x20 \<noteq> 0 \<longleftrightarrow> pad"
    "((0x80 :: u8) OR (if pad then 0x20 else 0) OR of_nat n) AND 0x1F = of_nat n"
    using t by blast+
qed

lemma length_field:
  "[of_nat (drop_bit 8 n AND 0xff), of_nat (n AND 0xff)] = WriteBigEndian2 (of_nat n)"
proof -
  have m: "(0xff :: nat) = mask 8" by (simp add: mask_eq_exp_minus_1)
  have "(of_nat (drop_bit 8 n AND 0xff) :: u8) = ucast (drop_bit 8 (of_nat n :: u16))"
    unfolding m by (rule bit_word_eqI) (auto simp: bit_simps)
  moreover have "(of_nat (n AND 0xff) :: u8) = ucast (of_nat n :: u16)"
    unfolding m by (rule bit_word_eqI) (auto simp: bit_simps)
  ultimately show ?thesis by (simp add: WriteBigEndian2_def)
qed

lemma CreateHeader_padded_length [simp]: "length (CreateHeader_padded cf pt len pad) = 4"
  by (simp add: CreateHeader_padded_def)

lemma CreateHeader_length [simp]: "length (CreateHeader cf pt len) = 4"
  by (simp add: CreateHeader_def)

text \<open>Reading back a header that was written, without and with padding.\<close>

lemma CommonHeader_Parse_padded:
  assumes "cf < 32" and n: "length body = 4 * len" "len < 65536"
    and pad: "pad \<longrightarrow> body \<noteq> [] \<and> last body \<noteq> 0 \<and> unat (last body) \<le> length body"
  shows "CommonHeader_Parse (CreateHeader_padded cf pt len pad @ body @ rest) =
     Some (Accepted \<lparr>ch_packet_type = pt, ch_count_or_format = of_nat cf,
       ch_padding_size = (if pad then last body else 0),
       ch_payload = (if pad then take (length body - unat (last body)) body else body),
       ch_next = rest\<rparr>)"
proof -
  define b0 :: u8 where "b0 = 0x80 OR (if pad then 0x20 else 0) OR of_nat cf"
  have b0: "drop_bit 6 b0 = 2" "b0 AND 0x20 \<noteq> 0 \<longleftrightarrow> pad" "b0 AND 0x1F = of_nat cf"
    unfolding b0_def by (rule version_byte [OF assms(1)])+
  have hdr: "CreateHeader_padded cf pt len pad = b0 # pt # WriteBigEndian2 (of_nat len)"
    by (simp only: CreateHeader_padded_def length_field b0_def)
  have u: "unat (of_nat len :: u16) = len" using n(2) by (rule unat_of_nat_u16)
  have d: "drop 4 (b0 # pt # WriteBigEndian2 (of_nat len) @ body @ rest) = body @ rest"
    by (simp add: WriteBigEndian2_def)
  have l: "rd8 (body @ rest) (len * 4 - 1) = Some (last body)" if "body \<noteq> []"
  proof -
    have "0 < len" "len * 4 - 1 < length body" using that n(1) by (cases len; simp)+
    then show ?thesis
      using n(1) that
      by (simp add: rd8_def rd_at_def ReadBigEndian1_def hd_drop_conv_nth nth_append last_conv_nth mult.commute)
  qed
  show ?thesis
  proof (cases pad)
    case True
    with pad n(1) have "0 < len" "unat (last body) \<le> len * 4" by (cases len; simp)+
    then show ?thesis
      unfolding hdr using True pad n(1)
      by (simp add: CommonHeader_Parse_def kHeaderSizeBytes_def b0 wire_simps u d l [unfolded One_nat_def] mult.commute)
  next
    case False
    then show ?thesis
      unfolding hdr using n(1) by (simp add: CommonHeader_Parse_def kHeaderSizeBytes_def b0 wire_simps u d)
  qed
qed

lemma CommonHeader_Parse_created:
  assumes "cf < 32" and "length body = 4 * len" "len < 65536"
  shows "CommonHeader_Parse (CreateHeader cf pt len @ body @ rest) =
     Some (Accepted \<lparr>ch_packet_type = pt, ch_count_or_format = of_nat cf,
       ch_padding_size = 0, ch_payload = body, ch_next = rest\<rparr>)"
  using CommonHeader_Parse_padded [OF assms, of False pt rest] by (simp add: CreateHeader_def)

text \<open>The form in which the packet classes use it: one block with a payload of whole words.\<close>

lemma CommonHeader_Parse_block:
  assumes "cf < 32" and "4 dvd length body" and "length body < 4 * 65536" and "n = 4 + length body"
  shows "CommonHeader_Parse ((CreateHeader cf pt (HeaderLength n) @ body) @ rest) =
     Some (Accepted \<lparr>ch_packet_type = pt, ch_count_or_format = of_nat cf,
       ch_padding_size = 0, ch_payload = body, ch_next = rest\<rparr>)"
  using CommonHeader_Parse_created [of cf body "length body div 4" pt rest] assms
  by (auto simp: HeaderLength_def kHeaderSizeBytes_def)

section \<open>Properties of the packet buffer\<close>

text \<open>All bytes written so far, in order, whether already handed over or not.\<close>

definition written :: "wbuf \<Rightarrow> bytes" where
  "written w = concat (w_ready w) @ w_bytes w"

definition wbuf_fits :: "nat \<Rightarrow> wbuf \<Rightarrow> bool" where
  "wbuf_fits max_length w \<longleftrightarrow>
     length (w_bytes w) \<le> max_length \<and> (\<forall>b \<in> set (w_ready w). b \<noteq> [] \<and> length b \<le> max_length)"

lemma wbuf_init_simps [simp]: "written wbuf_init = []" "wbuf_fits m wbuf_init" "w_bytes wbuf_init = []"
  "w_ready wbuf_init = []"
  by (simp_all add: wbuf_init_def written_def wbuf_fits_def)

lemma OnBufferFull_props:
  assumes "OnBufferFull w = (ok, w')"
  shows "written w' = written w" and "wbuf_fits m w \<Longrightarrow> wbuf_fits m w'" and "ok \<longleftrightarrow> w_bytes w \<noteq> []"
    and "w_bytes w' = []"
  using assms by (auto simp: OnBufferFull_def written_def wbuf_fits_def split: if_splits)

lemma ensure_room_eq:
  "ensure_room len m w =
     (if length (w_bytes w) + len \<le> m then (True, w)
      else if w_bytes w = [] then (False, w)
      else (len \<le> m, snd (OnBufferFull w)))"
proof (cases "length (w_bytes w) + len \<le> m \<or> w_bytes w = []")
  case True
  then show ?thesis by (subst ensure_room.simps) (auto simp: OnBufferFull_def)
next
  case False
  then have "ensure_room len m w = ensure_room len m (snd (OnBufferFull w))"
    by (subst ensure_room.simps) (auto simp: OnBufferFull_def)
  also have "\<dots> = (len \<le> m, snd (OnBufferFull w))"
    using False by (subst ensure_room.simps) (auto simp: OnBufferFull_def)
  finally show ?thesis using False by simp
qed

lemma ensure_room_props:
  assumes "ensure_room len m w = (ok, w')"
  shows "written w' = written w" and "wbuf_fits m w \<Longrightarrow> wbuf_fits m w'"
    and "ok \<longleftrightarrow> len \<le> m \<or> length (w_bytes w) + len \<le> m"
    and "ok \<Longrightarrow> length (w_bytes w') + len \<le> m"
  using assms unfolding ensure_room_eq OnBufferFull_def written_def wbuf_fits_def
  by (auto split: if_splits)

lemma create_block_props:
  assumes "create_block len body m w = (ok, w')" and "length body = len" and "wbuf_fits m w"
  shows "ok \<longleftrightarrow> len \<le> m" and "wbuf_fits m w'" and "written w' = written w @ (if ok then body else [])"
proof -
  obtain r v where rv: "ensure_room len m w = (r, v)" by fastforce
  note e = ensure_room_props [OF rv]
  have c: "ok = r" "w' = (if r then put body v else v)"
    using assms(1) rv by (auto simp: create_block_def split: if_splits)
  show "ok \<longleftrightarrow> len \<le> m" using c(1) e(3) by auto
  show "wbuf_fits m w'"
    using e(2) [OF assms(3)] e(4) c(2) assms(2) by (auto simp: wbuf_fits_def put_def)
  show "written w' = written w @ (if ok then body else [])"
    using e(1) c by (auto simp: written_def put_def)
qed

lemma create_block_fresh:
  "length body \<le> m \<Longrightarrow> create_block (length body) body m wbuf_init = (True, put body wbuf_init)"
  by (simp add: create_block_def ensure_room_eq)

section \<open>The contract of a packet class\<close>

text \<open>
  What the senders and the receiver rely on in a packet class: \<open>BlockLength\<close> predicts the number
  of bytes \<open>Create\<close> writes, those bytes are one block that the common header delimits exactly,
  and parsing the block gives the packet back. \<open>canon\<close> is what survives the wire; it is the
  identity for the classes whose fields are transmitted exactly. No block whatsoever makes the
  parser leave its payload.
\<close>

definition parse_block :: "(CommonHeader \<Rightarrow> 'p outcome option) \<Rightarrow> bytes \<Rightarrow> ('p \<times> bytes) outcome option" where
  "parse_block Parse buffer = do {
     r \<leftarrow> CommonHeader_Parse buffer;
     case r of
       Rejected \<Rightarrow> Some Rejected
     | Accepted h \<Rightarrow> do {
         q \<leftarrow> Parse h;
         case q of
           Rejected \<Rightarrow> Some Rejected
         | Accepted p \<Rightarrow> Some (Accepted (p, ch_next h))
       }
   }"

locale rtcp_codec =
  fixes BlockLength :: "'p \<Rightarrow> nat"
    and body :: "'p \<Rightarrow> bytes"
    and Parse :: "CommonHeader \<Rightarrow> 'p outcome option"
    and ptype :: u8
    and valid :: "'p \<Rightarrow> bool"
    and canon :: "'p \<Rightarrow> 'p"
  assumes body_length: "valid p \<Longrightarrow> length (body p) = BlockLength p"
    and header: "valid p \<Longrightarrow> \<exists>h. CommonHeader_Parse (body p @ rest) = Some (Accepted h) \<and>
      ch_packet_type h = ptype \<and> ch_next h = rest \<and> Parse h = Some (Accepted (canon p))"
    and safe_Parse: "safe (Parse h)"
begin

lemma parse_block_body: "valid p \<Longrightarrow> parse_block Parse (body p @ rest) = Some (Accepted (canon p, rest))"
  using header [of p rest] by (auto simp: parse_block_def)

lemma safe_parse_block: "safe (parse_block Parse buffer)"
  unfolding parse_block_def
  by (intro safe_bind safe_intros CommonHeader_Parse_safe safe_Parse)

lemma create_appends:
  assumes "valid p" and "wbuf_fits m w" and "create_block (BlockLength p) (body p) m w = (ok, w')"
  shows "ok \<longleftrightarrow> BlockLength p \<le> m" and "wbuf_fits m w'"
    and "written w' = written w @ (if ok then body p else [])"
  using create_block_props [OF assms(3) body_length [OF assms(1)] assms(2)] by blast+

lemma Build_roundtrip:
  assumes "valid p"
  shows "length (Build (BlockLength p) (create_block (BlockLength p) (body p))) = BlockLength p"
    and "parse_block Parse (Build (BlockLength p) (create_block (BlockLength p) (body p))) =
      Some (Accepted (canon p, []))"
proof -
  have "Build (BlockLength p) (create_block (BlockLength p) (body p)) = body p"
    using body_length [OF assms] create_block_fresh [of "body p" "BlockLength p"]
    by (simp add: Build_def put_def)
  then show "length (Build (BlockLength p) (create_block (BlockLength p) (body p))) = BlockLength p"
    "parse_block Parse (Build (BlockLength p) (create_block (BlockLength p) (body p))) =
      Some (Accepted (canon p, []))"
    using body_length [OF assms] parse_block_body [OF assms, of "[]"] by simp_all
qed

lemma Build_callback_single:
  assumes "valid p" and "BlockLength p \<le> m" and "body p \<noteq> []"
  shows "Build_callback m (create_block (BlockLength p) (body p)) = (True, [body p])"
  using assms body_length [OF assms(1)] create_block_fresh [of "body p" m]
  by (simp add: Build_callback_def put_def OnBufferFull_def)

end

text \<open>The laws for a class that writes one header and one payload of whole words behind it.\<close>

lemma rtcp_codec_block:
  assumes body: "\<And>p. valid p \<Longrightarrow> body p = CreateHeader (cf p) pt (HeaderLength (BL p)) @ payload p"
    and len: "\<And>p. valid p \<Longrightarrow> BL p = 4 + length (payload p)"
    and range: "\<And>p. valid p \<Longrightarrow> cf p < 32 \<and> 4 dvd length (payload p) \<and> length (payload p) < 4 * 65536"
    and parse: "\<And>p rest. valid p \<Longrightarrow> Parse \<lparr>ch_packet_type = pt, ch_count_or_format = of_nat (cf p),
       ch_padding_size = 0, ch_payload = payload p, ch_next = rest\<rparr> = Some (Accepted (canon p))"
    and safe: "\<And>h. safe (Parse h)"
  shows "rtcp_codec BL body Parse pt valid canon"
proof
  fix p rest h
  show "safe (Parse h)" by (rule safe)
  assume v: "valid p"
  show "length (body p) = BL p" using body [OF v] len [OF v] by simp
  show "\<exists>h. CommonHeader_Parse (body p @ rest) = Some (Accepted h) \<and>
      ch_packet_type h = pt \<and> ch_next h = rest \<and> Parse h = Some (Accepted (canon p))"
    using CommonHeader_Parse_block [OF _ _ _ len [OF v], of "cf p" pt rest] range [OF v] parse [OF v]
    unfolding body [OF v] by auto
qed

end
