(* ===== verification/Rtcp_Feedback.thy ===== *)
theory Rtcp_Feedback
  imports Rtcp_Header
begin

text \<open>
  The RTCP feedback messages of fixed layout (\<open>rtcp_packet/rtpfb.cc\<close>, \<open>psfb.cc\<close>, \<open>pli.cc\<close>,
  \<open>rapid_resync_request.cc\<close>, \<open>fir.cc\<close>, \<open>loss_notification.cc\<close>), each an instance of the packet
  contract \<open>rtcp_codec\<close>. The class hierarchy is kept as record extension. For each class,
  \<open>..._body\<close> is what \<open>Create\<close> writes once there is room, and \<open>..._Create\<close> the whole of it.
\<close>

unbundle bit_operations_syntax

section \<open>Rtpfb and Psfb\<close>

record RtcpPacket =
  sender_ssrc :: u32

record Feedback = RtcpPacket +
  media_ssrc :: u32

definition kCommonFeedbackLength :: nat where
  "kCommonFeedbackLength = 8"

definition Rtpfb_kPacketType :: u8 where
  "Rtpfb_kPacketType = 205"

definition Psfb_kPacketType :: u8 where
  "Psfb_kPacketType = 206"

definition kAfbMessageType :: nat where
  "kAfbMessageType = 15"

lemmas feedback_consts = kCommonFeedbackLength_def Rtpfb_kPacketType_def Psfb_kPacketType_def
  kAfbMessageType_def kHeaderSizeBytes_def

definition Rtpfb_ParseCommonFeedback :: "bytes \<Rightarrow> Feedback option" where
  "Rtpfb_ParseCommonFeedback payload = do {
     s \<leftarrow> rd32 payload 0;
     m \<leftarrow> rd32 payload 4;
     Some \<lparr>sender_ssrc = s, media_ssrc = m\<rparr>
   }"

definition Rtpfb_CreateCommonFeedback :: "'a Feedback_scheme \<Rightarrow> bytes" where
  "Rtpfb_CreateCommonFeedback p = WriteBigEndian4 (sender_ssrc p) @ WriteBigEndian4 (media_ssrc p)"

definition Psfb_ParseCommonFeedback :: "bytes \<Rightarrow> Feedback option" where
  "Psfb_ParseCommonFeedback payload = do {
     s \<leftarrow> rd32 payload 0;
     m \<leftarrow> rd32 payload 4;
     Some \<lparr>sender_ssrc = s, media_ssrc = m\<rparr>
   }"

definition Psfb_CreateCommonFeedback :: "'a Feedback_scheme \<Rightarrow> bytes" where
  "Psfb_CreateCommonFeedback p = WriteBigEndian4 (sender_ssrc p) @ WriteBigEndian4 (media_ssrc p)"

lemma CommonFeedback_length [simp]:
  "length (Rtpfb_CreateCommonFeedback p) = 8" "length (Psfb_CreateCommonFeedback p) = 8"
  by (simp_all add: Rtpfb_CreateCommonFeedback_def Psfb_CreateCommonFeedback_def)

lemma ParseCommonFeedback_written [wire_simps]:
  "Rtpfb_ParseCommonFeedback (Rtpfb_CreateCommonFeedback p @ rest) =
     Some \<lparr>sender_ssrc = sender_ssrc p, media_ssrc = media_ssrc p\<rparr>"
  "Psfb_ParseCommonFeedback (Psfb_CreateCommonFeedback p @ rest) =
     Some \<lparr>sender_ssrc = sender_ssrc p, media_ssrc = media_ssrc p\<rparr>"
  by (simp_all add: Rtpfb_ParseCommonFeedback_def Rtpfb_CreateCommonFeedback_def
      Psfb_ParseCommonFeedback_def Psfb_CreateCommonFeedback_def wire_simps)

lemma safe_ParseCommonFeedback [safe_intros]:
  "8 \<le> length p \<Longrightarrow> safe (Rtpfb_ParseCommonFeedback p)"
  "8 \<le> length p \<Longrightarrow> safe (Psfb_ParseCommonFeedback p)"
  unfolding Rtpfb_ParseCommonFeedback_def Psfb_ParseCommonFeedback_def
  by (intro safe_intros; simp)+

lemma safe_bind_ParseCommonFeedback [safe_intros]:
  "8 \<le> length p \<Longrightarrow> (\<And>x. safe (f x)) \<Longrightarrow> safe (Option.bind (Rtpfb_ParseCommonFeedback p) f)"
  "8 \<le> length p \<Longrightarrow> (\<And>x. safe (f x)) \<Longrightarrow> safe (Option.bind (Psfb_ParseCommonFeedback p) f)"
  by (auto intro!: safe_bind safe_intros)

section \<open>Pli\<close>

type_synonym Pli = Feedback

definition Pli_kFeedbackMessageType :: nat where
  "Pli_kFeedbackMessageType = 1"

definition Pli_Parse :: "CommonHeader \<Rightarrow> Pli outcome option" where
  "Pli_Parse packet =
     (if payload_size packet < kCommonFeedbackLength then Some Rejected
      else do {
        fb \<leftarrow> Psfb_ParseCommonFeedback (ch_payload packet);
        Some (Accepted fb)
      })"

definition Pli_BlockLength :: "Pli \<Rightarrow> nat" where
  "Pli_BlockLength p = kHeaderSizeBytes + kCommonFeedbackLength"

definition Pli_payload :: "Pli \<Rightarrow> bytes" where
  "Pli_payload p = Psfb_CreateCommonFeedback p"

definition Pli_body :: "Pli \<Rightarrow> bytes" where
  "Pli_body p = CreateHeader Pli_kFeedbackMessageType Psfb_kPacketType (HeaderLength (Pli_BlockLength p)) @
     Pli_payload p"

definition Pli_Create :: "Pli \<Rightarrow> nat \<Rightarrow> wbuf \<Rightarrow> bool \<times> wbuf" where
  "Pli_Create p = create_block (Pli_BlockLength p) (Pli_body p)"

lemma Pli_Parse_safe: "safe (Pli_Parse h)"
  unfolding Pli_Parse_def payload_size_def feedback_consts by (intro safe_intros) simp

interpretation pli: rtcp_codec Pli_BlockLength Pli_body Pli_Parse Psfb_kPacketType "\<lambda>_. True" id
proof (rule rtcp_codec_block [OF Pli_body_def _ _ _ Pli_Parse_safe])
  fix p :: Pli and rest
  show "Pli_Parse \<lparr>ch_packet_type = Psfb_kPacketType, ch_count_or_format = of_nat Pli_kFeedbackMessageType,
      ch_padding_size = 0, ch_payload = Pli_payload p, ch_next = rest\<rparr> = Some (Accepted (id p))"
    using ParseCommonFeedback_written(2) [of p "[]"]
    by (simp add: Pli_Parse_def Pli_payload_def payload_size_def feedback_consts)
qed (simp_all add: Pli_BlockLength_def Pli_payload_def Pli_kFeedbackMessageType_def feedback_consts)

section \<open>RapidResyncRequest\<close>

type_synonym RapidResyncRequest = Feedback

definition RapidResyncRequest_kFeedbackMessageType :: nat where
  "RapidResyncRequest_kFeedbackMessageType = 5"

definition RapidResyncRequest_Parse :: "CommonHeader \<Rightarrow> RapidResyncRequest outcome option" where
  "RapidResyncRequest_Parse packet =
     (if payload_size packet \<noteq> kCommonFeedbackLength then Some Rejected
      else do {
        fb \<leftarrow> Rtpfb_ParseCommonFeedback (ch_payload packet);
        Some (Accepted fb)
      })"

definition RapidResyncRequest_BlockLength :: "RapidResyncRequest \<Rightarrow> nat" where
  "RapidResyncRequest_BlockLength p = kHeaderSizeBytes + kCommonFeedbackLength"

definition RapidResyncRequest_payload :: "RapidResyncRequest \<Rightarrow> bytes" where
  "RapidResyncRequest_payload p = Rtpfb_CreateCommonFeedback p"

definition RapidResyncRequest_body :: "RapidResyncRequest \<Rightarrow> bytes" where
  "RapidResyncRequest_body p =
     CreateHeader RapidResyncRequest_kFeedbackMessageType Rtpfb_kPacketType
       (HeaderLength (RapidResyncRequest_BlockLength p)) @
     RapidResyncRequest_payload p"

definition RapidResyncRequest_Create :: "RapidResyncRequest \<Rightarrow> nat \<Rightarrow> wbuf \<Rightarrow> bool \<times> wbuf" where
  "RapidResyncRequest_Create p = create_block (RapidResyncRequest_BlockLength p) (RapidResyncRequest_body p)"

lemmas rrr_defs = RapidResyncRequest_BlockLength_def RapidResyncRequest_payload_def
  RapidResyncRequest_kFeedbackMessageType_def

lemma RapidResyncRequest_Parse_safe: "safe (RapidResyncRequest_Parse h)"
  unfolding RapidResyncRequest_Parse_def payload_size_def feedback_consts by (intro safe_intros) simp

interpretation rrr: rtcp_codec RapidResyncRequest_BlockLength RapidResyncRequest_body
  RapidResyncRequest_Parse Rtpfb_kPacketType "\<lambda>_. True" id
proof (rule rtcp_codec_block [OF RapidResyncRequest_body_def _ _ _ RapidResyncRequest_Parse_safe])
  fix p :: RapidResyncRequest and rest
  show "RapidResyncRequest_Parse \<lparr>ch_packet_type = Rtpfb_kPacketType,
      ch_count_or_format = of_nat RapidResyncRequest_kFeedbackMessageType,
      ch_padding_size = 0, ch_payload = RapidResyncRequest_payload p, ch_next = rest\<rparr> =
      Some (Accepted (id p))"
    using ParseCommonFeedback_written(1) [of p "[]"]
    by (simp add: RapidResyncRequest_Parse_def rrr_defs payload_size_def feedback_consts)
qed (simp_all add: rrr_defs feedback_consts)

section \<open>Fir\<close>

record Fir_Request =
  fir_ssrc :: u32
  fir_seq_nr :: u8

record Fir = Feedback +
  fir_items :: "Fir_Request list"

definition Fir_kFeedbackMessageType :: nat where
  "Fir_kFeedbackMessageType = 4"

definition Fir_kFciLength :: nat where
  "Fir_kFciLength = 8"

definition Fir_AddRequestTo :: "u32 \<Rightarrow> u8 \<Rightarrow> Fir \<Rightarrow> Fir" where
  "Fir_AddRequestTo ssrc seq_num p =
     p\<lparr>fir_items := fir_items p @ [\<lparr>fir_ssrc = ssrc, fir_seq_nr = seq_num\<rparr>]\<rparr>"

definition rd_fir_request :: "bytes \<Rightarrow> nat \<Rightarrow> Fir_Request option" where
  "rd_fir_request p off = do {
     ssrc \<leftarrow> rd32 p off;
     seq_nr \<leftarrow> rd8 p (off + 4);
     Some \<lparr>fir_ssrc = ssrc, fir_seq_nr = seq_nr\<rparr>
   }"

definition Fir_Parse :: "CommonHeader \<Rightarrow> Fir outcome option" where
  "Fir_Parse packet =
     (if payload_size packet < kCommonFeedbackLength + Fir_kFciLength then Some Rejected
      else if (payload_size packet - kCommonFeedbackLength) mod Fir_kFciLength \<noteq> 0 then Some Rejected
      else do {
        fb \<leftarrow> Psfb_ParseCommonFeedback (ch_payload packet);
        let number_of_fci_items = (payload_size packet - kCommonFeedbackLength) div Fir_kFciLength;
        items \<leftarrow> rd_items Fir_kFciLength rd_fir_request (ch_payload packet) kCommonFeedbackLength
          number_of_fci_items;
        Some (Accepted (Feedback.extend fb (Fir.fields items)))
      })"

definition Fir_BlockLength :: "Fir \<Rightarrow> nat" where
  "Fir_BlockLength p = kHeaderSizeBytes + kCommonFeedbackLength + Fir_kFciLength * length (fir_items p)"

definition fir_request_bytes :: "Fir_Request \<Rightarrow> bytes" where
  "fir_request_bytes r =
     WriteBigEndian4 (fir_ssrc r) @ WriteBigEndian1 (fir_seq_nr r) @ WriteBigEndian 3 (0 :: u32)"

definition Fir_payload :: "Fir \<Rightarrow> bytes" where
  "Fir_payload p = Psfb_CreateCommonFeedback p @ concat (map fir_request_bytes (fir_items p))"

definition Fir_body :: "Fir \<Rightarrow> bytes" where
  "Fir_body p = CreateHeader Fir_kFeedbackMessageType Psfb_kPacketType (HeaderLength (Fir_BlockLength p)) @
     Fir_payload p"

definition Fir_Create :: "Fir \<Rightarrow> nat \<Rightarrow> wbuf \<Rightarrow> bool \<times> wbuf" where
  "Fir_Create p = create_block (Fir_BlockLength p) (Fir_body p)"

definition Fir_valid :: "Fir \<Rightarrow> bool" where
  "Fir_valid p \<longleftrightarrow> fir_items p \<noteq> [] \<and> length (fir_items p) < 32767"

lemmas fir_defs = Fir_kFeedbackMessageType_def Fir_kFciLength_def feedback_consts

lemma fir_request_bytes_length [simp]: "length (fir_request_bytes r) = 8"
  by (simp add: fir_request_bytes_def)

lemma rd_fir_request_written:
  "rd_fir_request (pre @ fir_request_bytes r @ post) (length pre) = Some r"
  by (simp add: rd_fir_request_def fir_request_bytes_def WriteBigEndian1_def wire_simps)

lemma Fir_payload_length: "length (Fir_payload p) = 8 + 8 * length (fir_items p)"
  by (simp add: Fir_payload_def length_concat_uniform)

lemma Fir_Parse_safe: "safe (Fir_Parse h)"
  unfolding Fir_Parse_def payload_size_def fir_defs rd_fir_request_def
  by (intro safe_intros safe_bind safe_rd_items) (auto simp: less_eq_div_iff_mult_less_eq)

interpretation fir: rtcp_codec Fir_BlockLength Fir_body Fir_Parse Psfb_kPacketType Fir_valid id
proof (rule rtcp_codec_block [OF Fir_body_def _ _ _ Fir_Parse_safe])
  fix p :: Fir and rest
  assume "Fir_valid p"
  then have ne: "0 < length (fir_items p)" by (simp add: Fir_valid_def)
  have fb: "Psfb_ParseCommonFeedback (Fir_payload p) =
      Some \<lparr>sender_ssrc = sender_ssrc p, media_ssrc = media_ssrc p\<rparr>"
    by (simp add: Fir_payload_def wire_simps)
  have items: "rd_items 8 rd_fir_request (Fir_payload p) 8 (length (fir_items p)) = Some (fir_items p)"
    using rd_items_written [where rd = rd_fir_request and w = fir_request_bytes and f = id and len = 8
        and xs = "fir_items p" and pre = "Psfb_CreateCommonFeedback p" and post = "[]"]
    by (simp add: rd_fir_request_written Fir_payload_def)
  show "Fir_Parse \<lparr>ch_packet_type = Psfb_kPacketType, ch_count_or_format = of_nat Fir_kFeedbackMessageType,
      ch_padding_size = 0, ch_payload = Fir_payload p, ch_next = rest\<rparr> = Some (Accepted (id p))"
    using ne by (simp add: Fir_Parse_def payload_size_def fir_defs Fir_payload_length fb items
        Fir.defs Feedback.defs)
qed (auto simp: Fir_payload_length Fir_BlockLength_def Fir_valid_def fir_defs)

section \<open>LossNotification\<close>

record LossNotification = Feedback +
  last_decoded :: u16
  last_received :: u16
  decodability_flag :: bool

definition LossNotification_kUniqueIdentifier :: u32 where
  "LossNotification_kUniqueIdentifier = 0x4C4E5446"

definition kLossNotificationPayloadLength :: nat where
  "kLossNotificationPayloadLength = 8"

lemmas lntf_consts = LossNotification_kUniqueIdentifier_def kLossNotificationPayloadLength_def feedback_consts

definition LossNotification_Set :: "u16 \<Rightarrow> u16 \<Rightarrow> bool \<Rightarrow> LossNotification \<Rightarrow> bool \<times> LossNotification" where
  "LossNotification_Set decoded received flag p =
     (let delta = received - decoded
      in if delta > 0x7fff then (False, p)
         else (True, p\<lparr>last_received := received, last_decoded := decoded, decodability_flag := flag\<rparr>))"

definition LossNotification_BlockLength :: "LossNotification \<Rightarrow> nat" where
  "LossNotification_BlockLength p =
     kHeaderSizeBytes + kCommonFeedbackLength + kLossNotificationPayloadLength"

definition LossNotification_payload :: "LossNotification \<Rightarrow> bytes" where
  "LossNotification_payload p =
     (let last_received_delta = last_received p - last_decoded p;
          last_received_delta_and_decodability =
            push_bit 1 last_received_delta OR (if decodability_flag p then 1 else 0)
      in Psfb_CreateCommonFeedback p @
         WriteBigEndian4 LossNotification_kUniqueIdentifier @
         WriteBigEndian2 (last_decoded p) @
         WriteBigEndian2 last_received_delta_and_decodability)"

definition LossNotification_body :: "LossNotification \<Rightarrow> bytes" where
  "LossNotification_body p =
     CreateHeader kAfbMessageType Psfb_kPacketType (HeaderLength (LossNotification_BlockLength p)) @
     LossNotification_payload p"

definition LossNotification_Create :: "LossNotification \<Rightarrow> nat \<Rightarrow> wbuf \<Rightarrow> bool \<times> wbuf" where
  "LossNotification_Create p = create_block (LossNotification_BlockLength p) (LossNotification_body p)"

definition LossNotification_Parse :: "CommonHeader \<Rightarrow> LossNotification outcome option" where
  "LossNotification_Parse packet =
     (if payload_size packet < kCommonFeedbackLength + kLossNotificationPayloadLength then Some Rejected
      else do {
        uid \<leftarrow> rd32 (ch_payload packet) 8;
        if uid \<noteq> LossNotification_kUniqueIdentifier then Some Rejected
        else do {
          fb \<leftarrow> Psfb_ParseCommonFeedback (ch_payload packet);
          decoded \<leftarrow> rd16 (ch_payload packet) 12;
          last_received_delta_and_decodability \<leftarrow> rd16 (ch_payload packet) 14;
          Some (Accepted (Feedback.extend fb (LossNotification.fields
            decoded
            (decoded + drop_bit 1 last_received_delta_and_decodability)
            (last_received_delta_and_decodability AND 1 \<noteq> 0))))
        }
      })"

definition LossNotification_valid :: "LossNotification \<Rightarrow> bool" where
  "LossNotification_valid p \<longleftrightarrow> last_received p - last_decoded p \<le> 0x7fff"

lemma LossNotification_Set_valid:
  "LossNotification_valid p \<Longrightarrow> LossNotification_valid (snd (LossNotification_Set d r f p))"
  by (auto simp: LossNotification_Set_def LossNotification_valid_def Let_def not_less)

lemma delta_and_flag:
  assumes "(d :: u16) \<le> 0x7fff"
  shows "drop_bit 1 (push_bit 1 d OR (if b then 1 else 0)) = d"
    and "(push_bit 1 d OR (if b then 1 else 0)) AND 1 \<noteq> 0 \<longleftrightarrow> b"
proof -
  have "unat d < 2 ^ 15" using assms by (simp add: word_le_nat_alt)
  then show "drop_bit 1 (push_bit 1 d OR (if b then 1 else 0)) = d"
    by (rule drop_bit_push_bit_or) simp_all
  show "(push_bit 1 d OR (if b then 1 else 0)) AND 1 \<noteq> 0 \<longleftrightarrow> b"
    by (simp add: and_one_eq mod_2_eq_odd even_or_iff)
qed

lemma LossNotification_Parse_safe: "safe (LossNotification_Parse h)"
  unfolding LossNotification_Parse_def payload_size_def lntf_consts by (intro safe_intros) simp_all

lemma LossNotification_payload_length: "length (LossNotification_payload p) = 16"
  by (simp add: LossNotification_payload_def)

interpretation lntf: rtcp_codec LossNotification_BlockLength LossNotification_body
  LossNotification_Parse Psfb_kPacketType LossNotification_valid id
proof (rule rtcp_codec_block [OF LossNotification_body_def _ _ _ LossNotification_Parse_safe])
  fix p :: LossNotification and rest
  assume "LossNotification_valid p"
  then have "last_received p - last_decoded p \<le> 0x7fff" by (simp add: LossNotification_valid_def)
  note d = delta_and_flag [OF this, of "decodability_flag p"]
  define v where "v = push_bit 1 (last_received p - last_decoded p) OR (if decodability_flag p then 1 else 0)"
  have v: "last_decoded p + drop_bit 1 v = last_received p" "v AND 1 \<noteq> 0 \<longleftrightarrow> decodability_flag p"
    using d by (simp_all only: v_def) simp
  have pl: "LossNotification_payload p = Psfb_CreateCommonFeedback p @
      WriteBigEndian4 LossNotification_kUniqueIdentifier @ WriteBigEndian2 (last_decoded p) @ WriteBigEndian2 v"
    by (simp add: LossNotification_payload_def v_def)
  show "LossNotification_Parse \<lparr>ch_packet_type = Psfb_kPacketType, ch_count_or_format = of_nat kAfbMessageType,
      ch_padding_size = 0, ch_payload = LossNotification_payload p, ch_next = rest\<rparr> = Some (Accepted (id p))"
    unfolding pl
    by (simp add: LossNotification_Parse_def payload_size_def lntf_consts
        wire_simps v [unfolded One_nat_def] LossNotification.defs Feedback.defs)
qed (auto simp: LossNotification_payload_length LossNotification_BlockLength_def lntf_consts)

end
