(* ===== verification/Rtcp_Nack.thy ===== *)
theory Rtcp_Nack
  imports Rtcp_Feedback
begin

text \<open>
  Generic NACK (\<open>rtcp_packet/nack.cc\<close>): packing lost sequence numbers into items of a first
  number and a bitmask for the 16 following ones, and the fragmenting \<open>Create\<close>, which spreads the
  items over as many blocks and buffers as needed.
\<close>

unbundle bit_operations_syntax

section \<open>The class\<close>

record PackedNack =
  first_pid :: u16
  bitmask :: u16

record Nack = Feedback +
  nack_packed :: "PackedNack list"
  nack_packet_ids :: "u16 list"

definition Nack_kFeedbackMessageType :: nat where
  "Nack_kFeedbackMessageType = 1"

definition kNackItemLength :: nat where
  "kNackItemLength = 4"

definition kNackHeaderLength :: nat where
  "kNackHeaderLength = kHeaderSizeBytes + kCommonFeedbackLength"

lemmas nack_consts = Nack_kFeedbackMessageType_def kNackItemLength_def kNackHeaderLength_def feedback_consts

text \<open>The inner loop of \<open>Pack\<close>: the bitmask of the items that follow \<open>pid\<close> closely enough, and
  what is left of the list.\<close>

fun Pack_mask :: "u16 \<Rightarrow> u16 \<Rightarrow> u16 list \<Rightarrow> u16 \<times> u16 list" where
  "Pack_mask pid bm [] = (bm, [])"
| "Pack_mask pid bm (x # xs) =
     (let shift = x - pid - 1
      in if shift \<le> 15 then Pack_mask pid (bm OR push_bit (unat shift) 1) xs else (bm, x # xs))"

lemma Pack_mask_length: "length (snd (Pack_mask pid bm xs)) \<le> length xs"
  by (induction pid bm xs rule: Pack_mask.induct) (auto simp: Let_def le_SucI)

function (sequential) Pack :: "u16 list \<Rightarrow> PackedNack list" where
  "Pack [] = []"
| "Pack (pid # xs) =
     (let r = Pack_mask pid 0 xs in \<lparr>first_pid = pid, bitmask = fst r\<rparr> # Pack (snd r))"
  by pat_completeness auto
termination
  by (relation "measure length") (simp_all add: le_imp_less_Suc Pack_mask_length)

lemma unat_drop_1: "unat (drop_bit (Suc 0) (w :: u16)) = unat w div 2"
  by (simp add: unat_div_distrib drop_bit_Suc)

text \<open>The inner loop of \<open>Unpack\<close>, \<open>for (bitmask = item.bitmask; bitmask != 0; bitmask >>= 1, ++pid)\<close>.\<close>

function Unpack_mask :: "u16 \<Rightarrow> u16 \<Rightarrow> u16 list" where
  "Unpack_mask pid bm =
     (if bm = 0 then []
      else (if bm AND 1 \<noteq> 0 then [pid] else []) @ Unpack_mask (pid + 1) (drop_bit 1 bm))"
  by auto
termination
  by (relation "measure (\<lambda>(pid, bm). unat bm)")
    (auto simp: unat_drop_1 unat_gt_0 intro!: div_less_dividend)

declare Unpack_mask.simps [simp del]

primrec Unpack :: "PackedNack list \<Rightarrow> u16 list" where
  "Unpack [] = []"
| "Unpack (item # items) =
     first_pid item # Unpack_mask (first_pid item + 1) (bitmask item) @ Unpack items"

definition Nack_SetPacketIds :: "u16 list \<Rightarrow> Nack \<Rightarrow> Nack" where
  "Nack_SetPacketIds nack_list p =
     p\<lparr>nack_packet_ids := nack_list, nack_packed := nack_packed p @ Pack nack_list\<rparr>"

definition rd_packed_nack :: "bytes \<Rightarrow> nat \<Rightarrow> PackedNack option" where
  "rd_packed_nack p off = do {
     pid \<leftarrow> rd16 p off;
     bm \<leftarrow> rd16 p (off + 2);
     Some \<lparr>first_pid = pid, bitmask = bm\<rparr>
   }"

definition Nack_Parse :: "CommonHeader \<Rightarrow> Nack outcome option" where
  "Nack_Parse packet =
     (if payload_size packet < kCommonFeedbackLength + kNackItemLength then Some Rejected
      else do {
        let nack_items = (payload_size packet - kCommonFeedbackLength) div kNackItemLength;
        fb \<leftarrow> Rtpfb_ParseCommonFeedback (ch_payload packet);
        packed \<leftarrow> rd_items kNackItemLength rd_packed_nack (ch_payload packet) kCommonFeedbackLength nack_items;
        Some (Accepted (Feedback.extend fb (Nack.fields packed (Unpack packed))))
      })"

definition Nack_BlockLength :: "Nack \<Rightarrow> nat" where
  "Nack_BlockLength p = kHeaderSizeBytes + kCommonFeedbackLength + length (nack_packed p) * kNackItemLength"

definition packed_nack_bytes :: "PackedNack \<Rightarrow> bytes" where
  "packed_nack_bytes item = WriteBigEndian2 (first_pid item) @ WriteBigEndian2 (bitmask item)"

text \<open>One iteration of the loop of \<open>Create\<close>: a block that carries the given items.\<close>

definition Nack_block :: "Nack \<Rightarrow> PackedNack list \<Rightarrow> bytes" where
  "Nack_block p items =
     CreateHeader Nack_kFeedbackMessageType Rtpfb_kPacketType
       ((kCommonFeedbackLength + length items * kNackItemLength) div 4) @
     Rtpfb_CreateCommonFeedback p @
     concat (map packed_nack_bytes items)"

text \<open>The subtraction \<open>max_length - *index\<close> of two \<open>size_t\<close> values wraps.\<close>

definition size_sub :: "nat \<Rightarrow> nat \<Rightarrow> nat" where
  "size_sub a b = (if b \<le> a then a - b else 2 ^ 64 + a - b)"

text \<open>The loop of \<open>Create\<close>; \<open>items\<close> is \<open>packed_\<close> from \<open>nack_index\<close> on.\<close>

function Nack_Create_loop :: "Nack \<Rightarrow> PackedNack list \<Rightarrow> nat \<Rightarrow> wbuf \<Rightarrow> bool \<times> wbuf" where
  "Nack_Create_loop p items max_length w =
     (if items = [] then (True, w)
      else
        let bytes_left_in_buffer = size_sub max_length (length (w_bytes w))
        in if bytes_left_in_buffer < kNackHeaderLength + kNackItemLength then
             let (ok, w') = OnBufferFull w
             in if ok then Nack_Create_loop p items max_length w' else (False, w')
           else
             let num_nack_fields =
               min ((bytes_left_in_buffer - kNackHeaderLength) div kNackItemLength) (length items)
             in Nack_Create_loop p (drop num_nack_fields items) max_length
                  (put (Nack_block p (take num_nack_fields items)) w))"
  by auto
termination
  by (relation "measures [\<lambda>(p, items, m, w). length items, \<lambda>(p, items, m, w). length (w_bytes w)]")
    (auto simp: OnBufferFull_def nack_consts not_less div_greater_zero_iff split: if_splits)

declare Nack_Create_loop.simps [simp del]

definition Nack_Create :: "Nack \<Rightarrow> nat \<Rightarrow> wbuf \<Rightarrow> bool \<times> wbuf" where
  "Nack_Create p = Nack_Create_loop p (nack_packed p)"

section \<open>Packing and unpacking\<close>

lemma Unpack_mask_bits:
  "unat bm < 2 ^ n \<Longrightarrow> Unpack_mask pid bm = map (\<lambda>i. pid + of_nat i) (filter (bit bm) [0..<n])"
proof (induction n arbitrary: pid bm)
  case 0
  then show ?case by (simp add: Unpack_mask.simps unat_eq_zero)
next
  case (Suc n)
  have upt: "[0..<Suc n] = 0 # map Suc [0..<n]" by (simp add: map_Suc_upt upt_conv_Cons)
  have "unat (drop_bit (Suc 0) bm) < 2 ^ n" using Suc.prems by (simp add: unat_drop_1)
  note IH = Suc.IH [OF this, of "pid + 1"]
  have f: "filter (bit bm) (map Suc [0..<n]) = map Suc (filter (bit (drop_bit (Suc 0) bm)) [0..<n])"
    by (simp add: filter_map comp_def bit_drop_bit_eq)
  show ?case
  proof (cases "bm = 0")
    case True
    then show ?thesis by (simp add: Unpack_mask.simps)
  next
    case False
    then show ?thesis
      by (subst Unpack_mask.simps)
        (simp add: upt f IH and_one_eq mod_2_eq_odd bit_0 comp_def add.assoc del: upt_Suc)
  qed
qed

lemma Unpack_mask_u16: "Unpack_mask pid bm = map (\<lambda>i. pid + of_nat i) (filter (bit bm) [0..<16])"
  by (rule Unpack_mask_bits) simp

text \<open>What one run of the inner loop of \<open>Pack\<close> consumes, and the bits it sets.\<close>

lemma Pack_mask_spec:
  "Pack_mask pid bm xs = (bm', rest) \<Longrightarrow>
    \<exists>used. xs = used @ rest \<and> (\<forall>x \<in> set used. x - pid - 1 \<le> 15) \<and>
      (\<forall>i. bit bm' i \<longleftrightarrow> bit bm i \<or> i \<in> (\<lambda>x. unat (x - pid - 1)) ` set used)"
proof (induction pid bm xs arbitrary: bm' rest rule: Pack_mask.induct)
  case (1 pid bm)
  then show ?case by simp
next
  case (2 pid bm x xs)
  show ?case
  proof (cases "x - pid - 1 \<le> 15")
    case True
    with "2.prems" have "Pack_mask pid (bm OR push_bit (unat (x - pid - 1)) 1) xs = (bm', rest)"
      by (simp add: Let_def)
    from "2.IH" [OF refl True this] obtain used where u: "xs = used @ rest"
      "\<forall>x \<in> set used. x - pid - 1 \<le> 15"
      "\<forall>i. bit bm' i \<longleftrightarrow> bit (bm OR push_bit (unat (x - pid - 1)) 1) i \<or>
        i \<in> (\<lambda>x. unat (x - pid - 1)) ` set used"
      by blast
    have "unat (x - pid - 1) < 16" using True by (simp add: word_le_nat_alt)
    then have "bit (push_bit (unat (x - pid - 1)) (1 :: u16)) i \<longleftrightarrow> i = unat (x - pid - 1)" for i
      by (auto simp: bit_exp_iff)
    with u True show ?thesis by (intro exI [of _ "x # used"]) (auto simp: bit_or_iff)
  next
    case False
    with "2.prems" show ?thesis by (auto simp: Let_def)
  qed
qed

lemma Unpack_item_set:
  assumes "Pack_mask pid 0 xs = (bm, rest)" and "xs = used @ rest"
    and "\<forall>x \<in> set used. x - pid - 1 \<le> 15"
    and bits: "\<forall>i. bit bm i \<longleftrightarrow> i \<in> (\<lambda>x. unat (x - pid - 1)) ` set used"
  shows "set (Unpack_mask (pid + 1) bm) = set used"
proof -
  have "{i. i < 16 \<and> bit bm i} = (\<lambda>x. unat (x - pid - 1)) ` set used"
    using bits assms(3) by (auto simp: word_le_nat_alt)
  then have "set (Unpack_mask (pid + 1) bm) = (\<lambda>i. pid + 1 + of_nat i) ` (\<lambda>x. unat (x - pid - 1)) ` set used"
    unfolding Unpack_mask_u16 by auto
  also have "\<dots> = set used" by (simp add: image_image)
  finally show ?thesis .
qed

lemma set_Unpack_Pack: "set (Unpack (Pack ids)) = set ids"
proof (induction ids rule: Pack.induct)
  case (2 pid xs)
  obtain bm rest where r: "Pack_mask pid 0 xs = (bm, rest)" by fastforce
  from Pack_mask_spec [OF r] obtain used where u: "xs = used @ rest"
    "\<forall>x \<in> set used. x - pid - 1 \<le> 15" "\<forall>i. bit bm i \<longleftrightarrow> i \<in> (\<lambda>x. unat (x - pid - 1)) ` set used"
    by auto
  have "set (Unpack (Pack rest)) = set rest" using "2.IH" [OF refl] r by simp
  with Unpack_item_set [OF r u] u(1) r show ?case by simp
qed simp

text \<open>A list of sequence numbers in sending order: each one ahead of the one before it.\<close>

definition ascending_ids :: "u16 list \<Rightarrow> bool" where
  "ascending_ids = successively (\<lambda>a b. b \<noteq> a \<and> b - a \<le> 0x7fff)"

lemma ascending_offsets:
  fixes pid :: u16
  assumes "successively (\<lambda>a b. b \<noteq> a \<and> b - a \<le> 0x7fff) (y # used)" and "unat (y - pid) \<le> 16"
    and "\<forall>x \<in> set used. x - pid - 1 \<le> 15"
  shows "sorted_wrt (<) (unat (y - pid) # map (\<lambda>x. unat (x - pid)) used)"
  using assms
proof (induction used arbitrary: y)
  case (Cons x used)
  from Cons.prems have xy: "x \<noteq> y" "x - y \<le> 0x7fff" and s: "successively (\<lambda>a b. b \<noteq> a \<and> b - a \<le> 0x7fff) (x # used)"
    and sh: "x - pid - 1 \<le> 15" by auto
  have "unat (x - y) \<le> 0x7fff" "0 < unat (x - y)"
    using xy by (simp_all add: word_le_nat_alt unat_gt_0)
  moreover have "unat (x - pid) = unat (x - y) + unat (y - pid)"
    using calculation(1) Cons.prems(2) unat_plus_if' [of "x - y" "y - pid"] by simp
  moreover have "unat (x - pid) \<le> 16"
    using sh unat_plus_if' [of "x - pid - 1" 1] by (auto simp: word_le_nat_alt split: if_splits)
  ultimately show ?case using Cons.IH [OF s] Cons.prems(3) by fastforce
qed simp

lemma Unpack_item_order:
  assumes "Pack_mask pid 0 xs = (bm, rest)" and "xs = used @ rest"
    and sh: "\<forall>x \<in> set used. x - pid - 1 \<le> 15"
    and bits: "\<forall>i. bit bm i \<longleftrightarrow> i \<in> (\<lambda>x. unat (x - pid - 1)) ` set used"
    and asc: "ascending_ids (pid # used)"
  shows "Unpack_mask (pid + 1) bm = used"
proof -
  let ?off = "\<lambda>x. unat (x - pid - 1)"
  have suc: "unat (x - pid) = Suc (?off x)" if "x \<in> set used" for x
    using sh that unat_plus_if' [of "x - pid - 1" 1] by (auto simp: word_le_nat_alt split: if_splits)
  have "sorted_wrt (<) (map (\<lambda>x. unat (x - pid)) used)"
    using ascending_offsets [of pid used pid] asc sh by (simp add: ascending_ids_def)
  also have "map (\<lambda>x. unat (x - pid)) used = map Suc (map ?off used)"
    using suc by simp
  finally have so: "sorted_wrt (<) (map ?off used)" by (simp add: sorted_wrt_map)
  have "set (map ?off used) = set (filter (bit bm) [0..<16])"
    using bits sh by (auto simp: word_le_nat_alt)
  moreover have "sorted_wrt (<) (filter (bit bm) [0..<16])"
    by (simp add: sorted_wrt_filter)
  ultimately have "filter (bit bm) [0..<16] = map ?off used"
    using so by (metis strict_sorted_equal)
  then show ?thesis by (simp add: Unpack_mask_u16 comp_def map_idI)
qed

lemma ascending_ids_append: "ascending_ids (xs @ ys) \<Longrightarrow> ascending_ids xs \<and> ascending_ids ys"
  by (auto simp: ascending_ids_def successively_append_iff)

lemma Unpack_Pack: "ascending_ids ids \<Longrightarrow> Unpack (Pack ids) = ids"
proof (induction ids rule: Pack.induct)
  case (2 pid xs)
  obtain bm rest where r: "Pack_mask pid 0 xs = (bm, rest)" by fastforce
  from Pack_mask_spec [OF r] obtain used where u: "xs = used @ rest"
    "\<forall>x \<in> set used. x - pid - 1 \<le> 15" "\<forall>i. bit bm i \<longleftrightarrow> i \<in> (\<lambda>x. unat (x - pid - 1)) ` set used"
    by auto
  have asc: "ascending_ids (pid # used)" "ascending_ids rest"
    using ascending_ids_append [of "pid # used" rest] "2.prems" u(1) by auto
  have "Unpack (Pack rest) = rest" using "2.IH" [OF refl] r asc(2) by simp
  with Unpack_item_order [OF r u asc(1)] u(1) r show ?case by simp
qed simp

lemma length_Pack: "length (Pack ids) \<le> length ids"
proof (induction ids rule: Pack.induct)
  case (2 pid xs)
  then show ?case using Pack_mask_length [of pid 0 xs] by (simp add: Let_def)
qed simp

section \<open>Blocks\<close>

definition nack_of :: "Nack \<Rightarrow> PackedNack list \<Rightarrow> Nack" where
  "nack_of p items = p\<lparr>nack_packed := items, nack_packet_ids := Unpack items\<rparr>"

lemma packed_nack_bytes_length [simp]: "length (packed_nack_bytes i) = 4"
  by (simp add: packed_nack_bytes_def)

lemma rd_packed_nack_written: "rd_packed_nack (pre @ packed_nack_bytes i @ post) (length pre) = Some i"
  by (simp add: rd_packed_nack_def packed_nack_bytes_def wire_simps)

lemma Nack_block_length: "length (Nack_block p items) = 12 + 4 * length items"
  by (simp add: Nack_block_def length_concat_uniform)

lemma Nack_Parse_safe: "safe (Nack_Parse h)"
  unfolding Nack_Parse_def payload_size_def nack_consts rd_packed_nack_def
  by (intro safe_intros safe_bind safe_rd_items) auto

lemma Nack_block_parse:
  assumes "items \<noteq> []" and "length items < 65534"
  shows "\<exists>h. CommonHeader_Parse (Nack_block p items @ rest) = Some (Accepted h) \<and>
    ch_packet_type h = Rtpfb_kPacketType \<and> ch_next h = rest \<and> Nack_Parse h = Some (Accepted (nack_of p items))"
proof -
  let ?pl = "Rtpfb_CreateCommonFeedback p @ concat (map packed_nack_bytes items)"
  have len: "length ?pl = 4 * (2 + length items)" by (simp add: length_concat_uniform)
  have hdr: "CommonHeader_Parse (Nack_block p items @ rest) =
      Some (Accepted \<lparr>ch_packet_type = Rtpfb_kPacketType, ch_count_or_format = of_nat Nack_kFeedbackMessageType,
        ch_padding_size = 0, ch_payload = ?pl, ch_next = rest\<rparr>)"
    using CommonHeader_Parse_created [OF _ len, of Nack_kFeedbackMessageType Rtpfb_kPacketType rest] assms(2)
    by (simp add: Nack_block_def nack_consts add.commute mult.commute)
  have items: "rd_items 4 rd_packed_nack ?pl 8 (length items) = Some items"
    using rd_items_written [where rd = rd_packed_nack and w = packed_nack_bytes and f = id and len = 4
        and xs = items and pre = "Rtpfb_CreateCommonFeedback p" and post = "[]"]
    by (simp add: rd_packed_nack_written)
  have "0 < length items" using assms(1) by simp
  then have "Nack_Parse \<lparr>ch_packet_type = Rtpfb_kPacketType, ch_count_or_format = of_nat Nack_kFeedbackMessageType,
        ch_padding_size = 0, ch_payload = ?pl, ch_next = rest\<rparr> = Some (Accepted (nack_of p items))"
    unfolding Nack_Parse_def payload_size_def nack_consts using len
    by (simp add: items wire_simps Nack.defs Feedback.defs nack_of_def del: length_append length_concat)
  with hdr show ?thesis by (intro exI [of _ "\<lparr>ch_packet_type = Rtpfb_kPacketType,
        ch_count_or_format = of_nat Nack_kFeedbackMessageType, ch_padding_size = 0, ch_payload = ?pl, ch_next = rest\<rparr>"]) simp
qed

definition Nack_valid :: "Nack \<Rightarrow> bool" where
  "Nack_valid p \<longleftrightarrow> nack_packed p \<noteq> [] \<and> length (nack_packed p) < 65534"

definition Nack_body :: "Nack \<Rightarrow> bytes" where
  "Nack_body p = Nack_block p (nack_packed p)"

interpretation nack: rtcp_codec Nack_BlockLength Nack_body Nack_Parse Rtpfb_kPacketType Nack_valid
  "\<lambda>p. nack_of p (nack_packed p)"
proof
  fix p :: Nack and rest h
  show "safe (Nack_Parse h)" by (rule Nack_Parse_safe)
  assume v: "Nack_valid p"
  show "length (Nack_body p) = Nack_BlockLength p"
    by (simp add: Nack_body_def Nack_block_length Nack_BlockLength_def nack_consts)
  show "\<exists>h. CommonHeader_Parse (Nack_body p @ rest) = Some (Accepted h) \<and>
      ch_packet_type h = Rtpfb_kPacketType \<and> ch_next h = rest \<and>
      Nack_Parse h = Some (Accepted (nack_of p (nack_packed p)))"
    using v unfolding Nack_body_def Nack_valid_def by (blast intro: Nack_block_parse)
qed

section \<open>Fragmentation\<close>

text \<open>The number of items that fit in one buffer of \<open>m\<close> bytes, and a list cut into pieces of at
  most that many.\<close>

definition nacks_per_buffer :: "nat \<Rightarrow> nat" where
  "nacks_per_buffer m = (m - 12) div 4"

function pieces :: "nat \<Rightarrow> 'i list \<Rightarrow> 'i list list" where
  "pieces k xs = (if k = 0 \<or> xs = [] then [] else take k xs # pieces k (drop k xs))"
  by auto
termination by (relation "measure (\<lambda>(k, xs). length xs)") auto

declare pieces.simps [simp del]

lemma concat_pieces: "0 < k \<Longrightarrow> concat (pieces k xs) = xs"
  by (induction k xs rule: pieces.induct) (subst pieces.simps, auto)

lemma pieces_length: "c \<in> set (pieces k xs) \<Longrightarrow> c \<noteq> [] \<and> length c \<le> k"
proof (induction k xs rule: pieces.induct)
  case (1 k xs)
  then show ?case by (subst (asm) (2) pieces.simps) (auto split: if_splits)
qed

lemma pieces_neq_Nil: "0 < k \<Longrightarrow> pieces k xs \<noteq> [] \<longleftrightarrow> xs \<noteq> []"
  by (subst pieces.simps) auto

lemma Nack_Create_loop_fresh:
  assumes m: "16 \<le> m"
  shows "Nack_Create_loop p items m \<lparr>w_bytes = [], w_ready = r\<rparr> =
    (if items = [] then (True, \<lparr>w_bytes = [], w_ready = r\<rparr>)
     else (True, \<lparr>w_bytes = Nack_block p (last (pieces (nacks_per_buffer m) items)),
        w_ready = r @ map (Nack_block p) (butlast (pieces (nacks_per_buffer m) items))\<rparr>))"
proof (induction items arbitrary: r rule: length_induct)
  case (1 items)
  let ?k = "nacks_per_buffer m" and ?L = "Nack_Create_loop p"
  have k: "0 < ?k" using m by (simp add: nacks_per_buffer_def)
  show ?case
  proof (cases "items = []")
    case True
    then show ?thesis by (simp add: Nack_Create_loop.simps)
  next
    case False
    let ?rest = "drop ?k items"
    have step: "?L items m \<lparr>w_bytes = [], w_ready = r\<rparr> =
        ?L ?rest m \<lparr>w_bytes = Nack_block p (take ?k items), w_ready = r\<rparr>"
      using False m
      by (subst Nack_Create_loop.simps)
        (auto simp: size_sub_def nack_consts put_def nacks_per_buffer_def min_def Let_def)
    show ?thesis
    proof (cases "?rest = []")
      case True
      then have "pieces ?k items = [take ?k items]" "take ?k items = items"
        using False k by (simp_all add: pieces.simps [of ?k items] pieces.simps [of ?k "[]"])
      then show ?thesis using True False unfolding step by (simp add: Nack_Create_loop.simps)
    next
      case ne: False
      have full: "length (Nack_block p (take ?k items)) = 12 + 4 * ?k" using ne by (simp add: Nack_block_length)
      have "size_sub m (12 + 4 * ?k) < 16"
        using m by (auto simp: size_sub_def nacks_per_buffer_def)
      then have "?L ?rest m \<lparr>w_bytes = Nack_block p (take ?k items), w_ready = r\<rparr> =
          ?L ?rest m \<lparr>w_bytes = [], w_ready = r @ [Nack_block p (take ?k items)]\<rparr>"
        using ne full by (subst Nack_Create_loop.simps) (auto simp: OnBufferFull_def nack_consts)
      also have "\<dots> = (True, \<lparr>w_bytes = Nack_block p (last (pieces ?k ?rest)),
          w_ready = (r @ [Nack_block p (take ?k items)]) @ map (Nack_block p) (butlast (pieces ?k ?rest))\<rparr>)"
        using "1.IH" [rule_format, of ?rest] False ne k by simp
      finally show ?thesis
        using False k ne pieces_neq_Nil [OF k, of ?rest] unfolding step
        by (simp add: pieces.simps [of ?k items])
    qed
  qed
qed

lemma Nack_Build_callback:
  assumes "16 \<le> m" and "nack_packed p \<noteq> []"
  shows "Build_callback m (Nack_Create p) =
    (True, map (Nack_block p) (pieces (nacks_per_buffer m) (nack_packed p)))"
proof -
  have "0 < nacks_per_buffer m" using assms(1) by (simp add: nacks_per_buffer_def)
  then have ne: "pieces (nacks_per_buffer m) (nack_packed p) \<noteq> []" using assms(2) by (simp add: pieces_neq_Nil)
  have "map f (butlast xs) @ [f (last xs)] = map f xs" if "xs \<noteq> []" for f :: "PackedNack list \<Rightarrow> bytes" and xs
    using that by (induction xs) auto
  note join = this [OF ne, of "Nack_block p"]
  have "Nack_block p c \<noteq> []" for c using Nack_block_length [of p c] by fastforce
  then show ?thesis
    using Nack_Create_loop_fresh [OF assms(1), of p "nack_packed p" "[]"] assms(2) join
    by (simp add: Build_callback_def Nack_Create_def wbuf_init_def OnBufferFull_def)
qed

text \<open>Into a buffer that already holds other blocks of a compound packet.\<close>

lemma Nack_Create_loop_appends:
  assumes "wbuf_fits m w" and "16 \<le> m"
  shows "\<exists>w' cs. Nack_Create_loop p items m w = (True, w') \<and> wbuf_fits m w' \<and>
    written w' = written w @ concat (map (Nack_block p) cs) \<and> concat cs = items \<and>
    (\<forall>c \<in> set cs. c \<noteq> [] \<and> length c \<le> nacks_per_buffer m)"
  using assms
proof (induction p items m w rule: Nack_Create_loop.induct)
  case (1 p items m w)
  let ?left = "size_sub m (length (w_bytes w))"
  have left: "?left = m - length (w_bytes w)" using "1.prems"(1) by (simp add: size_sub_def wbuf_fits_def)
  consider "items = []" | "items \<noteq> []" "?left < 16" | "items \<noteq> []" "16 \<le> ?left" by linarith
  then show ?case
  proof cases
    case 1
    with "1.prems" show ?thesis by (intro exI [of _ w] exI [of _ "[]"]) (simp add: Nack_Create_loop.simps)
  next
    case 2
    obtain ok w' where o: "OnBufferFull w = (ok, w')" by fastforce
    note q = OnBufferFull_props [OF o]
    have ok: "ok" using 2 left "1.prems"(2) q(3) by auto
    have step: "Nack_Create_loop p items m w = Nack_Create_loop p items m w'"
      using 2 o ok by (subst Nack_Create_loop.simps) (simp add: nack_consts)
    have "wbuf_fits m w'" by (rule q(2) [OF "1.prems"(1)])
    moreover have "?left < kNackHeaderLength + kNackItemLength" using 2 by (simp add: nack_consts)
    ultimately show ?thesis
      using "1.IH"(1) [OF 2(1) refl _ o [symmetric] refl ok _ "1.prems"(2)] unfolding step q(1) by blast
  next
    case 3
    let ?n = "min ((?left - 12) div 4) (length items)"
    let ?w = "put (Nack_block p (take ?n items)) w"
    have n: "?n \<le> nacks_per_buffer m" "?n \<noteq> 0"
      using 3 left by (auto simp: nacks_per_buffer_def intro!: div_le_mono min.coboundedI1)
    have fits: "wbuf_fits m ?w"
      using "1.prems"(1) 3 left by (auto simp: wbuf_fits_def put_def Nack_block_length)
    have step: "Nack_Create_loop p items m w = Nack_Create_loop p (drop ?n items) m ?w"
      using 3 by (subst Nack_Create_loop.simps) (simp add: nack_consts Let_def)
    have c: "\<not> ?left < kNackHeaderLength + kNackItemLength"
      and nn: "min ((?left - kNackHeaderLength) div kNackItemLength) (length items) = ?n"
      using 3 by (simp_all add: nack_consts)
    from "1.IH"(2) [OF 3(1) refl c refl, unfolded nn, OF fits "1.prems"(2)]
    obtain w' cs where r: "Nack_Create_loop p (drop ?n items) m ?w = (True, w')" "wbuf_fits m w'"
      "written w' = written ?w @ concat (map (Nack_block p) cs)" "concat cs = drop ?n items"
      "\<forall>c \<in> set cs. c \<noteq> [] \<and> length c \<le> nacks_per_buffer m"
      by blast
    show ?thesis
      unfolding step using r n 3(1)
      by (intro exI [of _ w'] exI [of _ "take ?n items # cs"]) (auto simp: written_def put_def)
  qed
qed

lemma Nack_Create_too_small:
  assumes "m < 16" and "nack_packed p \<noteq> []" and "wbuf_fits m w"
  shows "fst (Nack_Create p m w) = False"
proof -
  have fail: "fst (Nack_Create_loop p (nack_packed p) m v) = False" if "w_bytes v = []" for v
  proof -
    have "size_sub m 0 < kNackHeaderLength + kNackItemLength"
      using assms(1) by (simp add: size_sub_def nack_consts)
    then show ?thesis using assms(2) that by (subst Nack_Create_loop.simps) (simp add: OnBufferFull_def)
  qed
  show ?thesis
  proof (cases "w_bytes w = []")
    case False
    obtain ok w' where o: "OnBufferFull w = (ok, w')" by fastforce
    note q = OnBufferFull_props [OF o]
    have "size_sub m (length (w_bytes w)) < kNackHeaderLength + kNackItemLength"
      using assms(1,3) by (simp add: size_sub_def wbuf_fits_def nack_consts)
    moreover have ok using q(3) False by simp
    ultimately have "Nack_Create_loop p (nack_packed p) m w = Nack_Create_loop p (nack_packed p) m w'"
      using assms(2) o by (subst Nack_Create_loop.simps) simp
    then show ?thesis using fail [OF q(4)] by (simp add: Nack_Create_def)
  qed (simp add: fail Nack_Create_def)
qed

section \<open>Delivery of a request\<close>

lemma Unpack_concat: "Unpack (concat cs) = concat (map Unpack cs)"
proof -
  have "Unpack (xs @ ys) = Unpack xs @ Unpack ys" for xs ys by (induction xs) auto
  then show ?thesis by (induction cs) auto
qed

lemma Nack_Build_delivers:
  assumes "nack_packed p \<noteq> []" and "16 \<le> m" and "m \<le> 1500"
  defines "cs \<equiv> pieces (nacks_per_buffer m) (nack_packed p)"
  shows "Build_callback m (Nack_Create p) = (True, map (Nack_block p) cs)"
    and "\<forall>c \<in> set cs. length (Nack_block p c) \<le> m"
    and "\<forall>c \<in> set cs. parse_block Nack_Parse (Nack_block p c) = Some (Accepted (nack_of p c, []))"
    and "concat (map Unpack cs) = Unpack (nack_packed p)"
proof -
  show "Build_callback m (Nack_Create p) = (True, map (Nack_block p) cs)"
    unfolding cs_def by (rule Nack_Build_callback) fact+
  have k: "0 < nacks_per_buffer m" "nacks_per_buffer m < 65534" "12 + 4 * nacks_per_buffer m \<le> m"
    using assms(2,3) by (auto simp: nacks_per_buffer_def)
  have c: "c \<noteq> []" "length c \<le> nacks_per_buffer m" if "c \<in> set cs" for c
    using pieces_length that by (auto simp: cs_def)
  show "\<forall>c \<in> set cs. length (Nack_block p c) \<le> m"
    using c k(3) by (fastforce simp: Nack_block_length)
  show "\<forall>c \<in> set cs. parse_block Nack_Parse (Nack_block p c) = Some (Accepted (nack_of p c, []))"
  proof
    fix c assume "c \<in> set cs"
    with c k(2) show "parse_block Nack_Parse (Nack_block p c) = Some (Accepted (nack_of p c, []))"
      using Nack_block_parse [of c p "[]"] by (fastforce simp: parse_block_def)
  qed
  show "concat (map Unpack cs) = Unpack (nack_packed p)"
    by (simp add: cs_def concat_pieces [OF k(1)] flip: Unpack_concat)
qed



text \<open>
  C21: Whatever list of sequence numbers is packed, in any order and with any repetitions, the
  packed items stand for exactly that set of sequence numbers, and there are never more items than
  sequence numbers.
\<close>

theorem nack_pack_exact:
  "set (Unpack (Pack ids)) = set ids \<and> length (Pack ids) \<le> length ids"
  by (simp add: set_Unpack_Pack length_Pack)

end
