(* ===== verification/Rtcp_Bitrate.thy ===== *)
theory Rtcp_Bitrate
  imports Rtcp_Feedback
begin

text \<open>
  The feedback messages that carry a bitrate as mantissa and exponent (\<open>rtcp_packet/remb.cc\<close>,
  \<open>tmmb_item.cc\<close>, \<open>tmmbr.cc\<close>, \<open>tmmbn.cc\<close>). The wire form rounds the bitrate down; the codec contract
  holds with \<open>canon\<close> replacing the bitrate by its rounded value, and the size of the rounding is
  bounded.
\<close>

unbundle bit_operations_syntax

section \<open>Mantissa and exponent\<close>

text \<open>The loop \<open>while (mantissa > kMaxMantissa) { mantissa >>= 1; ++exponent; }\<close>.\<close>

function mantissa_loop :: "nat \<Rightarrow> nat \<Rightarrow> nat \<Rightarrow> nat \<times> nat" where
  "mantissa_loop kMaxMantissa m e =
     (if m > kMaxMantissa then mantissa_loop kMaxMantissa (m div 2) (e + 1) else (m, e))"
  by auto
termination by (relation "measure (\<lambda>(k, m, e). m)") auto

declare mantissa_loop.simps [simp del]

lemma mantissa_loop_spec:
  assumes "mantissa_loop (2 ^ Suc b - 1) v e = (m, e')"
  shows "\<exists>j. e' = e + j \<and> m = v div 2 ^ j \<and> m < 2 ^ Suc b \<and> (0 < j \<longrightarrow> 2 ^ b \<le> m)"
  using assms
proof (induction "2 ^ Suc b - 1 :: nat" v e arbitrary: m e' rule: mantissa_loop.induct)
  case (1 v e)
  show ?case
  proof (cases "2 ^ Suc b - 1 < v")
    case True
    with "1.prems" have "mantissa_loop (2 ^ Suc b - 1) (v div 2) (e + 1) = (m, e')"
      by (simp add: mantissa_loop.simps [of _ v])
    from "1.hyps" [OF True this] obtain j where j: "e' = e + 1 + j" "m = v div 2 div 2 ^ j" "m < 2 ^ Suc b"
      "0 < j \<longrightarrow> 2 ^ b \<le> m" by auto
    have "2 ^ b \<le> v div 2" using True by simp
    with j show ?thesis
      by (intro exI [of _ "Suc j"]) (auto simp: div_mult2_eq power_Suc mult.commute)
  next
    case False
    moreover have "0 < (2 :: nat) ^ Suc b" by (rule zero_less_power) simp
    ultimately have "v < 2 ^ Suc b" by linarith
    with False "1.prems" show ?thesis by (auto simp: mantissa_loop.simps [of _ v])
  qed
qed

definition mant :: "nat \<Rightarrow> nat \<Rightarrow> nat" where
  "mant b v = fst (mantissa_loop (2 ^ Suc b - 1) v 0)"

definition expo :: "nat \<Rightarrow> nat \<Rightarrow> nat" where
  "expo b v = snd (mantissa_loop (2 ^ Suc b - 1) v 0)"

definition rounded :: "nat \<Rightarrow> nat \<Rightarrow> nat" where
  "rounded b v = mant b v * 2 ^ expo b v"

lemma mant_expo:
  "mant b v = v div 2 ^ expo b v" "mant b v < 2 ^ Suc b" "0 < expo b v \<Longrightarrow> 2 ^ b \<le> mant b v"
  using mantissa_loop_spec [of b v 0 "mant b v" "expo b v"] by (auto simp: mant_def expo_def)

lemma expo_bound:
  assumes "v < 2 ^ n" and "Suc b \<le> n"
  shows "expo b v \<le> n - Suc b"
proof (cases "expo b v = 0")
  case False
  then have "2 ^ b \<le> v div 2 ^ expo b v" using mant_expo [of b v] by simp
  then have "2 ^ b * 2 ^ expo b v \<le> v" by (simp add: less_eq_div_iff_mult_less_eq)
  then have "2 ^ (b + expo b v) < (2 :: nat) ^ n" using assms(1) by (simp add: power_add)
  then show ?thesis by (simp add: power_less_imp_less_exp)
qed simp

lemma rounded_bounds: "rounded b v \<le> v" "v < rounded b v + 2 ^ expo b v"
proof -
  have "v mod 2 ^ expo b v < 2 ^ expo b v" by simp
  then show "rounded b v \<le> v" "v < rounded b v + 2 ^ expo b v"
    using div_mult_mod_eq [of v "2 ^ expo b v"] unfolding rounded_def mant_expo(1) by linarith+
qed

lemma rounded_error: "(v - rounded b v) * 2 ^ b \<le> v"
proof (cases "expo b v = 0")
  case True
  then have "v - rounded b v = 0" using rounded_bounds(2) [of v b] by simp
  then show ?thesis by simp
next
  case False
  then have "2 ^ b \<le> v div 2 ^ expo b v" using mant_expo [of b v] by simp
  then have "2 ^ expo b v * 2 ^ b \<le> v" by (simp add: less_eq_div_iff_mult_less_eq mult.commute)
  moreover have "v - rounded b v \<le> 2 ^ expo b v" using rounded_bounds(2) [of v b] by simp
  ultimately show ?thesis by (meson le_trans mult_le_mono1)
qed

lemma rounded_idem_if_small: "v < 2 ^ Suc b \<Longrightarrow> rounded b v = v"
  by (simp add: rounded_def mant_def expo_def mantissa_loop.simps)

section \<open>TmmbItem\<close>

record TmmbItem =
  tmmb_ssrc :: u32
  tmmb_bitrate_bps :: u64
  tmmb_packet_overhead :: u16

definition TmmbItem_kLength :: nat where
  "TmmbItem_kLength = 8"

definition TmmbItem_Parse :: "bytes \<Rightarrow> nat \<Rightarrow> TmmbItem outcome option" where
  "TmmbItem_Parse buffer off = do {
     ssrc \<leftarrow> rd32 buffer off;
     compact \<leftarrow> rd32 buffer (off + 4);
     let exponent = (ucast (drop_bit 26 compact) :: u8);
     let mantissa = (ucast (drop_bit 9 compact AND 0x1ffff) :: u64);
     let overhead = (ucast (compact AND 0x1ff) :: u16);
     let bitrate_bps = push_bit (unat exponent) mantissa;
     if drop_bit (unat exponent) bitrate_bps \<noteq> mantissa then Some Rejected
     else Some (Accepted \<lparr>tmmb_ssrc = ssrc, tmmb_bitrate_bps = bitrate_bps, tmmb_packet_overhead = overhead\<rparr>)
   }"

definition TmmbItem_Create :: "TmmbItem \<Rightarrow> bytes" where
  "TmmbItem_Create item =
     (let (mantissa, exponent) = mantissa_loop 0x1ffff (unat (tmmb_bitrate_bps item)) 0;
          compact = push_bit 26 exponent OR push_bit 9 mantissa OR unat (tmmb_packet_overhead item)
      in WriteBigEndian4 (tmmb_ssrc item) @ WriteBigEndian4 (of_nat compact))"

definition TmmbItem_set_packet_overhead :: "u16 \<Rightarrow> TmmbItem \<Rightarrow> TmmbItem" where
  "TmmbItem_set_packet_overhead overhead item = item\<lparr>tmmb_packet_overhead := overhead\<rparr>"

definition TmmbItem_valid :: "TmmbItem \<Rightarrow> bool" where
  "TmmbItem_valid item \<longleftrightarrow> unat (tmmb_packet_overhead item) \<le> 0x1ff"

definition TmmbItem_canon :: "TmmbItem \<Rightarrow> TmmbItem" where
  "TmmbItem_canon item = item\<lparr>tmmb_bitrate_bps := of_nat (rounded 16 (unat (tmmb_bitrate_bps item)))\<rparr>"

lemma compact_fields:
  assumes "e < 64" and "m < 2 ^ 17" and "v < 2 ^ 9"
  defines "c \<equiv> of_nat (push_bit 26 e OR push_bit 9 m OR v) :: u32"
  shows "(ucast (drop_bit 26 c) :: u8) = of_nat e"
    and "(ucast (drop_bit 9 c AND 0x1ffff) :: u64) = of_nat m"
    and "(ucast (c AND 0x1ff) :: u16) = of_nat v"
proof -
  have b: "bit e k \<Longrightarrow> k < 6" "bit m k \<Longrightarrow> k < 17" "bit v k \<Longrightarrow> k < 9" for k
    using bit_less_exp [of e 6 k] bit_less_exp [of m 17 k] bit_less_exp [of v 9 k] assms(1-3) by auto
  have k: "(0x1ffff :: u32) = mask 17" "(0x1ff :: u32) = mask 9" by (simp_all add: mask_eq_exp_minus_1)
  have c: "bit c k \<longleftrightarrow> k < 32 \<and> (26 \<le> k \<and> bit e (k - 26) \<or> 9 \<le> k \<and> bit m (k - 9) \<or> bit v k)" for k
    by (auto simp: c_def bit_simps)
  show "(ucast (drop_bit 26 c) :: u8) = of_nat e"
    by (rule bit_word_eqI) (auto simp: bit_simps c dest: b)
  show "(ucast (drop_bit 9 c AND 0x1ffff) :: u64) = of_nat m"
    unfolding k by (rule bit_word_eqI) (auto simp: bit_simps c dest: b)
  show "(ucast (c AND 0x1ff) :: u16) = of_nat v"
    unfolding k by (rule bit_word_eqI) (auto simp: bit_simps c dest: b)
qed

lemma shift_back:
  assumes "m * 2 ^ e < 2 ^ 64"
  shows "push_bit e (of_nat m :: u64) = of_nat (m * 2 ^ e)" and "drop_bit e (of_nat (m * 2 ^ e) :: u64) = of_nat m"
proof -
  show "push_bit e (of_nat m :: u64) = of_nat (m * 2 ^ e)" by (simp add: push_bit_eq_mult)
  show "drop_bit e (of_nat (m * 2 ^ e) :: u64) = of_nat m"
  proof -
    have "m * 1 \<le> m * 2 ^ e" by (rule mult_le_mono2) simp
    then have "m < 2 ^ 64" using assms by linarith
    then have "unat (of_nat m :: u64) = m" "unat (of_nat (m * 2 ^ e) :: u64) = m * 2 ^ e"
      using assms by (simp_all add: unat_of_nat del: of_nat_mult of_nat_power)
    moreover have "unat (drop_bit e w) = unat w div 2 ^ e" for w :: u64
      unfolding unsigned_drop_bit_eq by (simp add: drop_bit_eq_div take_bit_nat_eq_self [OF unat_u64_lt])
    ultimately show ?thesis by (metis nonzero_mult_div_cancel_right power_not_zero word_unat_eq_iff zero_neq_numeral)
  qed
qed

lemma TmmbItem_Create_length [simp]: "length (TmmbItem_Create item) = 8"
  by (simp add: TmmbItem_Create_def Let_def split: prod.split)

lemma TmmbItem_written:
  assumes "TmmbItem_valid item"
  shows "TmmbItem_Parse (pre @ TmmbItem_Create item @ post) (length pre) = Some (Accepted (TmmbItem_canon item))"
proof -
  let ?v = "unat (tmmb_bitrate_bps item)" and ?o = "unat (tmmb_packet_overhead item)"
  let ?m = "mant 16 ?v" and ?e = "expo 16 ?v"
  have v: "?v < 2 ^ 64" by (rule unat_u64_lt)
  have e: "?e < 64" using expo_bound [OF v, of 16] by simp
  have m: "?m < 2 ^ 17" using mant_expo(2) [of 16 ?v] by simp
  have o: "?o < 2 ^ 9" using assms by (simp add: TmmbItem_valid_def)
  define c :: u32 where "c = of_nat (push_bit 26 ?e OR push_bit 9 ?m OR ?o)"
  note f = compact_fields [OF e m o, folded c_def]
  have "mantissa_loop 0x1ffff ?v 0 = (?m, ?e)" by (simp add: mant_def expo_def)
  then have bytes: "TmmbItem_Create item = WriteBigEndian4 (tmmb_ssrc item) @ WriteBigEndian4 c"
    by (simp add: TmmbItem_Create_def c_def)
  have "?m * 2 ^ ?e < 2 ^ 64" using rounded_bounds(1) [of 16 ?v] v by (simp add: rounded_def)
  note s = shift_back [OF this]
  have "unat (of_nat ?e :: u8) = ?e" using e by (intro unat_of_nat_u8) simp
  then show ?thesis
    unfolding bytes
    by (simp add: TmmbItem_Parse_def wire_simps f s TmmbItem_canon_def rounded_def del: of_nat_mult of_nat_power)
qed

lemma TmmbItem_Parse_safe: "off + 8 \<le> length p \<Longrightarrow> safe (TmmbItem_Parse p off)"
  unfolding TmmbItem_Parse_def by (intro safe_intros) simp_all

section \<open>Tmmbr and Tmmbn\<close>

record Tmmb = Feedback +
  tmmb_items :: "TmmbItem list"

definition Tmmbr_kFeedbackMessageType :: nat where
  "Tmmbr_kFeedbackMessageType = 3"

definition Tmmbn_kFeedbackMessageType :: nat where
  "Tmmbn_kFeedbackMessageType = 4"

lemmas tmmb_consts = Tmmbr_kFeedbackMessageType_def Tmmbn_kFeedbackMessageType_def TmmbItem_kLength_def
  feedback_consts

definition Tmmbr_Parse :: "CommonHeader \<Rightarrow> Tmmb outcome option" where
  "Tmmbr_Parse packet =
     (if payload_size packet < kCommonFeedbackLength + TmmbItem_kLength then Some Rejected
      else do {
        let items_size_bytes = payload_size packet - kCommonFeedbackLength;
        if items_size_bytes mod TmmbItem_kLength \<noteq> 0 then Some Rejected
        else do {
          fb \<leftarrow> Rtpfb_ParseCommonFeedback (ch_payload packet);
          let number_of_items = items_size_bytes div TmmbItem_kLength;
          r \<leftarrow> rd_items_checked TmmbItem_kLength TmmbItem_Parse (ch_payload packet)
            kCommonFeedbackLength number_of_items;
          case r of
            Rejected \<Rightarrow> Some Rejected
          | Accepted items \<Rightarrow> Some (Accepted (Feedback.extend fb (Tmmb.fields items)))
        }
      })"

definition Tmmbr_AddTmmbr :: "TmmbItem \<Rightarrow> Tmmb \<Rightarrow> Tmmb" where
  "Tmmbr_AddTmmbr item p = p\<lparr>tmmb_items := tmmb_items p @ [item]\<rparr>"

definition Tmmbr_BlockLength :: "Tmmb \<Rightarrow> nat" where
  "Tmmbr_BlockLength p = kHeaderSizeBytes + kCommonFeedbackLength + TmmbItem_kLength * length (tmmb_items p)"

definition Tmmbr_payload :: "Tmmb \<Rightarrow> bytes" where
  "Tmmbr_payload p = Rtpfb_CreateCommonFeedback p @ concat (map TmmbItem_Create (tmmb_items p))"

definition Tmmbr_body :: "Tmmb \<Rightarrow> bytes" where
  "Tmmbr_body p =
     CreateHeader Tmmbr_kFeedbackMessageType Rtpfb_kPacketType (HeaderLength (Tmmbr_BlockLength p)) @
     Tmmbr_payload p"

definition Tmmbr_Create :: "Tmmb \<Rightarrow> nat \<Rightarrow> wbuf \<Rightarrow> bool \<times> wbuf" where
  "Tmmbr_Create p = create_block (Tmmbr_BlockLength p) (Tmmbr_body p)"

definition Tmmbn_Parse :: "CommonHeader \<Rightarrow> Tmmb outcome option" where
  "Tmmbn_Parse packet =
     (if payload_size packet < kCommonFeedbackLength then Some Rejected
      else do {
        let items_size_bytes = payload_size packet - kCommonFeedbackLength;
        if items_size_bytes mod TmmbItem_kLength \<noteq> 0 then Some Rejected
        else do {
          fb \<leftarrow> Rtpfb_ParseCommonFeedback (ch_payload packet);
          let number_of_items = items_size_bytes div TmmbItem_kLength;
          r \<leftarrow> rd_items_checked TmmbItem_kLength TmmbItem_Parse (ch_payload packet)
            kCommonFeedbackLength number_of_items;
          case r of
            Rejected \<Rightarrow> Some Rejected
          | Accepted items \<Rightarrow> Some (Accepted (Feedback.extend fb (Tmmb.fields items)))
        }
      })"

definition Tmmbn_AddTmmbr :: "TmmbItem \<Rightarrow> Tmmb \<Rightarrow> Tmmb" where
  "Tmmbn_AddTmmbr item p = p\<lparr>tmmb_items := tmmb_items p @ [item]\<rparr>"

definition Tmmbn_BlockLength :: "Tmmb \<Rightarrow> nat" where
  "Tmmbn_BlockLength p = kHeaderSizeBytes + kCommonFeedbackLength + TmmbItem_kLength * length (tmmb_items p)"

definition Tmmbn_payload :: "Tmmb \<Rightarrow> bytes" where
  "Tmmbn_payload p = Rtpfb_CreateCommonFeedback p @ concat (map TmmbItem_Create (tmmb_items p))"

definition Tmmbn_body :: "Tmmb \<Rightarrow> bytes" where
  "Tmmbn_body p =
     CreateHeader Tmmbn_kFeedbackMessageType Rtpfb_kPacketType (HeaderLength (Tmmbn_BlockLength p)) @
     Tmmbn_payload p"

definition Tmmbn_Create :: "Tmmb \<Rightarrow> nat \<Rightarrow> wbuf \<Rightarrow> bool \<times> wbuf" where
  "Tmmbn_Create p = create_block (Tmmbn_BlockLength p) (Tmmbn_body p)"

definition Tmmb_valid :: "Tmmb \<Rightarrow> bool" where
  "Tmmb_valid p \<longleftrightarrow> tmmb_items p \<noteq> [] \<and> length (tmmb_items p) < 32767 \<and> list_all TmmbItem_valid (tmmb_items p)"

definition Tmmb_canon :: "Tmmb \<Rightarrow> Tmmb" where
  "Tmmb_canon p = p\<lparr>tmmb_items := map TmmbItem_canon (tmmb_items p)\<rparr>"

lemma Tmmb_payload_length:
  "length (Tmmbr_payload p) = 8 + 8 * length (tmmb_items p)" "Tmmbn_payload p = Tmmbr_payload p"
  by (simp_all add: Tmmbr_payload_def Tmmbn_payload_def length_concat_uniform)

lemma Tmmbr_Parse_safe: "safe (Tmmbr_Parse h)"
  unfolding Tmmbr_Parse_def payload_size_def tmmb_consts
  by (intro safe_intros safe_bind [OF safe_rd_items_checked] TmmbItem_Parse_safe) auto

lemma Tmmbn_Parse_safe: "safe (Tmmbn_Parse h)"
  unfolding Tmmbn_Parse_def payload_size_def tmmb_consts
  by (intro safe_intros safe_bind [OF safe_rd_items_checked] TmmbItem_Parse_safe) auto

lemma Tmmb_items_written:
  assumes "list_all TmmbItem_valid (tmmb_items p)"
  shows "rd_items_checked 8 TmmbItem_Parse (Tmmbr_payload p) 8 (length (tmmb_items p)) =
      Some (Accepted (map TmmbItem_canon (tmmb_items p)))"
  using rd_items_checked_written [where rd = TmmbItem_Parse and w = TmmbItem_Create and f = TmmbItem_canon
      and len = 8 and xs = "tmmb_items p" and pre = "Rtpfb_CreateCommonFeedback p" and post = "[]"] assms
  by (simp add: TmmbItem_written Tmmbr_payload_def list_all_iff)

lemma Tmmb_feedback_written:
  "Rtpfb_ParseCommonFeedback (Tmmbr_payload p) = Some \<lparr>sender_ssrc = sender_ssrc p, media_ssrc = media_ssrc p\<rparr>"
  by (simp add: Tmmbr_payload_def wire_simps)

lemmas tmmb_written = Tmmb_payload_length Tmmb_items_written Tmmb_feedback_written Tmmb_canon_def
  Tmmb.defs Feedback.defs payload_size_def tmmb_consts

interpretation tmmbr: rtcp_codec Tmmbr_BlockLength Tmmbr_body Tmmbr_Parse Rtpfb_kPacketType Tmmb_valid Tmmb_canon
proof (rule rtcp_codec_block [OF Tmmbr_body_def _ _ _ Tmmbr_Parse_safe])
  fix p :: Tmmb and rest
  assume "Tmmb_valid p"
  then have "0 < length (tmmb_items p)" "list_all TmmbItem_valid (tmmb_items p)" by (simp_all add: Tmmb_valid_def)
  then show "Tmmbr_Parse \<lparr>ch_packet_type = Rtpfb_kPacketType, ch_count_or_format = of_nat Tmmbr_kFeedbackMessageType,
      ch_padding_size = 0, ch_payload = Tmmbr_payload p, ch_next = rest\<rparr> = Some (Accepted (Tmmb_canon p))"
    by (simp add: Tmmbr_Parse_def tmmb_written)
qed (auto simp: Tmmb_payload_length Tmmbr_BlockLength_def Tmmb_valid_def tmmb_consts)

definition Tmmbn_valid :: "Tmmb \<Rightarrow> bool" where
  "Tmmbn_valid p \<longleftrightarrow> length (tmmb_items p) < 32767 \<and> list_all TmmbItem_valid (tmmb_items p)"

interpretation tmmbn: rtcp_codec Tmmbn_BlockLength Tmmbn_body Tmmbn_Parse Rtpfb_kPacketType Tmmbn_valid Tmmb_canon
proof (rule rtcp_codec_block [OF Tmmbn_body_def _ _ _ Tmmbn_Parse_safe])
  fix p :: Tmmb and rest
  assume "Tmmbn_valid p"
  then have "list_all TmmbItem_valid (tmmb_items p)" by (simp add: Tmmbn_valid_def)
  then show "Tmmbn_Parse \<lparr>ch_packet_type = Rtpfb_kPacketType, ch_count_or_format = of_nat Tmmbn_kFeedbackMessageType,
      ch_padding_size = 0, ch_payload = Tmmbn_payload p, ch_next = rest\<rparr> = Some (Accepted (Tmmb_canon p))"
    by (simp add: Tmmbn_Parse_def tmmb_written)
qed (auto simp: Tmmb_payload_length Tmmbn_BlockLength_def Tmmbn_valid_def tmmb_consts)

section \<open>Remb\<close>

record Remb = Feedback +
  remb_bitrate_bps :: int
  remb_ssrcs :: "u32 list"

definition Remb_kUniqueIdentifier :: u32 where
  "Remb_kUniqueIdentifier = 0x52454D42"

definition Remb_kMaxNumberOfSsrcs :: nat where
  "Remb_kMaxNumberOfSsrcs = 0xff"

lemmas remb_consts = Remb_kUniqueIdentifier_def Remb_kMaxNumberOfSsrcs_def feedback_consts

text \<open>The bitrate of \<open>payload[13..16)\<close>, or \<open>None\<close> where \<open>Parse\<close> answers \<open>false\<close> for it.\<close>

definition Remb_decode_bitrate :: "u8 \<Rightarrow> u16 \<Rightarrow> int option" where
  "Remb_decode_bitrate b13 lo =
     (let exponent = drop_bit 2 b13;
          mantissa = (push_bit 16 (ucast (b13 AND 3)) OR ucast lo :: u64);
          bitrate_bps = sint (push_bit (unat exponent) mantissa);
          shift_overflow = (drop_bit (unat exponent) (word_of_int bitrate_bps :: u64) \<noteq> mantissa)
      in if bitrate_bps < 0 \<or> shift_overflow then None else Some bitrate_bps)"

definition Remb_Parse :: "CommonHeader \<Rightarrow> Remb outcome option" where
  "Remb_Parse packet =
     (if payload_size packet < 16 then Some Rejected
      else do {
        uid \<leftarrow> rd32 (ch_payload packet) 8;
        if Remb_kUniqueIdentifier \<noteq> uid then Some Rejected
        else do {
          number_of_ssrcs \<leftarrow> rd8 (ch_payload packet) 12;
          if payload_size packet \<noteq> kCommonFeedbackLength + (2 + unat number_of_ssrcs) * 4 then Some Rejected
          else do {
            fb \<leftarrow> Psfb_ParseCommonFeedback (ch_payload packet);
            b13 \<leftarrow> rd8 (ch_payload packet) 13;
            lo \<leftarrow> rd16 (ch_payload packet) 14;
            case Remb_decode_bitrate b13 lo of
              None \<Rightarrow> Some Rejected
            | Some bitrate_bps \<Rightarrow> do {
                ssrcs \<leftarrow> rd_items 4 rd32 (ch_payload packet) 16 (unat number_of_ssrcs);
                Some (Accepted (Feedback.extend fb (Remb.fields bitrate_bps ssrcs)))
              }
          }
        }
      })"

definition Remb_SetSsrcs :: "u32 list \<Rightarrow> Remb \<Rightarrow> bool \<times> Remb" where
  "Remb_SetSsrcs ssrcs p =
     (if length ssrcs > Remb_kMaxNumberOfSsrcs then (False, p) else (True, p\<lparr>remb_ssrcs := ssrcs\<rparr>))"

definition Remb_BlockLength :: "Remb \<Rightarrow> nat" where
  "Remb_BlockLength p = kHeaderSizeBytes + kCommonFeedbackLength + (2 + length (remb_ssrcs p)) * 4"

definition Remb_payload :: "Remb \<Rightarrow> bytes" where
  "Remb_payload p =
     (let (mantissa, exponenta) = mantissa_loop 0x3ffff (unat (word_of_int (remb_bitrate_bps p) :: u64)) 0
      in Psfb_CreateCommonFeedback p @
         WriteBigEndian4 Remb_kUniqueIdentifier @
         [of_nat (length (remb_ssrcs p)), of_nat (push_bit 2 exponenta OR drop_bit 16 mantissa)] @
         WriteBigEndian2 (of_nat (mantissa AND 0xffff)) @
         concat (map WriteBigEndian4 (remb_ssrcs p)))"

definition Remb_body :: "Remb \<Rightarrow> bytes" where
  "Remb_body p = CreateHeader kAfbMessageType Psfb_kPacketType (HeaderLength (Remb_BlockLength p)) @ Remb_payload p"

definition Remb_Create :: "Remb \<Rightarrow> nat \<Rightarrow> wbuf \<Rightarrow> bool \<times> wbuf" where
  "Remb_Create p = create_block (Remb_BlockLength p) (Remb_body p)"

definition Remb_valid :: "Remb \<Rightarrow> bool" where
  "Remb_valid p \<longleftrightarrow> 0 \<le> remb_bitrate_bps p \<and> remb_bitrate_bps p < 2 ^ 63 \<and>
     length (remb_ssrcs p) \<le> Remb_kMaxNumberOfSsrcs"

definition Remb_canon :: "Remb \<Rightarrow> Remb" where
  "Remb_canon p = p\<lparr>remb_bitrate_bps := int (rounded 17 (nat (remb_bitrate_bps p)))\<rparr>"

lemma Remb_SetSsrcs_valid: "Remb_valid p \<Longrightarrow> Remb_valid (snd (Remb_SetSsrcs ssrcs p))"
  by (auto simp: Remb_SetSsrcs_def Remb_valid_def)

lemma remb_fields:
  assumes "e < 64" and "m < 2 ^ 18"
  defines "b13 \<equiv> of_nat (push_bit 2 e OR drop_bit 16 m) :: u8"
  shows "drop_bit 2 b13 = of_nat e"
    and "(push_bit 16 (ucast (b13 AND 3)) OR ucast (of_nat (m AND 0xffff) :: u16) :: u64) = of_nat m"
proof -
  have b: "bit e k \<Longrightarrow> k < 6" "bit m k \<Longrightarrow> k < 18" for k
    using bit_less_exp [of e 6 k] bit_less_exp [of m 18 k] assms(1,2) by auto
  have k: "(3 :: u8) = mask 2" "(0xffff :: nat) = mask 16" by (simp_all add: mask_eq_exp_minus_1)
  have c: "bit b13 k \<longleftrightarrow> k < 8 \<and> (2 \<le> k \<and> bit e (k - 2) \<or> bit m (16 + k))" for k
    by (auto simp: b13_def bit_simps)
  show "drop_bit 2 b13 = of_nat e"
    by (rule bit_word_eqI) (auto simp: bit_simps c dest: b)
  show "(push_bit 16 (ucast (b13 AND 3)) OR ucast (of_nat (m AND 0xffff) :: u16) :: u64) = of_nat m"
  proof (rule bit_word_eqI)
    fix n
    assume n: "n < LENGTH(64)"
    show "bit (push_bit 16 (ucast (b13 AND 3)) OR ucast (of_nat (m AND 0xffff) :: u16) :: u64) n = bit (of_nat m :: u64) n"
      unfolding k using n b(1) [of "n - 18"] b(2) [of n]
      by (cases "n < 16") (auto simp: bit_simps c le_add_diff_inverse2 dest: b)
  qed
qed

lemma sint_of_nat_u64: "n < 2 ^ 63 \<Longrightarrow> sint (of_nat n :: u64) = int n"
  by (simp add: signed_of_nat signed_take_bit_int_eq_self)

lemma Remb_decode_bitrate_written:
  assumes "e < 64" and "m < 2 ^ 18" and "m * 2 ^ e < 2 ^ 63"
  shows "Remb_decode_bitrate (of_nat (push_bit 2 e OR drop_bit 16 m)) (of_nat (m AND 0xffff)) = Some (int (m * 2 ^ e))"
proof -
  have "m * 2 ^ e < 2 ^ 64" using assms(3) by simp
  note s = shift_back [OF this] and si = sint_of_nat_u64 [OF assms(3)]
  have u: "unat (of_nat e :: u8) = e" using assms(1) by (simp add: unat_of_nat_u8)
  show ?thesis
    unfolding Remb_decode_bitrate_def Let_def remb_fields [OF assms(1,2)] u s si of_int_of_nat_eq
    by (simp del: of_nat_mult of_nat_power)
qed

lemma Remb_payload_length: "length (Remb_payload p) = 16 + 4 * length (remb_ssrcs p)"
  by (simp add: Remb_payload_def length_concat_uniform split: prod.split)

lemma Remb_Parse_safe: "safe (Remb_Parse h)"
  unfolding Remb_Parse_def payload_size_def remb_consts
  by (intro safe_intros safe_case_option safe_bind [OF safe_rd_items]) auto

lemma Remb_parse_written:
  assumes "Remb_valid p"
  shows "Remb_Parse \<lparr>ch_packet_type = pt, ch_count_or_format = cf,
      ch_padding_size = 0, ch_payload = Remb_payload p, ch_next = rest\<rparr> = Some (Accepted (Remb_canon p))"
proof -
  let ?v = "nat (remb_bitrate_bps p)" and ?n = "length (remb_ssrcs p)"
  let ?m = "mant 17 ?v" and ?e = "expo 17 ?v"
  have v: "?v < 2 ^ 63" and n: "?n < 256"
    using assms by (auto simp: Remb_valid_def remb_consts)
  have u: "unat (word_of_int (remb_bitrate_bps p) :: u64) = ?v"
    using assms by (simp add: Remb_valid_def unsigned_of_int take_bit_int_eq_self)
  have e: "?e < 64" using expo_bound [OF v, of 17] by simp
  have m: "?m < 2 ^ 18" using mant_expo(2) [of 17 ?v] by simp
  have r: "?m * 2 ^ ?e < 2 ^ 63" using rounded_bounds(1) [of 17 ?v] v by (simp add: rounded_def)
  define b13 :: u8 where "b13 = of_nat (push_bit 2 ?e OR drop_bit 16 ?m)"
  define lo :: u16 where "lo = of_nat (?m AND 0xffff)"
  note f = Remb_decode_bitrate_written [OF e m r, folded b13_def lo_def]
  have "mantissa_loop 0x3ffff ?v 0 = (?m, ?e)" by (simp add: mant_def expo_def)
  then have bytes: "Remb_payload p = Psfb_CreateCommonFeedback p @ WriteBigEndian4 Remb_kUniqueIdentifier @
      of_nat ?n # b13 # WriteBigEndian2 lo @ concat (map WriteBigEndian4 (remb_ssrcs p))"
    by (simp add: Remb_payload_def u b13_def lo_def)
  have ssrcs: "rd_items 4 rd32 (Remb_payload p) 16 ?n = Some (remb_ssrcs p)"
    using rd_items_written [where rd = rd32 and w = WriteBigEndian4 and f = id and len = 4 and post = "[]"
        and xs = "remb_ssrcs p" and pre = "Psfb_CreateCommonFeedback p @ WriteBigEndian4 Remb_kUniqueIdentifier @
      of_nat ?n # b13 # WriteBigEndian2 lo"]
    by (simp add: bytes wire_simps)
  have rd: "rd32 (Remb_payload p) 8 = Some Remb_kUniqueIdentifier" "rd8 (Remb_payload p) 12 = Some (of_nat ?n)"
    "rd8 (Remb_payload p) 13 = Some b13" "rd16 (Remb_payload p) 14 = Some lo"
    "Psfb_ParseCommonFeedback (Remb_payload p) = Some \<lparr>sender_ssrc = sender_ssrc p, media_ssrc = media_ssrc p\<rparr>"
    by (simp_all add: bytes wire_simps)
  have "unat (of_nat ?n :: u8) = ?n" using n by (simp add: unat_of_nat_u8)
  then show ?thesis
    by (simp add: Remb_Parse_def payload_size_def Remb_payload_length feedback_consts
        rd f ssrcs Remb_canon_def rounded_def Remb.defs Feedback.defs)
qed

interpretation remb: rtcp_codec Remb_BlockLength Remb_body Remb_Parse Psfb_kPacketType Remb_valid Remb_canon
proof (rule rtcp_codec_block [OF Remb_body_def _ _ _ Remb_Parse_safe])
  fix p :: Remb and rest
  assume "Remb_valid p"
  then show "Remb_Parse \<lparr>ch_packet_type = Psfb_kPacketType, ch_count_or_format = of_nat kAfbMessageType,
      ch_padding_size = 0, ch_payload = Remb_payload p, ch_next = rest\<rparr> = Some (Accepted (Remb_canon p))"
    by (rule Remb_parse_written)
qed (auto simp: Remb_payload_length Remb_BlockLength_def Remb_valid_def remb_consts)

section \<open>What a bitrate message delivers\<close>

text \<open>
  C23: A REMB message built from a non-negative 64-bit bitrate and at most 255 SSRCs parses back to
  the same SSRCs and to a bitrate that is never larger than the one sent and smaller by at most one
  part in 2^17.
\<close>

theorem remb_roundtrip:
  assumes "0 \<le> remb_bitrate_bps p" and "remb_bitrate_bps p < 2 ^ 63" and "length (remb_ssrcs p) \<le> 255"
  shows "\<exists>q. parse_block Remb_Parse (Build (Remb_BlockLength p) (Remb_Create p)) = Some (Accepted (q, [])) \<and>
    sender_ssrc q = sender_ssrc p \<and> remb_ssrcs q = remb_ssrcs p \<and>
    remb_bitrate_bps q \<le> remb_bitrate_bps p \<and>
    (remb_bitrate_bps p - remb_bitrate_bps q) * 2 ^ 17 \<le> remb_bitrate_bps p"
proof -
  let ?v = "nat (remb_bitrate_bps p)"
  have valid: "Remb_valid p" using assms by (simp add: Remb_valid_def remb_consts)
  have v: "int ?v = remb_bitrate_bps p" using assms(1) by simp
  have "int ((?v - rounded 17 ?v) * 2 ^ 17) \<le> int ?v"
    using rounded_error [of ?v 17] unfolding of_nat_le_iff .
  moreover have "int (?v - rounded 17 ?v) = remb_bitrate_bps p - int (rounded 17 ?v)"
    using rounded_bounds(1) [of 17 ?v] v by (simp add: of_nat_diff)
  ultimately have err: "(remb_bitrate_bps p - int (rounded 17 ?v)) * 2 ^ 17 \<le> remb_bitrate_bps p"
    unfolding of_nat_mult v by simp
  have "int (rounded 17 ?v) \<le> remb_bitrate_bps p" using rounded_bounds(1) [of 17 ?v] v by linarith
  with err show ?thesis
    using remb.Build_roundtrip(2) [OF valid]
    by (intro exI [of _ "Remb_canon p"]) (simp add: Remb_Create_def Remb_canon_def)
qed

theorem remb_roundtrip_witness:
  "\<exists>q. parse_block Remb_Parse (Build (Remb_BlockLength
        \<lparr>sender_ssrc = 7, media_ssrc = 0, remb_bitrate_bps = 987654321, remb_ssrcs = [11, 12]\<rparr>)
      (Remb_Create \<lparr>sender_ssrc = 7, media_ssrc = 0, remb_bitrate_bps = 987654321, remb_ssrcs = [11, 12]\<rparr>)) =
      Some (Accepted (q, [])) \<and> remb_ssrcs q = [11, 12] \<and>
    remb_bitrate_bps q \<le> 987654321 \<and> (987654321 - remb_bitrate_bps q) * 2 ^ 17 \<le> 987654321"
  using remb_roundtrip [of "\<lparr>sender_ssrc = 7, media_ssrc = 0, remb_bitrate_bps = 987654321, remb_ssrcs = [11, 12]\<rparr>"]
  by auto

text \<open>
  C24: Every item of a TMMBR or TMMBN message whose overhead fits its 9 bits parses back, whatever
  its 64-bit bitrate, with the same SSRC and overhead and a bitrate that is never larger than the one
  sent and smaller by at most one part in 2^16; a bitrate below 2^17 is transmitted exactly.
\<close>

theorem tmmb_item_roundtrip:
  assumes "unat (tmmb_packet_overhead item) \<le> 0x1ff"
  shows "\<exists>q. TmmbItem_Parse (TmmbItem_Create item) 0 = Some (Accepted q) \<and>
    tmmb_ssrc q = tmmb_ssrc item \<and> tmmb_packet_overhead q = tmmb_packet_overhead item \<and>
    unat (tmmb_bitrate_bps q) \<le> unat (tmmb_bitrate_bps item) \<and>
    (unat (tmmb_bitrate_bps item) - unat (tmmb_bitrate_bps q)) * 2 ^ 16 \<le> unat (tmmb_bitrate_bps item) \<and>
    (unat (tmmb_bitrate_bps item) < 2 ^ 17 \<longrightarrow> q = item)"
proof -
  let ?v = "unat (tmmb_bitrate_bps item)"
  have u: "unat (of_nat (rounded 16 ?v) :: u64) = rounded 16 ?v"
    using rounded_bounds(1) [of 16 ?v] unat_u64_lt [of "tmmb_bitrate_bps item"] by (simp add: unat_of_nat)
  have "?v < 2 ^ 17 \<Longrightarrow> rounded 16 ?v = ?v" using rounded_idem_if_small [of ?v 16] by simp
  then have small: "?v < 2 ^ 17 \<longrightarrow> TmmbItem_canon item = item" by (simp add: TmmbItem_canon_def)
  show ?thesis
    using TmmbItem_written [of item "[]" "[]"] assms u rounded_bounds(1) [of 16 ?v] rounded_error [of ?v 16] small
    by (intro exI [of _ "TmmbItem_canon item"]) (simp add: TmmbItem_valid_def TmmbItem_canon_def)
qed

theorem tmmb_item_roundtrip_witness:
  "\<exists>q. TmmbItem_Parse (TmmbItem_Create \<lparr>tmmb_ssrc = 9, tmmb_bitrate_bps = 123456789, tmmb_packet_overhead = 40\<rparr>) 0 =
      Some (Accepted q) \<and> tmmb_ssrc q = 9 \<and> tmmb_packet_overhead q = 40 \<and>
    unat (tmmb_bitrate_bps q) \<le> 123456789"
  using tmmb_item_roundtrip [of "\<lparr>tmmb_ssrc = 9, tmmb_bitrate_bps = 123456789, tmmb_packet_overhead = 40\<rparr>"]
  by auto

end
