(* ===== verification/Rtcp_Reports.thy ===== *)
theory Rtcp_Reports
  imports Rtcp_Feedback
begin

text \<open>
  Report blocks, receiver reports and sender reports (\<open>rtcp_packet/report_block.cc\<close>,
  \<open>receiver_report.cc\<close>, \<open>sender_report.cc\<close>), with the 64-bit NTP time of
  \<open>system_wrappers/include/ntp_time.h\<close>. The cumulative loss is a signed 24-bit value on the wire.
\<close>

unbundle bit_operations_syntax

section \<open>NtpTime\<close>

type_synonym NtpTime = u64

definition kFractionsPerSecond :: u64 where
  "kFractionsPerSecond = 0x100000000"

definition NtpTime_Set :: "u32 \<Rightarrow> u32 \<Rightarrow> NtpTime" where
  "NtpTime_Set seconds fractions = ucast seconds * kFractionsPerSecond + ucast fractions"

definition NtpTime_Valid :: "NtpTime \<Rightarrow> bool" where
  "NtpTime_Valid v \<longleftrightarrow> v \<noteq> 0"

definition NtpTime_seconds :: "NtpTime \<Rightarrow> u32" where
  "NtpTime_seconds v = ucast (v div kFractionsPerSecond)"

definition NtpTime_fractions :: "NtpTime \<Rightarrow> u32" where
  "NtpTime_fractions v = ucast (v mod kFractionsPerSecond)"

lemma NtpTime_parts [simp]: "NtpTime_Set (NtpTime_seconds v) (NtpTime_fractions v) = v"
proof -
  have u: "unat (v div kFractionsPerSecond) < 2 ^ 32" "unat (v mod kFractionsPerSecond) < 2 ^ 32"
    using unat_u64_lt [of v]
    by (simp_all add: unat_div_distrib unat_mod_distrib kFractionsPerSecond_def less_mult_imp_div_less)
  have re: "ucast (ucast w :: u32) = w" if "unat w < 2 ^ 32" for w :: u64
    using that by (simp add: word_unat_eq_iff take_bit_nat_eq_self unsigned_ucast_eq unsigned_take_bit_eq)
  show ?thesis
    unfolding NtpTime_Set_def NtpTime_seconds_def NtpTime_fractions_def re [OF u(1)] re [OF u(2)]
    by (rule div_mult_mod_eq)
qed

lemma NtpTime_Set_parts:
  "NtpTime_seconds (NtpTime_Set s f) = s" "NtpTime_fractions (NtpTime_Set s f) = f"
proof -
  have lt: "unat s < 2 ^ 32" "unat f < 2 ^ 32"
    using unsigned_less [of s, where 'a = nat] unsigned_less [of f, where 'a = nat] by simp_all
  have "unat (NtpTime_Set s f) = unat s * 2 ^ 32 + unat f"
    using lt by (simp add: NtpTime_Set_def kFractionsPerSecond_def unat_word_ariths unsigned_ucast_eq take_bit_nat_eq_self)
  then show "NtpTime_seconds (NtpTime_Set s f) = s" "NtpTime_fractions (NtpTime_Set s f) = f"
    using lt by (simp_all add: NtpTime_seconds_def NtpTime_fractions_def kFractionsPerSecond_def word_unat_eq_iff
        unat_div_distrib unat_mod_distrib unsigned_ucast_eq take_bit_nat_eq_self)
qed

section \<open>ReportBlock\<close>

record ReportBlock =
  source_ssrc :: u32
  fraction_lost :: u8
  cumulative_lost :: int
  extended_high_seq_num :: u32
  jitter :: u32
  last_sr :: u32
  delay_since_last_sr :: u32

definition ReportBlock_kLength :: nat where
  "ReportBlock_kLength = 24"

definition ReportBlock_init :: ReportBlock where
  "ReportBlock_init = \<lparr>source_ssrc = 0, fraction_lost = 0, cumulative_lost = 0, extended_high_seq_num = 0,
     jitter = 0, last_sr = 0, delay_since_last_sr = 0\<rparr>"

definition ReportBlock_Parse :: "bytes \<Rightarrow> nat \<Rightarrow> nat \<Rightarrow> ReportBlock outcome option" where
  "ReportBlock_Parse buffer off len =
     (if len < ReportBlock_kLength then Some Rejected
      else do {
        ssrc \<leftarrow> rd32 buffer off;
        fraction \<leftarrow> rd8 buffer (off + 4);
        cumulative \<leftarrow> rd_s24 buffer (off + 5);
        high \<leftarrow> rd32 buffer (off + 8);
        jit \<leftarrow> rd32 buffer (off + 12);
        lsr \<leftarrow> rd32 buffer (off + 16);
        dlsr \<leftarrow> rd32 buffer (off + 20);
        Some (Accepted \<lparr>source_ssrc = ssrc, fraction_lost = fraction, cumulative_lost = cumulative,
          extended_high_seq_num = high, jitter = jit, last_sr = lsr, delay_since_last_sr = dlsr\<rparr>)
      })"

definition ReportBlock_Create :: "ReportBlock \<Rightarrow> bytes" where
  "ReportBlock_Create b =
     WriteBigEndian4 (source_ssrc b) @
     WriteBigEndian1 (fraction_lost b) @
     WriteBigEndian_signed 3 TYPE(32) (cumulative_lost b) @
     WriteBigEndian4 (extended_high_seq_num b) @
     WriteBigEndian4 (jitter b) @
     WriteBigEndian4 (last_sr b) @
     WriteBigEndian4 (delay_since_last_sr b)"

definition ReportBlock_SetCumulativeLost :: "int \<Rightarrow> ReportBlock \<Rightarrow> bool \<times> ReportBlock" where
  "ReportBlock_SetCumulativeLost lost b =
     (if lost \<ge> 2 ^ 23 \<or> lost < - (2 ^ 23) then (False, b) else (True, b\<lparr>cumulative_lost := lost\<rparr>))"

definition ReportBlock_valid :: "ReportBlock \<Rightarrow> bool" where
  "ReportBlock_valid b \<longleftrightarrow> - (2 ^ 23) \<le> cumulative_lost b \<and> cumulative_lost b < 2 ^ 23"

lemma ReportBlock_init_valid: "ReportBlock_valid ReportBlock_init"
  by (simp add: ReportBlock_valid_def ReportBlock_init_def)

lemma ReportBlock_SetCumulativeLost_valid:
  "ReportBlock_valid b \<Longrightarrow> ReportBlock_valid (snd (ReportBlock_SetCumulativeLost lost b))"
  by (auto simp: ReportBlock_SetCumulativeLost_def ReportBlock_valid_def)

lemma ReportBlock_Create_length [simp]: "length (ReportBlock_Create b) = 24"
  by (simp add: ReportBlock_Create_def)

lemma rd_s24_write' [wire_simps]:
  "- (2 ^ 23) \<le> x \<Longrightarrow> x < 2 ^ 23 \<Longrightarrow>
    rd_s24 (WriteBigEndian_signed 3 TYPE(32) x @ rest) 0 = Some x"
  by (rule rd_s24_write)

lemma ReportBlock_written:
  assumes "ReportBlock_valid b" and "24 \<le> n"
  shows "ReportBlock_Parse (pre @ ReportBlock_Create b @ post) (length pre) n = Some (Accepted b)"
  using assms
  by (simp add: ReportBlock_Parse_def ReportBlock_Create_def ReportBlock_kLength_def ReportBlock_valid_def
      WriteBigEndian1_def wire_simps)

lemma ReportBlock_Parse_safe: "off + n \<le> length p \<Longrightarrow> safe (ReportBlock_Parse p off n)"
  unfolding ReportBlock_Parse_def ReportBlock_kLength_def by (intro safe_intros) simp_all

text \<open>One turn of the loop over report blocks; the answer of \<open>Parse\<close> is not looked at.\<close>

definition rd_report_block :: "bytes \<Rightarrow> nat \<Rightarrow> ReportBlock option" where
  "rd_report_block p off = do {
     r \<leftarrow> ReportBlock_Parse p off ReportBlock_kLength;
     case r of Rejected \<Rightarrow> Some ReportBlock_init | Accepted b \<Rightarrow> Some b
   }"

lemma rd_report_block_written:
  "ReportBlock_valid b \<Longrightarrow> rd_report_block (pre @ ReportBlock_Create b @ post) (length pre) = Some b"
  by (simp add: rd_report_block_def ReportBlock_written ReportBlock_kLength_def)

lemma rd_report_block_safe: "off + 24 \<le> length p \<Longrightarrow> safe (rd_report_block p off)"
  unfolding rd_report_block_def ReportBlock_kLength_def
  by (intro safe_bind ReportBlock_Parse_safe safe_intros) simp_all

section \<open>ReceiverReport\<close>

record ReceiverReport = RtcpPacket +
  rr_report_blocks :: "ReportBlock list"

definition ReceiverReport_kPacketType :: u8 where
  "ReceiverReport_kPacketType = 201"

definition kMaxNumberOfReportBlocks :: nat where
  "kMaxNumberOfReportBlocks = 0x1f"

definition kRrBaseLength :: nat where
  "kRrBaseLength = 4"

lemmas rr_consts = ReceiverReport_kPacketType_def kMaxNumberOfReportBlocks_def kRrBaseLength_def
  ReportBlock_kLength_def kHeaderSizeBytes_def

definition ReceiverReport_Parse :: "CommonHeader \<Rightarrow> ReceiverReport outcome option" where
  "ReceiverReport_Parse packet =
     (let report_blocks_count = unat (ch_count_or_format packet)
      in if payload_size packet < kRrBaseLength + report_blocks_count * ReportBlock_kLength then Some Rejected
         else do {
           ssrc \<leftarrow> rd32 (ch_payload packet) 0;
           blocks \<leftarrow> rd_items ReportBlock_kLength rd_report_block (ch_payload packet) kRrBaseLength report_blocks_count;
           Some (Accepted \<lparr>sender_ssrc = ssrc, rr_report_blocks = blocks\<rparr>)
         })"

definition ReceiverReport_BlockLength :: "ReceiverReport \<Rightarrow> nat" where
  "ReceiverReport_BlockLength p =
     kHeaderSizeBytes + kRrBaseLength + length (rr_report_blocks p) * ReportBlock_kLength"

definition ReceiverReport_payload :: "ReceiverReport \<Rightarrow> bytes" where
  "ReceiverReport_payload p =
     WriteBigEndian4 (sender_ssrc p) @ concat (map ReportBlock_Create (rr_report_blocks p))"

definition ReceiverReport_body :: "ReceiverReport \<Rightarrow> bytes" where
  "ReceiverReport_body p =
     CreateHeader (length (rr_report_blocks p)) ReceiverReport_kPacketType
       (HeaderLength (ReceiverReport_BlockLength p)) @
     ReceiverReport_payload p"

definition ReceiverReport_Create :: "ReceiverReport \<Rightarrow> nat \<Rightarrow> wbuf \<Rightarrow> bool \<times> wbuf" where
  "ReceiverReport_Create p = create_block (ReceiverReport_BlockLength p) (ReceiverReport_body p)"

definition ReceiverReport_AddReportBlock :: "ReportBlock \<Rightarrow> ReceiverReport \<Rightarrow> bool \<times> ReceiverReport" where
  "ReceiverReport_AddReportBlock block p =
     (if length (rr_report_blocks p) \<ge> kMaxNumberOfReportBlocks then (False, p)
      else (True, p\<lparr>rr_report_blocks := rr_report_blocks p @ [block]\<rparr>))"

definition ReceiverReport_SetReportBlocks :: "ReportBlock list \<Rightarrow> ReceiverReport \<Rightarrow> bool \<times> ReceiverReport" where
  "ReceiverReport_SetReportBlocks blocks p =
     (if length blocks > kMaxNumberOfReportBlocks then (False, p) else (True, p\<lparr>rr_report_blocks := blocks\<rparr>))"

definition ReceiverReport_valid :: "ReceiverReport \<Rightarrow> bool" where
  "ReceiverReport_valid p \<longleftrightarrow>
     length (rr_report_blocks p) \<le> kMaxNumberOfReportBlocks \<and> list_all ReportBlock_valid (rr_report_blocks p)"

lemma ReceiverReport_ops_valid:
  "ReceiverReport_valid p \<Longrightarrow> ReportBlock_valid b \<Longrightarrow> ReceiverReport_valid (snd (ReceiverReport_AddReportBlock b p))"
  "ReceiverReport_valid p \<Longrightarrow> list_all ReportBlock_valid bs \<Longrightarrow>
    ReceiverReport_valid (snd (ReceiverReport_SetReportBlocks bs p))"
  by (auto simp: ReceiverReport_valid_def ReceiverReport_AddReportBlock_def ReceiverReport_SetReportBlocks_def)

lemma ReceiverReport_payload_length: "length (ReceiverReport_payload p) = 4 + 24 * length (rr_report_blocks p)"
  by (simp add: ReceiverReport_payload_def length_concat_uniform)

lemma ReceiverReport_Parse_safe: "safe (ReceiverReport_Parse h)"
  unfolding ReceiverReport_Parse_def payload_size_def rr_consts
  by (intro safe_intros safe_bind [OF safe_rd_items] rd_report_block_safe) auto

interpretation rr: rtcp_codec ReceiverReport_BlockLength ReceiverReport_body ReceiverReport_Parse
  ReceiverReport_kPacketType ReceiverReport_valid id
proof (rule rtcp_codec_block [OF ReceiverReport_body_def _ _ _ ReceiverReport_Parse_safe])
  fix p :: ReceiverReport and rest
  assume v: "ReceiverReport_valid p"
  let ?n = "length (rr_report_blocks p)"
  have n: "unat (of_nat ?n :: u8) = ?n"
    using v by (simp add: unat_of_nat_u8 ReceiverReport_valid_def kMaxNumberOfReportBlocks_def)
  have blocks: "rd_items 24 rd_report_block (ReceiverReport_payload p) 4 ?n = Some (rr_report_blocks p)"
    using rd_items_written [where rd = rd_report_block and w = ReportBlock_Create and f = id and len = 24
        and xs = "rr_report_blocks p" and pre = "WriteBigEndian4 (sender_ssrc p)" and post = "[]"] v
    by (simp add: rd_report_block_written ReceiverReport_payload_def ReceiverReport_valid_def list_all_iff)
  have ssrc: "rd32 (ReceiverReport_payload p) 0 = Some (sender_ssrc p)"
    by (simp add: ReceiverReport_payload_def wire_simps)
  show "ReceiverReport_Parse \<lparr>ch_packet_type = ReceiverReport_kPacketType, ch_count_or_format = of_nat ?n,
      ch_padding_size = 0, ch_payload = ReceiverReport_payload p, ch_next = rest\<rparr> = Some (Accepted (id p))"
    by (simp add: ReceiverReport_Parse_def n blocks ssrc payload_size_def ReceiverReport_payload_length rr_consts)
qed (auto simp: ReceiverReport_payload_length ReceiverReport_BlockLength_def ReceiverReport_valid_def rr_consts)

section \<open>SenderReport\<close>

record SenderReport = RtcpPacket +
  sr_ntp :: NtpTime
  sr_rtp_timestamp :: u32
  sr_sender_packet_count :: u32
  sr_sender_octet_count :: u32
  sr_report_blocks :: "ReportBlock list"

definition SenderReport_kPacketType :: u8 where
  "SenderReport_kPacketType = 200"

definition kSenderBaseLength :: nat where
  "kSenderBaseLength = 24"

lemmas sr_consts = SenderReport_kPacketType_def kMaxNumberOfReportBlocks_def kSenderBaseLength_def
  ReportBlock_kLength_def kHeaderSizeBytes_def

definition SenderReport_Parse :: "CommonHeader \<Rightarrow> SenderReport outcome option" where
  "SenderReport_Parse packet =
     (let report_block_count = unat (ch_count_or_format packet)
      in if payload_size packet < kSenderBaseLength + report_block_count * ReportBlock_kLength then Some Rejected
         else do {
           ssrc \<leftarrow> rd32 (ch_payload packet) 0;
           secs \<leftarrow> rd32 (ch_payload packet) 4;
           frac \<leftarrow> rd32 (ch_payload packet) 8;
           rtp_timestamp \<leftarrow> rd32 (ch_payload packet) 12;
           packet_count \<leftarrow> rd32 (ch_payload packet) 16;
           octet_count \<leftarrow> rd32 (ch_payload packet) 20;
           blocks \<leftarrow> rd_items ReportBlock_kLength rd_report_block (ch_payload packet) kSenderBaseLength
             report_block_count;
           Some (Accepted \<lparr>sender_ssrc = ssrc, sr_ntp = NtpTime_Set secs frac, sr_rtp_timestamp = rtp_timestamp,
             sr_sender_packet_count = packet_count, sr_sender_octet_count = octet_count,
             sr_report_blocks = blocks\<rparr>)
         })"

definition SenderReport_BlockLength :: "SenderReport \<Rightarrow> nat" where
  "SenderReport_BlockLength p =
     kHeaderSizeBytes + kSenderBaseLength + length (sr_report_blocks p) * ReportBlock_kLength"

definition SenderReport_payload :: "SenderReport \<Rightarrow> bytes" where
  "SenderReport_payload p =
     WriteBigEndian4 (sender_ssrc p) @
     WriteBigEndian4 (NtpTime_seconds (sr_ntp p)) @
     WriteBigEndian4 (NtpTime_fractions (sr_ntp p)) @
     WriteBigEndian4 (sr_rtp_timestamp p) @
     WriteBigEndian4 (sr_sender_packet_count p) @
     WriteBigEndian4 (sr_sender_octet_count p) @
     concat (map ReportBlock_Create (sr_report_blocks p))"

definition SenderReport_body :: "SenderReport \<Rightarrow> bytes" where
  "SenderReport_body p =
     CreateHeader (length (sr_report_blocks p)) SenderReport_kPacketType (HeaderLength (SenderReport_BlockLength p)) @
     SenderReport_payload p"

definition SenderReport_Create :: "SenderReport \<Rightarrow> nat \<Rightarrow> wbuf \<Rightarrow> bool \<times> wbuf" where
  "SenderReport_Create p = create_block (SenderReport_BlockLength p) (SenderReport_body p)"

definition SenderReport_AddReportBlock :: "ReportBlock \<Rightarrow> SenderReport \<Rightarrow> bool \<times> SenderReport" where
  "SenderReport_AddReportBlock block p =
     (if length (sr_report_blocks p) \<ge> kMaxNumberOfReportBlocks then (False, p)
      else (True, p\<lparr>sr_report_blocks := sr_report_blocks p @ [block]\<rparr>))"

definition SenderReport_SetReportBlocks :: "ReportBlock list \<Rightarrow> SenderReport \<Rightarrow> bool \<times> SenderReport" where
  "SenderReport_SetReportBlocks blocks p =
     (if length blocks > kMaxNumberOfReportBlocks then (False, p) else (True, p\<lparr>sr_report_blocks := blocks\<rparr>))"

definition SenderReport_valid :: "SenderReport \<Rightarrow> bool" where
  "SenderReport_valid p \<longleftrightarrow>
     length (sr_report_blocks p) \<le> kMaxNumberOfReportBlocks \<and> list_all ReportBlock_valid (sr_report_blocks p)"

lemma SenderReport_ops_valid:
  "SenderReport_valid p \<Longrightarrow> ReportBlock_valid b \<Longrightarrow> SenderReport_valid (snd (SenderReport_AddReportBlock b p))"
  "SenderReport_valid p \<Longrightarrow> list_all ReportBlock_valid bs \<Longrightarrow>
    SenderReport_valid (snd (SenderReport_SetReportBlocks bs p))"
  by (auto simp: SenderReport_valid_def SenderReport_AddReportBlock_def SenderReport_SetReportBlocks_def)

lemma SenderReport_payload_length: "length (SenderReport_payload p) = 24 + 24 * length (sr_report_blocks p)"
  by (simp add: SenderReport_payload_def length_concat_uniform)

lemma SenderReport_Parse_safe: "safe (SenderReport_Parse h)"
  unfolding SenderReport_Parse_def payload_size_def sr_consts
  by (intro safe_intros safe_bind [OF safe_rd_items] rd_report_block_safe) auto

interpretation sr: rtcp_codec SenderReport_BlockLength SenderReport_body SenderReport_Parse
  SenderReport_kPacketType SenderReport_valid id
proof (rule rtcp_codec_block [OF SenderReport_body_def _ _ _ SenderReport_Parse_safe])
  fix p :: SenderReport and rest
  assume v: "SenderReport_valid p"
  let ?n = "length (sr_report_blocks p)"
  have n: "unat (of_nat ?n :: u8) = ?n"
    using v by (simp add: unat_of_nat_u8 SenderReport_valid_def kMaxNumberOfReportBlocks_def)
  have blocks: "rd_items 24 rd_report_block (SenderReport_payload p) 24 ?n = Some (sr_report_blocks p)"
    using rd_items_written [where rd = rd_report_block and w = ReportBlock_Create and f = id and len = 24
        and xs = "sr_report_blocks p" and post = "[]"
        and pre = "WriteBigEndian4 (sender_ssrc p) @ WriteBigEndian4 (NtpTime_seconds (sr_ntp p)) @
          WriteBigEndian4 (NtpTime_fractions (sr_ntp p)) @ WriteBigEndian4 (sr_rtp_timestamp p) @
          WriteBigEndian4 (sr_sender_packet_count p) @ WriteBigEndian4 (sr_sender_octet_count p)"] v
    by (simp add: rd_report_block_written SenderReport_payload_def SenderReport_valid_def list_all_iff)
  have rd: "rd32 (SenderReport_payload p) 0 = Some (sender_ssrc p)"
    "rd32 (SenderReport_payload p) 4 = Some (NtpTime_seconds (sr_ntp p))"
    "rd32 (SenderReport_payload p) 8 = Some (NtpTime_fractions (sr_ntp p))"
    "rd32 (SenderReport_payload p) 12 = Some (sr_rtp_timestamp p)"
    "rd32 (SenderReport_payload p) 16 = Some (sr_sender_packet_count p)"
    "rd32 (SenderReport_payload p) 20 = Some (sr_sender_octet_count p)"
    by (simp_all add: SenderReport_payload_def wire_simps)
  show "SenderReport_Parse \<lparr>ch_packet_type = SenderReport_kPacketType, ch_count_or_format = of_nat ?n,
      ch_padding_size = 0, ch_payload = SenderReport_payload p, ch_next = rest\<rparr> = Some (Accepted (id p))"
    by (simp add: SenderReport_Parse_def n blocks rd payload_size_def SenderReport_payload_length sr_consts)
qed (auto simp: SenderReport_payload_length SenderReport_BlockLength_def SenderReport_valid_def sr_consts)

section \<open>Main properties\<close>

text \<open>
  C25: A sender report with at most 31 report blocks, each with a cumulative loss of 24 bits, comes
  back from the wire unchanged, the signed loss and the NTP time included.
\<close>

theorem sender_report_roundtrip:
  assumes "SenderReport_valid p"
  shows "length (Build (SenderReport_BlockLength p) (SenderReport_Create p)) = SenderReport_BlockLength p \<and>
    parse_block SenderReport_Parse (Build (SenderReport_BlockLength p) (SenderReport_Create p)) = Some (Accepted (p, []))"
proof -
  have "SenderReport_Create p = create_block (SenderReport_BlockLength p) (SenderReport_body p)"
    by (simp add: SenderReport_Create_def fun_eq_iff)
  then show ?thesis using sr.Build_roundtrip [OF assms] by simp
qed

definition sender_report_example :: SenderReport where
  "sender_report_example = \<lparr>sender_ssrc = 1, sr_ntp = NtpTime_Set 2 3, sr_rtp_timestamp = 4, sr_sender_packet_count = 5,
     sr_sender_octet_count = 6, sr_report_blocks = [ReportBlock_init\<lparr>cumulative_lost := -3\<rparr>]\<rparr>"

theorem sender_report_roundtrip_witness:
  "parse_block SenderReport_Parse (Build (SenderReport_BlockLength sender_report_example)
     (SenderReport_Create sender_report_example)) = Some (Accepted (sender_report_example, []))"
proof -
  have "SenderReport_valid sender_report_example" by code_simp
  from sender_report_roundtrip [OF this] show ?thesis by blast
qed

end
