(* ===== verification/Rtcp_Misc.thy ===== *)
theory Rtcp_Misc
  imports Rtcp_Feedback Units
begin

text \<open>
  The remaining standard packets: BYE, SDES and APP (\<open>rtcp_packet/bye.cc\<close>, \<open>sdes.cc\<close>,
  \<open>app.cc\<close>), and the remote estimate carried in an APP packet (\<open>remote_estimate.cc\<close>). Strings
  are their bytes.
\<close>

unbundle bit_operations_syntax

section \<open>Bye\<close>

record Bye = RtcpPacket +
  bye_csrcs :: "u32 list"
  bye_reason :: bytes

definition Bye_kPacketType :: u8 where
  "Bye_kPacketType = 203"

definition Bye_kMaxNumberOfCsrcs :: nat where
  "Bye_kMaxNumberOfCsrcs = 0x1f - 1"

lemmas bye_consts = Bye_kPacketType_def Bye_kMaxNumberOfCsrcs_def kHeaderSizeBytes_def

text \<open>The three parts of \<open>Parse\<close>: the length of the reason, the sources, and the reason.\<close>

definition Bye_sources :: "bytes \<Rightarrow> nat \<Rightarrow> (u32 \<times> u32 list) option" where
  "Bye_sources payload src_count =
     (if src_count = 0 then Some (0, [])
      else do {
        ssrc \<leftarrow> rd32 payload 0;
        csrcs \<leftarrow> rd_items 4 rd32 payload 4 (src_count - 1);
        Some (ssrc, csrcs)
      })"

definition Bye_Parse :: "CommonHeader \<Rightarrow> Bye outcome option" where
  "Bye_Parse packet =
     (let src_count = unat (ch_count_or_format packet);
          payload = ch_payload packet
      in if payload_size packet < 4 * src_count then Some Rejected
         else if payload_size packet > 4 * src_count then do {
           reason_length \<leftarrow> rd8 payload (4 * src_count);
           if payload_size packet - 4 * src_count < 1 + unat reason_length then Some Rejected
           else do {
             src \<leftarrow> Bye_sources payload src_count;
             reason \<leftarrow> rd_bytes payload (4 * src_count + 1) (unat reason_length);
             Some (Accepted \<lparr>sender_ssrc = fst src, bye_csrcs = snd src, bye_reason = reason\<rparr>)
           }
         }
         else do {
           src \<leftarrow> Bye_sources payload src_count;
           Some (Accepted \<lparr>sender_ssrc = fst src, bye_csrcs = snd src, bye_reason = []\<rparr>)
         })"

definition Bye_BlockLength :: "Bye \<Rightarrow> nat" where
  "Bye_BlockLength p =
     (let src_count = 1 + length (bye_csrcs p);
          reason_size_in_32bits = (if bye_reason p = [] then 0 else length (bye_reason p) div 4 + 1)
      in kHeaderSizeBytes + 4 * (src_count + reason_size_in_32bits))"

definition Bye_payload :: "Bye \<Rightarrow> bytes" where
  "Bye_payload p =
     (let src = WriteBigEndian4 (sender_ssrc p) @ concat (map WriteBigEndian4 (bye_csrcs p))
      in if bye_reason p = [] then src
         else
           let reason_length = (of_nat (length (bye_reason p)) :: u8);
               text = src @ reason_length # take (unat reason_length) (bye_reason p);
               bytes_to_pad = Bye_BlockLength p - (kHeaderSizeBytes + length text)
           in text @ replicate bytes_to_pad 0)"

definition Bye_body :: "Bye \<Rightarrow> bytes" where
  "Bye_body p = CreateHeader (1 + length (bye_csrcs p)) Bye_kPacketType (HeaderLength (Bye_BlockLength p)) @ Bye_payload p"

definition Bye_Create :: "Bye \<Rightarrow> nat \<Rightarrow> wbuf \<Rightarrow> bool \<times> wbuf" where
  "Bye_Create p = create_block (Bye_BlockLength p) (Bye_body p)"

definition Bye_SetCsrcs :: "u32 list \<Rightarrow> Bye \<Rightarrow> bool \<times> Bye" where
  "Bye_SetCsrcs csrcs p =
     (if length csrcs > Bye_kMaxNumberOfCsrcs then (False, p) else (True, p\<lparr>bye_csrcs := csrcs\<rparr>))"

definition Bye_SetReason :: "bytes \<Rightarrow> Bye \<Rightarrow> Bye" where
  "Bye_SetReason reason p = p\<lparr>bye_reason := reason\<rparr>"

definition Bye_valid :: "Bye \<Rightarrow> bool" where
  "Bye_valid p \<longleftrightarrow> length (bye_csrcs p) \<le> Bye_kMaxNumberOfCsrcs \<and> length (bye_reason p) \<le> 0xff"

lemma Bye_ops_valid:
  "Bye_valid p \<Longrightarrow> Bye_valid (snd (Bye_SetCsrcs csrcs p))"
  "Bye_valid p \<Longrightarrow> length reason \<le> 0xff \<Longrightarrow> Bye_valid (Bye_SetReason reason p)"
  by (auto simp: Bye_valid_def Bye_SetCsrcs_def Bye_SetReason_def)

lemma Bye_sources_safe: "4 * n \<le> length p \<Longrightarrow> safe (Bye_sources p n)"
  unfolding Bye_sources_def by (intro safe_intros safe_bind [OF safe_rd_items]) auto

lemma Bye_Parse_safe: "safe (Bye_Parse h)"
  unfolding Bye_Parse_def payload_size_def
  by (intro safe_intros safe_bind [OF Bye_sources_safe]) auto

lemma Bye_sources_written:
  "Bye_sources (WriteBigEndian4 ssrc @ concat (map WriteBigEndian4 csrcs) @ rest) (Suc (length csrcs)) =
    Some (ssrc, csrcs)"
  using rd_items_written [where rd = rd32 and w = WriteBigEndian4 and f = id and len = 4 and post = rest
      and xs = csrcs and pre = "WriteBigEndian4 ssrc"]
  by (simp add: Bye_sources_def wire_simps)

lemma Bye_payload_reason:
  assumes "Bye_valid p" and "bye_reason p \<noteq> []"
  shows "\<exists>k. Bye_payload p = WriteBigEndian4 (sender_ssrc p) @ concat (map WriteBigEndian4 (bye_csrcs p)) @
      of_nat (length (bye_reason p)) # bye_reason p @ replicate k 0 \<and>
    Bye_BlockLength p = 4 + length (Bye_payload p)"
proof -
  have u: "unat (of_nat (length (bye_reason p)) :: u8) = length (bye_reason p)"
    using assms(1) by (simp add: unat_of_nat_u8 Bye_valid_def)
  let ?t = "WriteBigEndian4 (sender_ssrc p) @ concat (map WriteBigEndian4 (bye_csrcs p)) @
      of_nat (length (bye_reason p)) # bye_reason p"
  have t: "length ?t = 4 + 4 * length (bye_csrcs p) + 1 + length (bye_reason p)"
    by (simp add: length_concat_uniform)
  have le: "4 + length ?t \<le> Bye_BlockLength p"
    using assms(2) t by (simp add: Bye_BlockLength_def kHeaderSizeBytes_def)
  have "Bye_payload p = ?t @ replicate (Bye_BlockLength p - (4 + length ?t)) 0"
    using assms(2) u by (simp add: Bye_payload_def Let_def kHeaderSizeBytes_def)
  with le show ?thesis by (intro exI [of _ "Bye_BlockLength p - (4 + length ?t)"]) auto
qed

lemma Bye_payload_no_reason:
  "bye_reason p = [] \<Longrightarrow>
    Bye_payload p = WriteBigEndian4 (sender_ssrc p) @ concat (map WriteBigEndian4 (bye_csrcs p)) @ []"
  by (simp add: Bye_payload_def)

lemma Bye_BlockLength_payload: "Bye_valid p \<Longrightarrow> Bye_BlockLength p = 4 + length (Bye_payload p)"
  using Bye_payload_reason [of p] Bye_payload_no_reason [of p]
  by (cases "bye_reason p = []") (auto simp: Bye_BlockLength_def kHeaderSizeBytes_def length_concat_uniform)

lemma Bye_parse_written:
  assumes v: "Bye_valid p"
  shows "Bye_Parse \<lparr>ch_packet_type = pt, ch_count_or_format = of_nat (1 + length (bye_csrcs p)),
      ch_padding_size = pad, ch_payload = Bye_payload p, ch_next = rest\<rparr> = Some (Accepted p)"
proof -
  let ?n = "Suc (length (bye_csrcs p))"
  let ?s = "WriteBigEndian4 (sender_ssrc p) @ concat (map WriteBigEndian4 (bye_csrcs p))"
  have n: "unat (of_nat ?n :: u8) = ?n"
    using v by (intro unat_of_nat_u8) (simp add: Bye_valid_def bye_consts)
  have s: "length ?s = 4 * ?n" by (simp add: length_concat_uniform)
  show ?thesis
  proof (cases "bye_reason p = []")
    case True
    then have pl: "Bye_payload p = ?s" using Bye_payload_no_reason by simp
    have "Bye_sources (Bye_payload p) ?n = Some (sender_ssrc p, bye_csrcs p)"
      using Bye_sources_written [of _ _ "[]"] unfolding pl by simp
    moreover have "length (Bye_payload p) = 4 * ?n" unfolding pl by (rule s)
    ultimately show ?thesis using True n by (simp add: Bye_Parse_def payload_size_def)
  next
    case False
    then obtain k where pl: "Bye_payload p = ?s @ of_nat (length (bye_reason p)) # bye_reason p @ replicate k 0"
      using Bye_payload_reason [OF v] by auto
    have u: "unat (of_nat (length (bye_reason p)) :: u8) = length (bye_reason p)"
      using v by (simp add: unat_of_nat_u8 Bye_valid_def)
    have src: "Bye_sources (Bye_payload p) ?n = Some (sender_ssrc p, bye_csrcs p)"
      unfolding pl using Bye_sources_written by simp
    have skip: "rd8 (S @ b # r) (length S) = Some b" "rd_bytes (S @ b # bs @ r) (length S + 1) (length bs) = Some bs"
      for S b bs r by (simp_all add: wire_simps)
    have rl: "rd8 (Bye_payload p) (4 * ?n) = Some (of_nat (length (bye_reason p)))"
      unfolding pl s [symmetric] by (rule skip)
    have rs: "rd_bytes (Bye_payload p) (4 * ?n + 1) (length (bye_reason p)) = Some (bye_reason p)"
      unfolding pl s [symmetric] by (rule skip)
    have "length (Bye_payload p) = 4 * ?n + 1 + length (bye_reason p) + k"
      unfolding pl using s by simp
    then show ?thesis using n u src rl rs by (simp add: Bye_Parse_def payload_size_def)
  qed
qed

interpretation bye: rtcp_codec Bye_BlockLength Bye_body Bye_Parse Bye_kPacketType Bye_valid id
proof (rule rtcp_codec_block [OF Bye_body_def Bye_BlockLength_payload _ _ Bye_Parse_safe])
  fix p :: Bye and rest
  assume v: "Bye_valid p"
  show "Bye_Parse \<lparr>ch_packet_type = Bye_kPacketType, ch_count_or_format = of_nat (1 + length (bye_csrcs p)),
      ch_padding_size = 0, ch_payload = Bye_payload p, ch_next = rest\<rparr> = Some (Accepted (id p))"
    using Bye_parse_written [OF v] by simp
  have "length (bye_reason p) div 4 \<le> 63"
    using v div_le_mono [of "length (bye_reason p)" 255 4] by (simp add: Bye_valid_def)
  then have "Bye_BlockLength p \<le> 4 + 4 * (31 + 64)" "4 dvd Bye_BlockLength p"
    using v by (auto simp: Bye_BlockLength_def Bye_valid_def bye_consts Let_def)
  then show "1 + length (bye_csrcs p) < 32 \<and> 4 dvd length (Bye_payload p) \<and> length (Bye_payload p) < 4 * 65536"
    using Bye_BlockLength_payload [OF v] v by (auto simp: Bye_valid_def bye_consts)
qed

section \<open>App\<close>

record App = RtcpPacket +
  app_sub_type :: u8
  app_name :: u32
  app_data :: bytes

definition App_kPacketType :: u8 where
  "App_kPacketType = 204"

definition kAppBaseLength :: nat where
  "kAppBaseLength = 8"

definition App_kMaxDataSize :: nat where
  "App_kMaxDataSize = 0xffff * 4 - kAppBaseLength"

lemmas app_consts = App_kPacketType_def kAppBaseLength_def App_kMaxDataSize_def kHeaderSizeBytes_def

definition App_Parse :: "CommonHeader \<Rightarrow> App outcome option" where
  "App_Parse packet =
     (if payload_size packet < kAppBaseLength then Some Rejected
      else if payload_size packet mod 4 \<noteq> 0 then Some Rejected
      else do {
        ssrc \<leftarrow> rd32 (ch_payload packet) 0;
        name \<leftarrow> rd32 (ch_payload packet) 4;
        data \<leftarrow> rd_bytes (ch_payload packet) kAppBaseLength (payload_size packet - kAppBaseLength);
        Some (Accepted \<lparr>sender_ssrc = ssrc, app_sub_type = ch_count_or_format packet, app_name = name,
          app_data = data\<rparr>)
      })"

definition App_SetSubType :: "u8 \<Rightarrow> App \<Rightarrow> App" where
  "App_SetSubType subtype p = p\<lparr>app_sub_type := subtype\<rparr>"

definition App_SetData :: "bytes \<Rightarrow> App \<Rightarrow> App" where
  "App_SetData data p = p\<lparr>app_data := data\<rparr>"

definition App_BlockLength :: "App \<Rightarrow> nat" where
  "App_BlockLength p = kHeaderSizeBytes + kAppBaseLength + length (app_data p)"

definition App_payload :: "App \<Rightarrow> bytes" where
  "App_payload p = WriteBigEndian4 (sender_ssrc p) @ WriteBigEndian4 (app_name p) @ app_data p"

definition App_body :: "App \<Rightarrow> bytes" where
  "App_body p = CreateHeader (unat (app_sub_type p)) App_kPacketType (HeaderLength (App_BlockLength p)) @ App_payload p"

definition App_Create :: "App \<Rightarrow> nat \<Rightarrow> wbuf \<Rightarrow> bool \<times> wbuf" where
  "App_Create p = create_block (App_BlockLength p) (App_body p)"

definition App_NameToInt :: "u8 \<Rightarrow> u8 \<Rightarrow> u8 \<Rightarrow> u8 \<Rightarrow> u32" where
  "App_NameToInt n0 n1 n2 n3 =
     push_bit 24 (ucast n0) OR push_bit 16 (ucast n1) OR push_bit 8 (ucast n2) OR ucast n3"

definition App_valid :: "App \<Rightarrow> bool" where
  "App_valid p \<longleftrightarrow> unat (app_sub_type p) \<le> 0x1f \<and> length (app_data p) mod 4 = 0 \<and>
     length (app_data p) \<le> App_kMaxDataSize"

lemma App_Parse_safe: "safe (App_Parse h)"
  unfolding App_Parse_def payload_size_def app_consts by (intro safe_intros) auto

interpretation app: rtcp_codec App_BlockLength App_body App_Parse App_kPacketType App_valid id
proof (rule rtcp_codec_block [OF App_body_def _ _ _ App_Parse_safe])
  fix p :: App and rest
  assume v: "App_valid p"
  then have "(8 + length (app_data p)) mod 4 = 0" by (auto simp: App_valid_def mod_0_imp_dvd)
  then show "App_Parse \<lparr>ch_packet_type = App_kPacketType, ch_count_or_format = of_nat (unat (app_sub_type p)),
      ch_padding_size = 0, ch_payload = App_payload p, ch_next = rest\<rparr> = Some (Accepted (id p))"
    by (simp add: App_Parse_def App_payload_def payload_size_def app_consts wire_simps)
qed (auto simp: App_BlockLength_def App_payload_def App_valid_def app_consts)

section \<open>RemoteEstimate\<close>

text \<open>
  The two fields of \<open>NetworkStateEstimate\<close> that the serializer transmits, in bits per second. The
  quotient \<open>value / kDataRateResolution\<close> is computed in double precision and truncated; below
  \<open>kMaxEncoded\<close>, the only range in which the quotient is used, that is the truncated integer quotient.
\<close>

record NetworkStateEstimate =
  link_capacity_lower :: DataRate
  link_capacity_upper :: DataRate

datatype rate_field = Lower | Upper

definition field_get :: "rate_field \<Rightarrow> NetworkStateEstimate \<Rightarrow> DataRate" where
  "field_get f e = (case f of Lower \<Rightarrow> link_capacity_lower e | Upper \<Rightarrow> link_capacity_upper e)"

definition field_set :: "rate_field \<Rightarrow> DataRate \<Rightarrow> NetworkStateEstimate \<Rightarrow> NetworkStateEstimate" where
  "field_set f v e = (case f of Lower \<Rightarrow> e\<lparr>link_capacity_lower := v\<rparr> | Upper \<Rightarrow> e\<lparr>link_capacity_upper := v\<rparr>)"

definition kFieldSize :: nat where
  "kFieldSize = 1 + 3"

definition kDataRateResolution :: DataRate where
  "kDataRateResolution = 1000"

definition kMaxEncoded :: int where
  "kMaxEncoded = 2 ^ 24 - 1"

definition serializer_fields :: "(u8 \<times> rate_field) list" where
  "serializer_fields = [(1, Lower), (2, Upper)]"

definition DataRate_Read :: "rate_field \<Rightarrow> u32 \<Rightarrow> NetworkStateEstimate \<Rightarrow> NetworkStateEstimate" where
  "DataRate_Read f v target =
     (let scaled = uint v
      in if scaled = kMaxEncoded then field_set f PlusInfinity target
         else field_set f (unit_times kDataRateResolution scaled) target)"

definition DataRate_Write :: "u8 \<Rightarrow> rate_field \<Rightarrow> NetworkStateEstimate \<Rightarrow> bytes option" where
  "DataRate_Write i f src =
     (let v = field_get f src
      in if IsMinusInfinity v then None
         else
           let scaled = (if IsPlusInfinity v then kMaxEncoded
                         else let q = v sdiv kDataRateResolution
                              in if q \<ge> kMaxEncoded then kMaxEncoded else q)
           in Some (WriteBigEndian1 i @ WriteBigEndian 3 (word_of_int scaled :: u32)))"

definition Serialize :: "NetworkStateEstimate \<Rightarrow> bytes" where
  "Serialize src =
     concat (map (\<lambda>(i, f). case DataRate_Write i f src of None \<Rightarrow> [] | Some bs \<Rightarrow> bs) serializer_fields)"

text \<open>The loop of \<open>Parse\<close> over the fields of the message; a field with an unknown id is skipped.\<close>

fun Estimate_Parse_loop :: "bytes \<Rightarrow> NetworkStateEstimate \<Rightarrow> NetworkStateEstimate option" where
  "Estimate_Parse_loop [] target = Some target"
| "Estimate_Parse_loop (x # xs) target = do {
     field_id \<leftarrow> rd8 (x # xs) 0;
     case map_of serializer_fields field_id of
       None \<Rightarrow> Estimate_Parse_loop (drop 3 xs) target
     | Some f \<Rightarrow> do {
         v \<leftarrow> rd24 (x # xs) 1;
         Estimate_Parse_loop (drop 3 xs) (DataRate_Read f v target)
       }
   }"

definition Estimate_Parse :: "bytes \<Rightarrow> NetworkStateEstimate \<Rightarrow> NetworkStateEstimate outcome option" where
  "Estimate_Parse src target =
     (if length src mod kFieldSize \<noteq> 0 then Some Rejected
      else do {
        e \<leftarrow> Estimate_Parse_loop src target;
        Some (Accepted e)
      })"

definition RemoteEstimate_kSubType :: u8 where
  "RemoteEstimate_kSubType = 13"

definition RemoteEstimate_kName :: u32 where
  "RemoteEstimate_kName = App_NameToInt 0x67 0x6f 0x6f 0x67"

record RemoteEstimate = App +
  re_estimate :: NetworkStateEstimate

definition NetworkStateEstimate_init :: NetworkStateEstimate where
  "NetworkStateEstimate_init = \<lparr>link_capacity_lower = MinusInfinity, link_capacity_upper = MinusInfinity\<rparr>"

definition RemoteEstimate_of_App :: "App \<Rightarrow> RemoteEstimate" where
  "RemoteEstimate_of_App app = App.extend app (RemoteEstimate.fields NetworkStateEstimate_init)"

definition RemoteEstimate_init :: RemoteEstimate where
  "RemoteEstimate_init = RemoteEstimate_of_App
     \<lparr>sender_ssrc = 0, app_sub_type = RemoteEstimate_kSubType, app_name = RemoteEstimate_kName, app_data = []\<rparr>"

definition RemoteEstimate_ParseData :: "RemoteEstimate \<Rightarrow> RemoteEstimate outcome option" where
  "RemoteEstimate_ParseData p = do {
     r \<leftarrow> Estimate_Parse (app_data p) (re_estimate p);
     case r of
       Rejected \<Rightarrow> Some Rejected
     | Accepted e \<Rightarrow> Some (Accepted (p\<lparr>re_estimate := e\<rparr>))
   }"

definition RemoteEstimate_SetEstimate :: "NetworkStateEstimate \<Rightarrow> RemoteEstimate \<Rightarrow> RemoteEstimate" where
  "RemoteEstimate_SetEstimate e p = p\<lparr>re_estimate := e, app_data := Serialize e\<rparr>"

lemma Estimate_Parse_loop_safe: "length src mod 4 = 0 \<Longrightarrow> safe (Estimate_Parse_loop src target)"
proof (induction src arbitrary: target rule: length_induct)
  case (1 src)
  show ?case
  proof (cases src)
    case (Cons x xs)
    have "3 \<le> length xs" "length (drop 3 xs) mod 4 = 0"
      using "1.prems" unfolding Cons by (simp_all, presburger+)
    moreover have "safe (Estimate_Parse_loop (drop 3 xs) t)" for t
      using "1.IH" [rule_format, of "drop 3 xs"] calculation unfolding Cons by simp
    ultimately show ?thesis
      unfolding Cons Estimate_Parse_loop.simps by (intro safe_intros) auto
  qed simp
qed

lemma Estimate_Parse_safe: "safe (Estimate_Parse src target)"
  unfolding Estimate_Parse_def kFieldSize_def
  by (intro safe_intros safe_bind [OF Estimate_Parse_loop_safe]) simp

text \<open>What a rate is after the trip: whole kilobits, saturating at infinity.\<close>

definition rate_canon :: "DataRate \<Rightarrow> DataRate" where
  "rate_canon v = (if v \<ge> kMaxEncoded * 1000 then PlusInfinity else v div 1000 * 1000)"

lemma scaled_word:
  assumes "0 \<le> s" and "s < 2 ^ 24"
  shows "take_bit 24 (word_of_int s :: u32) = word_of_int s" and "uint (word_of_int s :: u32) = s"
proof -
  show u: "uint (word_of_int s :: u32) = s" using assms by (simp add: uint_word_of_int)
  show "take_bit 24 (word_of_int s :: u32) = word_of_int s"
    using assms u by (simp add: word_uint_eq_iff unsigned_take_bit_eq take_bit_int_eq_self)
qed

definition rate_ok :: "DataRate \<Rightarrow> bool" where
  "rate_ok v \<longleftrightarrow> 0 \<le> v \<and> v \<le> PlusInfinity"

definition rate_code :: "DataRate \<Rightarrow> u32" where
  "rate_code v = word_of_int (if v \<ge> kMaxEncoded * 1000 then kMaxEncoded else v div 1000)"

lemma rate_code_written:
  assumes "rate_ok (field_get f src)"
  defines "s \<equiv> rate_code (field_get f src)"
  shows "DataRate_Write i f src = Some (i # WriteBigEndian 3 s)"
    and "take_bit 24 s = s"
    and "DataRate_Read f s target = field_set f (rate_canon (field_get f src)) target"
proof -
  let ?v = "field_get f src"
  define q where "q = (if ?v \<ge> kMaxEncoded * 1000 then kMaxEncoded else ?v div 1000)"
  have s: "s = word_of_int q" by (simp add: s_def rate_code_def q_def)
  have v: "0 \<le> ?v" "?v \<le> PlusInfinity" using assms(1) by (simp_all add: rate_ok_def)
  have "?v div 1000 * 1000 + ?v mod 1000 = ?v" "0 \<le> ?v mod 1000" "?v mod 1000 < 1000"
    by (rule div_mult_mod_eq) simp_all
  then have div: "16777215 \<le> ?v div 1000 \<longleftrightarrow> 16777215000 \<le> ?v" "0 \<le> ?v div 1000"
    using v(1) by linarith+
  have q: "0 \<le> q" "q < 2 ^ 24"
    using div unfolding q_def kMaxEncoded_def by (cases "16777215000 \<le> ?v"; simp)+
  have "\<not> IsMinusInfinity ?v" using v by (simp add: infinity_defs)
  moreover have "IsPlusInfinity ?v \<Longrightarrow> q = kMaxEncoded" by (simp add: q_def infinity_defs kMaxEncoded_def)
  moreover have "(if ?v sdiv kDataRateResolution \<ge> kMaxEncoded then kMaxEncoded else ?v sdiv kDataRateResolution) = q"
    using v div by (simp add: q_def sdiv_nonneg kDataRateResolution_def kMaxEncoded_def)
  ultimately show "DataRate_Write i f src = Some (i # WriteBigEndian 3 s)"
    by (simp add: s DataRate_Write_def Let_def WriteBigEndian1_def)
  show "take_bit 24 s = s" unfolding s by (rule scaled_word(1) [OF q])
  have "?v < kMaxEncoded * 1000 \<Longrightarrow> q \<noteq> kMaxEncoded" using div by (auto simp: q_def kMaxEncoded_def)
  then show "DataRate_Read f s target = field_set f (rate_canon ?v) target"
    unfolding s DataRate_Read_def Let_def scaled_word(2) [OF q]
    by (auto simp: rate_canon_def q_def unit_times_def kDataRateResolution_def mult.commute)
qed

text \<open>An estimate survives the trip up to rounding down to whole kilobits per second and saturation.\<close>

lemma Estimate_roundtrip:
  assumes "rate_ok (link_capacity_lower e)" and "rate_ok (link_capacity_upper e)"
  shows "Estimate_Parse (Serialize e) t = Some (Accepted
    \<lparr>link_capacity_lower = rate_canon (link_capacity_lower e),
     link_capacity_upper = rate_canon (link_capacity_upper e)\<rparr>)"
proof -
  have g: "field_get Lower e = link_capacity_lower e" "field_get Upper e = link_capacity_upper e"
    by (simp_all add: field_get_def)
  note s1 = rate_code_written [of Lower e, unfolded g, OF assms(1)]
  note s2 = rate_code_written [of Upper e, unfolded g, OF assms(2)]
  have "Serialize e = 1 # WriteBigEndian 3 (rate_code (link_capacity_lower e)) @
      2 # WriteBigEndian 3 (rate_code (link_capacity_upper e))"
    by (simp add: Serialize_def serializer_fields_def s1(1) s2(1))
  then show ?thesis
    by (simp add: Estimate_Parse_def kFieldSize_def wire_simps s1(2,3) s2(2,3) serializer_fields_def
        drop_append_exact field_set_def)
qed

section \<open>Sdes\<close>

record Sdes_Chunk =
  chunk_ssrc :: u32
  chunk_cname :: bytes

record Sdes = RtcpPacket +
  sdes_chunks :: "Sdes_Chunk list"
  sdes_block_length :: nat

definition kTerminatorTag :: u8 where
  "kTerminatorTag = 0"

definition kCnameTag :: u8 where
  "kCnameTag = 1"

definition Sdes_kPacketType :: u8 where
  "Sdes_kPacketType = 202"

definition Sdes_kMaxNumberOfChunks :: nat where
  "Sdes_kMaxNumberOfChunks = 0x1f"

lemmas sdes_consts = kTerminatorTag_def kCnameTag_def Sdes_kPacketType_def Sdes_kMaxNumberOfChunks_def
  kHeaderSizeBytes_def

definition ChunkSize :: "Sdes_Chunk \<Rightarrow> nat" where
  "ChunkSize chunk =
     (let chunk_payload_size = 4 + 1 + 1 + length (chunk_cname chunk);
          padding_size = 4 - chunk_payload_size mod 4
      in chunk_payload_size + padding_size)"

definition Sdes_init :: Sdes where
  "Sdes_init = \<lparr>sender_ssrc = 0, sdes_chunks = [], sdes_block_length = kHeaderSizeBytes\<rparr>"

text \<open>The loop over the items of a chunk. \<open>off\<close> is \<open>looking_at\<close> relative to the payload; the
  result is the CNAME if one was found and the position behind the terminator.\<close>

function Sdes_Parse_items :: "bytes \<Rightarrow> nat \<Rightarrow> bytes option \<Rightarrow> (bytes option \<times> nat) outcome option" where
  "Sdes_Parse_items payload off cname = do {
     item_type \<leftarrow> rd8 payload off;
     if item_type = kTerminatorTag then Some (Accepted (cname, off + 1))
     else if off + 1 \<ge> length payload then Some Rejected
     else do {
       item_length \<leftarrow> rd8 payload (off + 1);
       if off + 2 + unat item_length + 1 > length payload then Some Rejected
       else if item_type = kCnameTag then
         if cname \<noteq> None then Some Rejected
         else do {
           name \<leftarrow> rd_bytes payload (off + 2) (unat item_length);
           Sdes_Parse_items payload (off + 2 + unat item_length) (Some name)
         }
       else Sdes_Parse_items payload (off + 2 + unat item_length) cname
     }
   }"
  by auto
termination
  by (relation "measure (\<lambda>(payload, off, cname). length payload - off)")
    (auto simp: rd8_def rd_at_def split: if_splits)

declare Sdes_Parse_items.simps [simp del]

text \<open>The loop over the chunks, with \<open>n\<close> the number of chunks still to read. A chunk without a
  CNAME is dropped, and counts as read.\<close>

primrec Sdes_Parse_chunks :: "bytes \<Rightarrow> nat \<Rightarrow> nat \<Rightarrow> Sdes_Chunk list outcome option" where
  "Sdes_Parse_chunks payload 0 off = Some (Accepted [])"
| "Sdes_Parse_chunks payload (Suc n) off =
     (if length payload - off < 8 then Some Rejected
      else do {
        ssrc \<leftarrow> rd32 payload off;
        r \<leftarrow> Sdes_Parse_items payload (off + 4) None;
        case r of
          Rejected \<Rightarrow> Some Rejected
        | Accepted (cname, off') \<Rightarrow> do {
            rs \<leftarrow> Sdes_Parse_chunks payload n (off' + (length payload - off') mod 4);
            case rs of
              Rejected \<Rightarrow> Some Rejected
            | Accepted chunks \<Rightarrow> (case cname of
                None \<Rightarrow> Some (Accepted chunks)
              | Some name \<Rightarrow> Some (Accepted (\<lparr>chunk_ssrc = ssrc, chunk_cname = name\<rparr> # chunks)))
          }
      })"

definition Sdes_Parse :: "CommonHeader \<Rightarrow> Sdes outcome option" where
  "Sdes_Parse packet = do {
     r \<leftarrow> Sdes_Parse_chunks (ch_payload packet) (unat (ch_count_or_format packet)) 0;
     case r of
       Rejected \<Rightarrow> Some Rejected
     | Accepted chunks \<Rightarrow> Some (Accepted \<lparr>sender_ssrc = 0, sdes_chunks = chunks,
         sdes_block_length = kHeaderSizeBytes + sum_list (map ChunkSize chunks)\<rparr>)
   }"

definition Sdes_AddCName :: "u32 \<Rightarrow> bytes \<Rightarrow> Sdes \<Rightarrow> bool \<times> Sdes" where
  "Sdes_AddCName ssrc cname p =
     (if length (sdes_chunks p) \<ge> Sdes_kMaxNumberOfChunks then (False, p)
      else
        let chunk = \<lparr>chunk_ssrc = ssrc, chunk_cname = cname\<rparr>
        in (True, p\<lparr>sdes_chunks := sdes_chunks p @ [chunk],
                    sdes_block_length := sdes_block_length p + ChunkSize chunk\<rparr>))"

definition Sdes_BlockLength :: "Sdes \<Rightarrow> nat" where
  "Sdes_BlockLength p = sdes_block_length p"

definition Sdes_chunk_bytes :: "Sdes_Chunk \<Rightarrow> bytes" where
  "Sdes_chunk_bytes chunk =
     WriteBigEndian4 (chunk_ssrc chunk) @
     WriteBigEndian1 kCnameTag @
     WriteBigEndian1 (of_nat (length (chunk_cname chunk))) @
     chunk_cname chunk @
     replicate (4 - (6 + length (chunk_cname chunk)) mod 4) 0"

definition Sdes_payload :: "Sdes \<Rightarrow> bytes" where
  "Sdes_payload p = concat (map Sdes_chunk_bytes (sdes_chunks p))"

definition Sdes_body :: "Sdes \<Rightarrow> bytes" where
  "Sdes_body p =
     CreateHeader (length (sdes_chunks p)) Sdes_kPacketType (HeaderLength (Sdes_BlockLength p)) @ Sdes_payload p"

definition Sdes_Create :: "Sdes \<Rightarrow> nat \<Rightarrow> wbuf \<Rightarrow> bool \<times> wbuf" where
  "Sdes_Create p = create_block (Sdes_BlockLength p) (Sdes_body p)"

lemma Sdes_Parse_items_safe: "off < length payload \<Longrightarrow> safe (Sdes_Parse_items payload off cname)"
proof (induction payload off cname rule: Sdes_Parse_items.induct)
  case (1 payload off cname)
  show ?case
    by (subst Sdes_Parse_items.simps)
      (intro safe_bind safe_rd safe_if safe_Some safe_rd_bytes(1) "1.IH"; use "1.prems" in auto)
qed

lemma Sdes_Parse_chunks_safe: "safe (Sdes_Parse_chunks payload n off)"
proof (induction n arbitrary: off)
  case (Suc n)
  have "8 \<le> length payload - off \<Longrightarrow> off + 4 < length payload" by linarith
  then show ?case
    unfolding Sdes_Parse_chunks.simps
    by (auto intro!: safe_bind safe_rd safe_if Sdes_Parse_items_safe Suc.IH split: outcome.split option.split)
qed simp

lemma Sdes_Parse_safe: "safe (Sdes_Parse h)"
  unfolding Sdes_Parse_def by (intro safe_bind Sdes_Parse_chunks_safe safe_case_outcome safe_Some)

definition Sdes_valid :: "Sdes \<Rightarrow> bool" where
  "Sdes_valid p \<longleftrightarrow>
     sender_ssrc p = 0 \<and>
     length (sdes_chunks p) \<le> Sdes_kMaxNumberOfChunks \<and>
     list_all (\<lambda>c. length (chunk_cname c) \<le> 0xff) (sdes_chunks p) \<and>
     sdes_block_length p = kHeaderSizeBytes + sum_list (map ChunkSize (sdes_chunks p))"

lemma Sdes_init_valid: "Sdes_valid Sdes_init"
  by (simp add: Sdes_valid_def Sdes_init_def)

lemma Sdes_AddCName_valid:
  "Sdes_valid p \<Longrightarrow> length cname \<le> 0xff \<Longrightarrow> Sdes_valid (snd (Sdes_AddCName ssrc cname p))"
  by (auto simp: Sdes_valid_def Sdes_AddCName_def Let_def)

lemma Sdes_chunk_bytes_length [simp]: "length (Sdes_chunk_bytes c) = ChunkSize c"
  by (simp add: Sdes_chunk_bytes_def ChunkSize_def)

lemma ChunkSize_bounds: "4 dvd ChunkSize c" "8 \<le> ChunkSize c" "ChunkSize c \<le> 10 + length (chunk_cname c)"
  unfolding ChunkSize_def Let_def by presburger+

lemma Sdes_items_written:
  assumes "length cname \<le> 0xff"
  shows "Sdes_Parse_items (pre @ kCnameTag # of_nat (length cname) # cname @ 0 # post) (length pre) None =
    Some (Accepted (Some cname, length pre + 3 + length cname))"
proof -
  have u: "unat (of_nat (length cname) :: u8) = length cname" using assms by (simp add: unat_of_nat_u8)
  let ?p = "pre @ kCnameTag # of_nat (length cname) # cname @ 0 # post"
  have "rd8 ?p (length pre) = Some kCnameTag" "rd8 ?p (length pre + 1) = Some (of_nat (length cname))"
    "rd_bytes ?p (length pre + 2) (length cname) = Some cname"
    by (simp_all add: wire_simps)
  moreover have "rd8 ?p (length pre + 2 + length cname) = Some 0"
    by (simp add: wire_simps)
  then have "Sdes_Parse_items ?p (length pre + 2 + length cname) (Some cname) =
      Some (Accepted (Some cname, length pre + 3 + length cname))"
    by (subst Sdes_Parse_items.simps) (simp add: kTerminatorTag_def)
  ultimately show ?thesis
    by (subst Sdes_Parse_items.simps) (simp add: u kTerminatorTag_def kCnameTag_def)
qed

lemma length_concat_chunks: "length (concat (map Sdes_chunk_bytes cs)) = sum_list (map ChunkSize cs)"
  by (simp add: length_concat comp_def)

lemma dvd_sum_chunks: "4 dvd sum_list (map ChunkSize cs)"
  by (induction cs) (auto intro: dvd_add ChunkSize_bounds(1))

lemma Sdes_chunks_written:
  assumes "list_all (\<lambda>c. length (chunk_cname c) \<le> 0xff) cs" and "4 dvd length pre"
  shows "Sdes_Parse_chunks (pre @ concat (map Sdes_chunk_bytes cs)) (length cs) (length pre) = Some (Accepted cs)"
  using assms
proof (induction cs arbitrary: pre)
  case (Cons c cs)
  let ?L = "length (chunk_cname c)" and ?rest = "concat (map Sdes_chunk_bytes cs)"
  let ?p = "pre @ Sdes_chunk_bytes c @ ?rest"
  define k where "k = 3 - (6 + ?L) mod 4"
  have k: "ChunkSize c = 7 + ?L + k" "k < 4" by (simp_all add: ChunkSize_def Let_def k_def)
  have "replicate (4 - (6 + ?L) mod 4) (0 :: u8) = 0 # replicate k 0"
    by (simp add: k_def Suc_diff_le flip: replicate_Suc)
  then have bytes: "Sdes_chunk_bytes c = WriteBigEndian4 (chunk_ssrc c) @ kCnameTag # of_nat ?L # chunk_cname c @ 0 # replicate k 0"
    by (simp add: Sdes_chunk_bytes_def WriteBigEndian1_def)
  have items: "Sdes_Parse_items ?p (length pre + 4) None = Some (Accepted (Some (chunk_cname c), length pre + 7 + ?L))"
    using Sdes_items_written [of "chunk_cname c" "pre @ WriteBigEndian4 (chunk_ssrc c)" "replicate k 0 @ ?rest"] Cons.prems(1)
    by (simp add: bytes)
  have ssrc: "rd32 ?p (length pre) = Some (chunk_ssrc c)" by (simp add: bytes wire_simps)
  have rest: "length ?p = length pre + ChunkSize c + length ?rest" by simp
  have "4 dvd length ?rest" unfolding length_concat_chunks by (rule dvd_sum_chunks)
  then have off: "length pre + 7 + ?L + (length ?p - (length pre + 7 + ?L)) mod 4 = length (pre @ Sdes_chunk_bytes c)"
    using k unfolding rest by (auto elim!: dvdE)
  have IH: "Sdes_Parse_chunks ?p (length cs) (length (pre @ Sdes_chunk_bytes c)) = Some (Accepted cs)"
    using Cons.IH [of "pre @ Sdes_chunk_bytes c"] Cons.prems ChunkSize_bounds(1) [of c] by simp
  have "8 \<le> length ?p - length pre" using ChunkSize_bounds(2) [of c] by simp
  then have "Sdes_Parse_chunks ?p (Suc (length cs)) (length pre) = Some (Accepted (c # cs))"
    unfolding Sdes_Parse_chunks.simps ssrc items by (simp only: off IH bind.simps outcome.case prod.case option.case) simp
  then show ?case by simp
qed simp

interpretation sdes: rtcp_codec Sdes_BlockLength Sdes_body Sdes_Parse Sdes_kPacketType Sdes_valid id
proof (rule rtcp_codec_block [OF Sdes_body_def _ _ _ Sdes_Parse_safe])
  fix p :: Sdes and rest
  assume v: "Sdes_valid p"
  let ?n = "length (sdes_chunks p)"
  have len: "length (Sdes_payload p) = sum_list (map ChunkSize (sdes_chunks p))"
    by (simp add: Sdes_payload_def length_concat_chunks)
  then show "Sdes_BlockLength p = 4 + length (Sdes_payload p)"
    using v by (simp add: Sdes_BlockLength_def Sdes_valid_def sdes_consts)
  have n: "?n \<le> 31" using v by (simp add: Sdes_valid_def sdes_consts)
  have "sum_list (map ChunkSize cs) \<le> 265 * length cs"
    if "list_all (\<lambda>c. length (chunk_cname c) \<le> 0xff) cs" for cs
    using that by (induction cs) (auto intro: le_trans [OF add_mono [OF ChunkSize_bounds(3)]])
  then have "sum_list (map ChunkSize (sdes_chunks p)) \<le> 265 * ?n" using v by (simp add: Sdes_valid_def)
  then show "?n < 32 \<and> 4 dvd length (Sdes_payload p) \<and> length (Sdes_payload p) < 4 * 65536"
    using n dvd_sum_chunks [of "sdes_chunks p"] unfolding len by auto
  have u: "unat (of_nat ?n :: u8) = ?n" using n by (simp add: unat_of_nat_u8)
  have "Sdes_Parse_chunks (Sdes_payload p) ?n 0 = Some (Accepted (sdes_chunks p))"
    using Sdes_chunks_written [of "sdes_chunks p" "[]"] v by (simp add: Sdes_payload_def Sdes_valid_def)
  then show "Sdes_Parse \<lparr>ch_packet_type = Sdes_kPacketType, ch_count_or_format = of_nat ?n,
      ch_padding_size = 0, ch_payload = Sdes_payload p, ch_next = rest\<rparr> = Some (Accepted (id p))"
    using v u by (simp add: Sdes_Parse_def Sdes_valid_def)
qed

section \<open>Main properties\<close>

lemma AddCName_fold:
  assumes "Sdes_valid p" and "length (sdes_chunks p) + length cs \<le> Sdes_kMaxNumberOfChunks"
    and "list_all (\<lambda>c. length (chunk_cname c) \<le> 0xff) cs"
  shows "Sdes_valid (fold (\<lambda>c q. snd (Sdes_AddCName (chunk_ssrc c) (chunk_cname c) q)) cs p) \<and>
    sdes_chunks (fold (\<lambda>c q. snd (Sdes_AddCName (chunk_ssrc c) (chunk_cname c) q)) cs p) = sdes_chunks p @ cs"
  using assms
proof (induction cs arbitrary: p)
  case (Cons c cs)
  let ?q = "snd (Sdes_AddCName (chunk_ssrc c) (chunk_cname c) p)"
  have "sdes_chunks ?q = sdes_chunks p @ [c]"
    using Cons.prems(2) by (simp add: Sdes_AddCName_def Let_def)
  moreover have "Sdes_valid ?q" using Cons.prems by (intro Sdes_AddCName_valid) simp_all
  ultimately show ?case using Cons.IH [of ?q] Cons.prems by simp
qed simp

text \<open>
  C27: A source description built by adding up to 31 names of at most 255 bytes to an empty packet is
  parsed back to exactly those names in that order, whatever bytes the names contain.
\<close>

theorem sdes_built_roundtrip:
  assumes "length cs \<le> Sdes_kMaxNumberOfChunks" and "list_all (\<lambda>c. length (chunk_cname c) \<le> 0xff) cs"
    and "p = fold (\<lambda>c q. snd (Sdes_AddCName (chunk_ssrc c) (chunk_cname c) q)) cs Sdes_init"
  shows "parse_block Sdes_Parse (Build (Sdes_BlockLength p) (Sdes_Create p)) = Some (Accepted (p, [])) \<and>
    sdes_chunks p = cs"
proof -
  have "Sdes_valid p" "sdes_chunks p = cs"
    using AddCName_fold [OF Sdes_init_valid, of cs] assms by (simp_all add: Sdes_init_def)
  moreover have "Sdes_Create p = create_block (Sdes_BlockLength p) (Sdes_body p)"
    by (simp add: Sdes_Create_def fun_eq_iff)
  ultimately show ?thesis using sdes.Build_roundtrip(2) [of p] by simp
qed

theorem sdes_built_roundtrip_witness:
  "\<exists>p. parse_block Sdes_Parse (Build (Sdes_BlockLength p) (Sdes_Create p)) = Some (Accepted (p, [])) \<and>
    sdes_chunks p = [\<lparr>chunk_ssrc = 1, chunk_cname = [0, 7, 0]\<rparr>, \<lparr>chunk_ssrc = 2, chunk_cname = []\<rparr>]"
  using sdes_built_roundtrip [OF _ _ refl, of "[\<lparr>chunk_ssrc = 1, chunk_cname = [0, 7, 0]\<rparr>, \<lparr>chunk_ssrc = 2, chunk_cname = []\<rparr>]"]
  by (auto simp: Sdes_kMaxNumberOfChunks_def)

text \<open>
  C28: A link capacity estimate sent in an application packet is read back as the same estimate
  rounded down to whole kilobits per second, with rates beyond the 24-bit range read as infinite.
\<close>

theorem remote_estimate_roundtrip:
  assumes "rate_ok (link_capacity_lower e)" and "rate_ok (link_capacity_upper e)"
    and "q = RemoteEstimate_SetEstimate e RemoteEstimate_init"
  shows "RemoteEstimate_ParseData (RemoteEstimate_of_App (App.truncate q)) = Some (Accepted
    (q\<lparr>re_estimate := \<lparr>link_capacity_lower = rate_canon (link_capacity_lower e),
       link_capacity_upper = rate_canon (link_capacity_upper e)\<rparr>\<rparr>))"
  using Estimate_roundtrip [OF assms(1,2), of NetworkStateEstimate_init] assms(3)
  by (simp add: RemoteEstimate_ParseData_def RemoteEstimate_of_App_def RemoteEstimate_SetEstimate_def
      RemoteEstimate_init_def App.defs RemoteEstimate.defs App_SetData_def)

theorem remote_estimate_roundtrip_witness:
  "RemoteEstimate_ParseData (RemoteEstimate_of_App (App.truncate (RemoteEstimate_SetEstimate
     \<lparr>link_capacity_lower = 1234567, link_capacity_upper = PlusInfinity\<rparr> RemoteEstimate_init))) = Some (Accepted
     ((RemoteEstimate_SetEstimate \<lparr>link_capacity_lower = 1234567, link_capacity_upper = PlusInfinity\<rparr> RemoteEstimate_init)
       \<lparr>re_estimate := \<lparr>link_capacity_lower = 1234000, link_capacity_upper = PlusInfinity\<rparr>\<rparr>))"
proof -
  have "rate_ok 1234567" "rate_ok PlusInfinity" "rate_canon 1234567 = 1234000" "rate_canon PlusInfinity = PlusInfinity"
    by code_simp+
  then show ?thesis
    using remote_estimate_roundtrip [OF _ _ refl, of "\<lparr>link_capacity_lower = 1234567, link_capacity_upper = PlusInfinity\<rparr>"]
    by simp
qed

end
