(* ===== verification/Rtcp_Xr.thy ===== *)
theory Rtcp_Xr
  imports Rtcp_Reports
begin

text \<open>
  Extended reports (\<open>rtcp_packet/extended_reports.cc\<close>) with their three block types: receiver
  reference time (\<open>rrtr.cc\<close>), delay since last receiver report (\<open>dlrr.cc\<close>) and target bitrate
  (\<open>target_bitrate.cc\<close>). A receiver reference time is its NTP time, a delay block the list of its
  sub-blocks (empty for no block), a target bitrate block the list of its items.
\<close>

unbundle bit_operations_syntax

section \<open>Rrtr\<close>

type_synonym Rrtr = NtpTime

definition Rrtr_kBlockType :: u8 where
  "Rrtr_kBlockType = 4"

definition Rrtr_kBlockLength :: u16 where
  "Rrtr_kBlockLength = 2"

definition Rrtr_kLength :: nat where
  "Rrtr_kLength = 12"

definition Rrtr_Parse :: "bytes \<Rightarrow> nat \<Rightarrow> Rrtr option" where
  "Rrtr_Parse p off = do {
     seconds \<leftarrow> rd32 p (off + 4);
     fraction \<leftarrow> rd32 p (off + 8);
     Some (NtpTime_Set seconds fraction)
   }"

definition Rrtr_Create :: "Rrtr \<Rightarrow> bytes" where
  "Rrtr_Create ntp =
     [Rrtr_kBlockType, 0] @ WriteBigEndian2 Rrtr_kBlockLength @
     WriteBigEndian4 (NtpTime_seconds ntp) @ WriteBigEndian4 (NtpTime_fractions ntp)"

section \<open>Dlrr\<close>

record ReceiveTimeInfo =
  rti_ssrc :: u32
  rti_last_rr :: u32
  rti_delay_since_last_rr :: u32

type_synonym Dlrr = "ReceiveTimeInfo list"

definition Dlrr_kBlockType :: u8 where
  "Dlrr_kBlockType = 5"

definition Dlrr_kBlockHeaderLength :: nat where
  "Dlrr_kBlockHeaderLength = 4"

definition kSubBlockLength :: nat where
  "kSubBlockLength = 12"

definition rd_sub_block :: "bytes \<Rightarrow> nat \<Rightarrow> ReceiveTimeInfo option" where
  "rd_sub_block p off = do {
     ssrc \<leftarrow> rd32 p off;
     last_rr \<leftarrow> rd32 p (off + 4);
     delay \<leftarrow> rd32 p (off + 8);
     Some \<lparr>rti_ssrc = ssrc, rti_last_rr = last_rr, rti_delay_since_last_rr = delay\<rparr>
   }"

definition Dlrr_Parse :: "bytes \<Rightarrow> nat \<Rightarrow> u16 \<Rightarrow> Dlrr outcome option" where
  "Dlrr_Parse p off block_length_32bits =
     (if unat block_length_32bits mod 3 \<noteq> 0 then Some Rejected
      else do {
        let blocks_count = unat block_length_32bits div 3;
        sub_blocks \<leftarrow> rd_items kSubBlockLength rd_sub_block p (off + Dlrr_kBlockHeaderLength) blocks_count;
        Some (Accepted sub_blocks)
      })"

definition Dlrr_BlockLength :: "Dlrr \<Rightarrow> nat" where
  "Dlrr_BlockLength d =
     (if d = [] then 0 else Dlrr_kBlockHeaderLength + kSubBlockLength * length d)"

definition sub_block_bytes :: "ReceiveTimeInfo \<Rightarrow> bytes" where
  "sub_block_bytes b =
     WriteBigEndian4 (rti_ssrc b) @ WriteBigEndian4 (rti_last_rr b) @ WriteBigEndian4 (rti_delay_since_last_rr b)"

definition Dlrr_Create :: "Dlrr \<Rightarrow> bytes" where
  "Dlrr_Create d =
     (if d = [] then []
      else [Dlrr_kBlockType, 0] @ WriteBigEndian2 (of_nat (3 * length d)) @ concat (map sub_block_bytes d))"

section \<open>TargetBitrate\<close>

record BitrateItem =
  spatial_layer :: u8
  temporal_layer :: u8
  target_bitrate_kbps :: u32

type_synonym TargetBitrate = "BitrateItem list"

definition TargetBitrate_kBlockType :: u8 where
  "TargetBitrate_kBlockType = 42"

definition kBitrateItemSizeBytes :: nat where
  "kBitrateItemSizeBytes = 4"

definition kTargetBitrateHeaderSizeBytes :: nat where
  "kTargetBitrateHeaderSizeBytes = 4"

definition AddTargetBitrate :: "u8 \<Rightarrow> u8 \<Rightarrow> u32 \<Rightarrow> TargetBitrate \<Rightarrow> TargetBitrate" where
  "AddTargetBitrate s t kbps bitrates =
     bitrates @ [\<lparr>spatial_layer = s, temporal_layer = t, target_bitrate_kbps = kbps\<rparr>]"

definition rd_bitrate_item :: "bytes \<Rightarrow> nat \<Rightarrow> BitrateItem option" where
  "rd_bitrate_item p off = do {
     layers \<leftarrow> rd8 p off;
     bitrate_kbps \<leftarrow> rd24 p (off + 1);
     Some \<lparr>spatial_layer = drop_bit 4 layers AND 0x0F, temporal_layer = layers AND 0x0F,
       target_bitrate_kbps = bitrate_kbps\<rparr>
   }"

definition TargetBitrate_Parse :: "bytes \<Rightarrow> nat \<Rightarrow> u16 \<Rightarrow> TargetBitrate option" where
  "TargetBitrate_Parse p off block_length =
     (let payload_bytes = unat block_length * 4;
          num_items = payload_bytes div kBitrateItemSizeBytes
      in rd_items kBitrateItemSizeBytes rd_bitrate_item p (off + kTargetBitrateHeaderSizeBytes) num_items)"

definition TargetBitrate_BlockLength :: "TargetBitrate \<Rightarrow> nat" where
  "TargetBitrate_BlockLength b = kTargetBitrateHeaderSizeBytes + length b * kBitrateItemSizeBytes"

definition bitrate_item_bytes :: "BitrateItem \<Rightarrow> bytes" where
  "bitrate_item_bytes i =
     (push_bit 4 (spatial_layer i) OR temporal_layer i) # WriteBigEndian 3 (target_bitrate_kbps i)"

definition TargetBitrate_Create :: "TargetBitrate \<Rightarrow> bytes" where
  "TargetBitrate_Create b =
     [TargetBitrate_kBlockType, 0] @ WriteBigEndian2 (of_nat (TargetBitrate_BlockLength b div 4 - 1)) @
     concat (map bitrate_item_bytes b)"

section \<open>ExtendedReports\<close>

record ExtendedReports = RtcpPacket +
  rrtr_block :: "Rrtr option"
  dlrr_block :: Dlrr
  target_bitrate :: "TargetBitrate option"

definition ExtendedReports_kPacketType :: u8 where
  "ExtendedReports_kPacketType = 207"

definition kMaxNumberOfDlrrItems :: nat where
  "kMaxNumberOfDlrrItems = 50"

definition kXrBaseLength :: nat where
  "kXrBaseLength = 4"

lemmas xr_consts = Rrtr_kBlockType_def Rrtr_kBlockLength_def Rrtr_kLength_def Dlrr_kBlockType_def
  Dlrr_kBlockHeaderLength_def kSubBlockLength_def TargetBitrate_kBlockType_def kBitrateItemSizeBytes_def
  kTargetBitrateHeaderSizeBytes_def ExtendedReports_kPacketType_def kMaxNumberOfDlrrItems_def kXrBaseLength_def
  kHeaderSizeBytes_def

definition ParseRrtrBlock :: "bytes \<Rightarrow> nat \<Rightarrow> u16 \<Rightarrow> ExtendedReports \<Rightarrow> ExtendedReports option" where
  "ParseRrtrBlock p off block_length xr =
     (if block_length \<noteq> Rrtr_kBlockLength then Some xr
      else if rrtr_block xr \<noteq> None then Some xr
      else do {
        rrtr \<leftarrow> Rrtr_Parse p off;
        Some (xr\<lparr>rrtr_block := Some rrtr\<rparr>)
      })"

definition ParseDlrrBlock :: "bytes \<Rightarrow> nat \<Rightarrow> u16 \<Rightarrow> ExtendedReports \<Rightarrow> ExtendedReports option" where
  "ParseDlrrBlock p off block_length xr =
     (if dlrr_block xr \<noteq> [] then Some xr
      else do {
        r \<leftarrow> Dlrr_Parse p off block_length;
        case r of Rejected \<Rightarrow> Some xr | Accepted d \<Rightarrow> Some (xr\<lparr>dlrr_block := d\<rparr>)
      })"

definition ParseTargetBitrateBlock :: "bytes \<Rightarrow> nat \<Rightarrow> u16 \<Rightarrow> ExtendedReports \<Rightarrow> ExtendedReports option" where
  "ParseTargetBitrateBlock p off block_length xr = do {
     b \<leftarrow> TargetBitrate_Parse p off block_length;
     Some (xr\<lparr>target_bitrate := Some b\<rparr>)
   }"

text \<open>The loop of \<open>Parse\<close> over the report blocks; \<open>off\<close> is \<open>current_block\<close> relative to the payload.\<close>

function ExtendedReports_blocks :: "bytes \<Rightarrow> nat \<Rightarrow> ExtendedReports \<Rightarrow> ExtendedReports outcome option" where
  "ExtendedReports_blocks p off xr =
     (if off + 4 \<le> length p then do {
        block_type \<leftarrow> rd8 p off;
        block_length \<leftarrow> rd16 p (off + 2);
        let next_block = off + 4 + unat block_length * 4;
        if next_block > length p then Some Rejected
        else do {
          xr' \<leftarrow> (if block_type = Rrtr_kBlockType then ParseRrtrBlock p off block_length xr
                 else if block_type = Dlrr_kBlockType then ParseDlrrBlock p off block_length xr
                 else if block_type = TargetBitrate_kBlockType then ParseTargetBitrateBlock p off block_length xr
                 else Some xr);
          ExtendedReports_blocks p next_block xr'
        }
      }
      else Some (Accepted xr))"
  by auto
termination by (relation "measure (\<lambda>(p, off, xr). length p + 4 - off)") auto

declare ExtendedReports_blocks.simps [simp del]

definition ExtendedReports_Parse :: "CommonHeader \<Rightarrow> ExtendedReports outcome option" where
  "ExtendedReports_Parse packet =
     (if payload_size packet < kXrBaseLength then Some Rejected
      else do {
        ssrc \<leftarrow> rd32 (ch_payload packet) 0;
        ExtendedReports_blocks (ch_payload packet) kXrBaseLength
          \<lparr>sender_ssrc = ssrc, rrtr_block = None, dlrr_block = [], target_bitrate = None\<rparr>
      })"

definition ExtendedReports_SetRrtr :: "Rrtr \<Rightarrow> ExtendedReports \<Rightarrow> ExtendedReports" where
  "ExtendedReports_SetRrtr rrtr xr = xr\<lparr>rrtr_block := Some rrtr\<rparr>"

definition ExtendedReports_AddDlrrItem :: "ReceiveTimeInfo \<Rightarrow> ExtendedReports \<Rightarrow> bool \<times> ExtendedReports" where
  "ExtendedReports_AddDlrrItem time_info xr =
     (if length (dlrr_block xr) \<ge> kMaxNumberOfDlrrItems then (False, xr)
      else (True, xr\<lparr>dlrr_block := dlrr_block xr @ [time_info]\<rparr>))"

definition ExtendedReports_SetTargetBitrate :: "TargetBitrate \<Rightarrow> ExtendedReports \<Rightarrow> ExtendedReports" where
  "ExtendedReports_SetTargetBitrate bitrate xr = xr\<lparr>target_bitrate := Some bitrate\<rparr>"

definition RrtrLength :: "ExtendedReports \<Rightarrow> nat" where
  "RrtrLength xr = (if rrtr_block xr \<noteq> None then Rrtr_kLength else 0)"

definition TargetBitrateLength :: "ExtendedReports \<Rightarrow> nat" where
  "TargetBitrateLength xr = (case target_bitrate xr of None \<Rightarrow> 0 | Some b \<Rightarrow> TargetBitrate_BlockLength b)"

definition ExtendedReports_BlockLength :: "ExtendedReports \<Rightarrow> nat" where
  "ExtendedReports_BlockLength xr =
     kHeaderSizeBytes + kXrBaseLength + RrtrLength xr + Dlrr_BlockLength (dlrr_block xr) + TargetBitrateLength xr"

definition ExtendedReports_payload :: "ExtendedReports \<Rightarrow> bytes" where
  "ExtendedReports_payload xr =
     WriteBigEndian4 (sender_ssrc xr) @
     (case rrtr_block xr of None \<Rightarrow> [] | Some r \<Rightarrow> Rrtr_Create r) @
     (if dlrr_block xr \<noteq> [] then Dlrr_Create (dlrr_block xr) else []) @
     (case target_bitrate xr of None \<Rightarrow> [] | Some b \<Rightarrow> TargetBitrate_Create b)"

definition ExtendedReports_body :: "ExtendedReports \<Rightarrow> bytes" where
  "ExtendedReports_body xr =
     CreateHeader 0 ExtendedReports_kPacketType (HeaderLength (ExtendedReports_BlockLength xr)) @
     ExtendedReports_payload xr"

definition ExtendedReports_Create :: "ExtendedReports \<Rightarrow> nat \<Rightarrow> wbuf \<Rightarrow> bool \<times> wbuf" where
  "ExtendedReports_Create xr = create_block (ExtendedReports_BlockLength xr) (ExtendedReports_body xr)"

section \<open>Memory safety\<close>

lemma ParseRrtrBlock_safe: "off + 4 + unat n * 4 \<le> length p \<Longrightarrow> safe (ParseRrtrBlock p off n xr)"
  unfolding ParseRrtrBlock_def Rrtr_Parse_def Rrtr_kBlockLength_def
  by (intro safe_intros safe_bind) auto

lemma ParseDlrrBlock_safe: "off + 4 + unat n * 4 \<le> length p \<Longrightarrow> safe (ParseDlrrBlock p off n xr)"
  unfolding ParseDlrrBlock_def Dlrr_Parse_def rd_sub_block_def xr_consts
  by (intro safe_intros safe_bind safe_rd_items) auto

lemma ParseTargetBitrateBlock_safe:
  "off + 4 + unat n * 4 \<le> length p \<Longrightarrow> safe (ParseTargetBitrateBlock p off n xr)"
  unfolding ParseTargetBitrateBlock_def TargetBitrate_Parse_def rd_bitrate_item_def xr_consts
  by (intro safe_intros safe_bind safe_rd_items) auto

lemma ExtendedReports_blocks_safe: "safe (ExtendedReports_blocks p off xr)"
proof (induction p off xr rule: ExtendedReports_blocks.induct)
  case (1 p off xr)
  show ?case
    by (subst ExtendedReports_blocks.simps)
      (intro safe_if safe_bind safe_rd safe_Let safe_Some ParseRrtrBlock_safe ParseDlrrBlock_safe
        ParseTargetBitrateBlock_safe; (use "1.IH" in auto)?)
qed

lemma ExtendedReports_Parse_safe: "safe (ExtendedReports_Parse h)"
  unfolding ExtendedReports_Parse_def payload_size_def kXrBaseLength_def
  by (intro safe_intros ExtendedReports_blocks_safe) simp

section \<open>Round trip\<close>

definition BitrateItem_valid :: "BitrateItem \<Rightarrow> bool" where
  "BitrateItem_valid i \<longleftrightarrow> unat (spatial_layer i) \<le> 0x0F \<and> unat (temporal_layer i) \<le> 0x0F \<and>
     unat (target_bitrate_kbps i) \<le> 0x00FFFFFF"

definition ExtendedReports_valid :: "ExtendedReports \<Rightarrow> bool" where
  "ExtendedReports_valid xr \<longleftrightarrow>
     length (dlrr_block xr) \<le> kMaxNumberOfDlrrItems \<and>
     (case target_bitrate xr of None \<Rightarrow> True | Some b \<Rightarrow> length b \<le> 60000 \<and> list_all BitrateItem_valid b)"

lemma ExtendedReports_AddDlrrItem_valid:
  "ExtendedReports_valid xr \<Longrightarrow> ExtendedReports_valid (snd (ExtendedReports_AddDlrrItem ti xr))"
  by (auto simp: ExtendedReports_valid_def ExtendedReports_AddDlrrItem_def)

lemma layer_byte:
  assumes "unat (s :: u8) \<le> 0x0F" and "unat (t :: u8) \<le> 0x0F"
  shows "drop_bit 4 (push_bit 4 s OR t) AND 0x0F = s" and "(push_bit 4 s OR t) AND 0x0F = t"
proof -
  have b: "bit s k \<Longrightarrow> k < 4" "bit t k \<Longrightarrow> k < 4" for k
    using bit_word_less_exp [of s 4 k] bit_word_less_exp [of t 4 k] assms by auto
  have m: "(0x0F :: u8) = mask 4" by (simp add: mask_eq_exp_minus_1)
  show "drop_bit 4 (push_bit 4 s OR t) AND 0x0F = s" "(push_bit 4 s OR t) AND 0x0F = t"
    unfolding m by (rule bit_word_eqI; auto simp: bit_simps dest: b)+
qed

lemma bitrate_item_written:
  assumes "BitrateItem_valid i"
  shows "rd_bitrate_item (pre @ bitrate_item_bytes i @ post) (length pre) = Some i"
proof -
  have "take_bit 24 (target_bitrate_kbps i) = target_bitrate_kbps i"
    using assms by (simp add: BitrateItem_valid_def word_unat_eq_iff unsigned_take_bit_eq take_bit_nat_eq_self)
  then show ?thesis
    using assms layer_byte [of "spatial_layer i" "temporal_layer i"]
    by (simp add: rd_bitrate_item_def bitrate_item_bytes_def wire_simps BitrateItem_valid_def)
qed

lemma sub_block_written: "rd_sub_block (pre @ sub_block_bytes b @ post) (length pre) = Some b"
  by (simp add: rd_sub_block_def sub_block_bytes_def wire_simps)

lemma xr_item_lengths [simp]:
  "length (sub_block_bytes b) = 12" "length (bitrate_item_bytes i) = 4" "length (Rrtr_Create r) = 12"
  by (simp_all add: sub_block_bytes_def bitrate_item_bytes_def Rrtr_Create_def)

lemma xr_block_lengths:
  "length (Dlrr_Create d) = Dlrr_BlockLength d" "length (TargetBitrate_Create b) = TargetBitrate_BlockLength b"
  by (simp_all add: Dlrr_Create_def Dlrr_BlockLength_def TargetBitrate_Create_def TargetBitrate_BlockLength_def
      length_concat_uniform xr_consts)

lemma ExtendedReports_payload_length:
  "ExtendedReports_BlockLength xr = 4 + length (ExtendedReports_payload xr)"
  by (auto simp: ExtendedReports_payload_def ExtendedReports_BlockLength_def RrtrLength_def TargetBitrateLength_def
      xr_block_lengths Dlrr_BlockLength_def xr_consts split: option.split)

text \<open>One turn of the loop over a block that was written with the matching length.\<close>

lemma ExtendedReports_blocks_step:
  assumes "length content = 4 * n" and "n < 65536"
    and "blk = t # r # WriteBigEndian2 (of_nat n) @ content"
  shows "ExtendedReports_blocks (pre @ blk @ post) (length pre) xr =
    Option.bind (if t = Rrtr_kBlockType then ParseRrtrBlock (pre @ blk @ post) (length pre) (of_nat n) xr
      else if t = Dlrr_kBlockType then ParseDlrrBlock (pre @ blk @ post) (length pre) (of_nat n) xr
      else if t = TargetBitrate_kBlockType then ParseTargetBitrateBlock (pre @ blk @ post) (length pre) (of_nat n) xr
      else Some xr) (ExtendedReports_blocks (pre @ blk @ post) (length (pre @ blk)))"
proof -
  have u: "unat (of_nat n :: u16) = n" using assms(2) by (simp add: unat_of_nat_u16)
  have rd: "rd8 (pre @ blk @ post) (length pre) = Some t" "rd16 (pre @ blk @ post) (length pre + 2) = Some (of_nat n)"
    by (simp_all add: assms(3) wire_simps)
  have len: "length (pre @ blk) = length pre + 4 + n * 4" by (simp add: assms(1,3))
  then have c: "length pre + 4 \<le> length (pre @ blk @ post)"
    "\<not> length pre + 4 + n * 4 > length (pre @ blk @ post)" by simp_all
  show ?thesis
    by (subst ExtendedReports_blocks.simps) (simp only: rd u c len Let_def bind.simps if_True if_False)
qed

lemma ExtendedReports_blocks_end: "ExtendedReports_blocks p (length p) xr = Some (Accepted xr)"
  by (subst ExtendedReports_blocks.simps) simp

lemma Rrtr_block_written:
  assumes "rrtr_block xr = None"
  shows "ExtendedReports_blocks (pre @ Rrtr_Create r @ post) (length pre) xr =
    ExtendedReports_blocks (pre @ Rrtr_Create r @ post) (length (pre @ Rrtr_Create r)) (xr\<lparr>rrtr_block := Some r\<rparr>)"
proof -
  have "Rrtr_Parse (pre @ Rrtr_Create r @ post) (length pre) = Some r"
    by (simp add: Rrtr_Parse_def Rrtr_Create_def wire_simps)
  then show ?thesis
    using ExtendedReports_blocks_step [where n = 2 and t = Rrtr_kBlockType and r = 0 and blk = "Rrtr_Create r"
        and content = "WriteBigEndian4 (NtpTime_seconds r) @ WriteBigEndian4 (NtpTime_fractions r)"] assms
    by (simp add: ParseRrtrBlock_def Rrtr_Create_def [of r] Rrtr_kBlockLength_def)
qed

lemma Dlrr_block_written:
  assumes "dlrr_block xr = []" and "length d \<le> 50" and "d \<noteq> []"
  shows "ExtendedReports_blocks (pre @ Dlrr_Create d @ post) (length pre) xr =
    ExtendedReports_blocks (pre @ Dlrr_Create d @ post) (length (pre @ Dlrr_Create d)) (xr\<lparr>dlrr_block := d\<rparr>)"
proof -
  let ?p = "pre @ Dlrr_Create d @ post"
  have blk: "Dlrr_Create d = Dlrr_kBlockType # 0 # WriteBigEndian2 (of_nat (3 * length d)) @ concat (map sub_block_bytes d)"
    using assms(3) by (simp add: Dlrr_Create_def)
  have u: "unat (of_nat (3 * length d) :: u16) = 3 * length d" using assms(2) by (intro unat_of_nat_u16) simp
  have "rd_items 12 rd_sub_block ?p (length pre + 4) (length d) = Some d"
    using rd_items_written [where rd = rd_sub_block and w = sub_block_bytes and f = id and len = 12 and xs = d
        and pre = "pre @ Dlrr_kBlockType # 0 # WriteBigEndian2 (of_nat (3 * length d))" and post = post]
    by (simp add: sub_block_written blk)
  then have "Dlrr_Parse ?p (length pre) (of_nat (3 * length d)) = Some (Accepted d)"
    unfolding Dlrr_Parse_def u by (simp add: xr_consts)
  then have "ParseDlrrBlock ?p (length pre) (of_nat (3 * length d)) xr = Some (xr\<lparr>dlrr_block := d\<rparr>)"
    unfolding ParseDlrrBlock_def using assms(1) by simp
  moreover have "Dlrr_kBlockType \<noteq> Rrtr_kBlockType" by (simp add: xr_consts)
  moreover have "length (concat (map sub_block_bytes d)) = 4 * (3 * length d)" by (simp add: length_concat_uniform)
  moreover have "3 * length d < 65536" using assms(2) by simp
  ultimately show ?thesis
    by (simp only: ExtendedReports_blocks_step [OF _ _ blk] bind.simps refl if_True if_False)
qed

lemma TargetBitrate_block_written:
  assumes "length b \<le> 60000" and "list_all BitrateItem_valid b"
  shows "ExtendedReports_blocks (pre @ TargetBitrate_Create b @ post) (length pre) xr =
    ExtendedReports_blocks (pre @ TargetBitrate_Create b @ post) (length (pre @ TargetBitrate_Create b))
      (xr\<lparr>target_bitrate := Some b\<rparr>)"
proof -
  let ?p = "pre @ TargetBitrate_Create b @ post"
  have blk: "TargetBitrate_Create b =
      TargetBitrate_kBlockType # 0 # WriteBigEndian2 (of_nat (length b)) @ concat (map bitrate_item_bytes b)"
    by (simp add: TargetBitrate_Create_def TargetBitrate_BlockLength_def xr_consts)
  have u: "unat (of_nat (length b) :: u16) = length b" using assms(1) by (intro unat_of_nat_u16) simp
  have "rd_items 4 rd_bitrate_item ?p (length pre + 4) (length b) = Some b"
    using rd_items_written [where rd = rd_bitrate_item and w = bitrate_item_bytes and f = id and len = 4 and xs = b
        and pre = "pre @ TargetBitrate_kBlockType # 0 # WriteBigEndian2 (of_nat (length b))" and post = post] assms(2)
    by (simp add: bitrate_item_written blk list_all_iff)
  then have "TargetBitrate_Parse ?p (length pre) (of_nat (length b)) = Some b"
    unfolding TargetBitrate_Parse_def u by (simp add: xr_consts)
  then have "ParseTargetBitrateBlock ?p (length pre) (of_nat (length b)) xr = Some (xr\<lparr>target_bitrate := Some b\<rparr>)"
    unfolding ParseTargetBitrateBlock_def by simp
  moreover have "TargetBitrate_kBlockType \<noteq> Rrtr_kBlockType" "TargetBitrate_kBlockType \<noteq> Dlrr_kBlockType"
    by (simp_all add: xr_consts)
  moreover have "length (concat (map bitrate_item_bytes b)) = 4 * length b" by (simp add: length_concat_uniform)
  moreover have "length b < 65536" using assms(1) by simp
  ultimately show ?thesis
    by (simp only: ExtendedReports_blocks_step [OF _ _ blk] bind.simps refl if_True if_False)
qed

lemma ExtendedReports_blocks_written:
  assumes "ExtendedReports_valid xr"
  shows "ExtendedReports_blocks (ExtendedReports_payload xr) 4
    \<lparr>sender_ssrc = sender_ssrc xr, rrtr_block = None, dlrr_block = [], target_bitrate = None\<rparr> = Some (Accepted xr)"
proof -
  let ?w = "WriteBigEndian4 (sender_ssrc xr)"
  let ?r = "case rrtr_block xr of None \<Rightarrow> [] | Some r \<Rightarrow> Rrtr_Create r"
  let ?d = "if dlrr_block xr \<noteq> [] then Dlrr_Create (dlrr_block xr) else []"
  let ?t = "case target_bitrate xr of None \<Rightarrow> [] | Some b \<Rightarrow> TargetBitrate_Create b"
  let ?p = "ExtendedReports_payload xr" and ?x = "ExtendedReports_blocks (ExtendedReports_payload xr)"
  have p: "?p = ?w @ ?r @ ?d @ ?t" by (simp add: ExtendedReports_payload_def)
  have v: "length (dlrr_block xr) \<le> 50" "\<And>b. target_bitrate xr = Some b \<Longrightarrow> length b \<le> 60000 \<and> list_all BitrateItem_valid b"
    using assms by (auto simp: ExtendedReports_valid_def xr_consts)
  have 1: "?x (length ?w) \<lparr>sender_ssrc = s, rrtr_block = None, dlrr_block = [], target_bitrate = None\<rparr> =
      ?x (length (?w @ ?r)) \<lparr>sender_ssrc = s, rrtr_block = rrtr_block xr, dlrr_block = [], target_bitrate = None\<rparr>" for s
    unfolding p by (cases "rrtr_block xr") (simp_all only: option.case Rrtr_block_written append_Nil2 append_Nil
        ExtendedReports.simps)
  have 2: "?x (length (?w @ ?r)) \<lparr>sender_ssrc = s, rrtr_block = o', dlrr_block = [], target_bitrate = None\<rparr> =
      ?x (length ((?w @ ?r) @ ?d)) \<lparr>sender_ssrc = s, rrtr_block = o', dlrr_block = dlrr_block xr, target_bitrate = None\<rparr>"
    for s o'
    using Dlrr_block_written [of "\<lparr>sender_ssrc = s, rrtr_block = o', dlrr_block = [], target_bitrate = None\<rparr>"
        "dlrr_block xr" "?w @ ?r" ?t] v(1)
    unfolding p by (cases "dlrr_block xr = []") simp_all
  have 3: "?x (length ((?w @ ?r) @ ?d)) \<lparr>sender_ssrc = s, rrtr_block = o', dlrr_block = d', target_bitrate = None\<rparr> =
      ?x (length ?p) \<lparr>sender_ssrc = s, rrtr_block = o', dlrr_block = d', target_bitrate = target_bitrate xr\<rparr>" for s o' d'
  proof (cases "target_bitrate xr")
    case (Some b)
    then show ?thesis
      using TargetBitrate_block_written [of b "(?w @ ?r) @ ?d" "[]"
          "\<lparr>sender_ssrc = s, rrtr_block = o', dlrr_block = d', target_bitrate = None\<rparr>"] v(2) [OF Some]
      unfolding p by simp
  qed (simp add: p)
  have 4: "length ?w = 4" by simp
  show ?thesis
    using 1 [of "sender_ssrc xr"] unfolding 2 3 4 by (simp add: ExtendedReports_blocks_end)
qed

interpretation xr: rtcp_codec ExtendedReports_BlockLength ExtendedReports_body ExtendedReports_Parse
  ExtendedReports_kPacketType ExtendedReports_valid id
proof (rule rtcp_codec_block [OF ExtendedReports_body_def ExtendedReports_payload_length _ _ ExtendedReports_Parse_safe])
  fix xr :: ExtendedReports and rest
  assume v: "ExtendedReports_valid xr"
  have "4 dvd ExtendedReports_BlockLength xr" "ExtendedReports_BlockLength xr \<le> 4 + 4 + 12 + 604 + 240004"
    using v by (auto simp: ExtendedReports_BlockLength_def RrtrLength_def TargetBitrateLength_def Dlrr_BlockLength_def
        TargetBitrate_BlockLength_def ExtendedReports_valid_def xr_consts split: option.splits)
  then show "(0::nat) < 32 \<and> 4 dvd length (ExtendedReports_payload xr) \<and> length (ExtendedReports_payload xr) < 4 * 65536"
    using ExtendedReports_payload_length [of xr] by auto
  have "rd32 (ExtendedReports_payload xr) 0 = Some (sender_ssrc xr)"
    by (simp add: ExtendedReports_payload_def wire_simps)
  then show "ExtendedReports_Parse \<lparr>ch_packet_type = ExtendedReports_kPacketType, ch_count_or_format = of_nat 0,
      ch_padding_size = 0, ch_payload = ExtendedReports_payload xr, ch_next = rest\<rparr> = Some (Accepted (id xr))"
    using ExtendedReports_blocks_written [OF v] ExtendedReports_payload_length [of xr]
    by (simp add: ExtendedReports_Parse_def payload_size_def kXrBaseLength_def)
      (simp add: ExtendedReports_BlockLength_def xr_consts)
qed

section \<open>Main properties\<close>

text \<open>
  C26: An extended report with any combination of a reference time, up to 50 DLRR items and a list of
  target bitrates comes back from the wire unchanged.
\<close>

theorem extended_reports_roundtrip:
  assumes "ExtendedReports_valid xr"
  shows "length (Build (ExtendedReports_BlockLength xr) (ExtendedReports_Create xr)) = ExtendedReports_BlockLength xr \<and>
    parse_block ExtendedReports_Parse (Build (ExtendedReports_BlockLength xr) (ExtendedReports_Create xr)) =
      Some (Accepted (xr, []))"
proof -
  have "ExtendedReports_Create xr = create_block (ExtendedReports_BlockLength xr) (ExtendedReports_body xr)"
    by (simp add: ExtendedReports_Create_def fun_eq_iff)
  then show ?thesis using xr.Build_roundtrip [OF assms] by simp
qed

definition xr_example :: ExtendedReports where
  "xr_example = \<lparr>sender_ssrc = 1, rrtr_block = Some (NtpTime_Set 2 3),
     dlrr_block = [\<lparr>rti_ssrc = 1, rti_last_rr = 2, rti_delay_since_last_rr = 3\<rparr>],
     target_bitrate = Some [\<lparr>spatial_layer = 1, temporal_layer = 2, target_bitrate_kbps = 3000\<rparr>]\<rparr>"

theorem extended_reports_roundtrip_witness:
  "parse_block ExtendedReports_Parse (Build (ExtendedReports_BlockLength xr_example)
     (ExtendedReports_Create xr_example)) = Some (Accepted (xr_example, []))"
proof -
  have "ExtendedReports_valid xr_example"
    by (simp add: ExtendedReports_valid_def xr_example_def BitrateItem_valid_def kMaxNumberOfDlrrItems_def)
  from extended_reports_roundtrip [OF this] show ?thesis by blast
qed

end
