(* ===== verification/Ccfb.thy ===== *)
theory Ccfb
  imports Rtcp_Bitrate Units
begin

text \<open>
  The congestion control feedback message of RFC 8888
  (\<open>rtcp_packet/congestion_control_feedback.cc\<close>), which carries, per packet, whether it arrived, its
  ECN marking and its arrival time as a 13-bit offset in units of 1/1024 second. The offset is
  computed in single precision; \<open>f32_round\<close> is IEEE round-to-nearest-even on the integers, which
  is all the computation needs since scaling by powers of two is exact.
\<close>

unbundle bit_operations_syntax

section \<open>Single precision\<close>

definition f32_round :: "nat \<Rightarrow> nat" where
  "f32_round n =
     (let e = expo 23 n; q = mant 23 n; r = n - q * 2 ^ e
      in (if 2 * r > 2 ^ e \<or> 2 * r = 2 ^ e \<and> odd q then q + 1 else q) * 2 ^ e)"

lemma f32_round_exact: "n < 2 ^ 24 \<Longrightarrow> f32_round n = n"
  by (simp add: f32_round_def mant_def expo_def mantissa_loop.simps)

lemma f32_round_near: "2 ^ 24 * f32_round n \<le> (2 ^ 24 + 1) * n" "(2 ^ 24 - 1) * n \<le> 2 ^ 24 * f32_round n"
proof -
  define e q r where "e = expo 23 n" and "q = mant 23 n" and "r = n - q * 2 ^ e"
  have r: "n = q * 2 ^ e + r" "r < 2 ^ e"
    using rounded_bounds(1) [of 23 n] rounded_bounds(2) [of n 23] by (auto simp: r_def rounded_def e_def q_def)
  have f: "f32_round n = (if 2 * r > 2 ^ e \<or> 2 * r = 2 ^ e \<and> odd q then q + 1 else q) * 2 ^ e"
    by (simp add: f32_round_def e_def q_def r_def Let_def)
  have big: "e = 0 \<or> 2 ^ 23 * 2 ^ e \<le> n"
  proof (cases "e = 0")
    case False
    then have "2 ^ 23 \<le> q" using mant_expo(3) [of 23 n] by (simp add: e_def q_def)
    then have "2 ^ 23 * 2 ^ e \<le> q * 2 ^ e" by (rule mult_le_mono1)
    then show ?thesis using r(1) by linarith
  qed simp
  show "2 ^ 24 * f32_round n \<le> (2 ^ 24 + 1) * n" "(2 ^ 24 - 1) * n \<le> 2 ^ 24 * f32_round n"
    using r big unfolding f by (auto simp: distrib_right)
qed

section \<open>Arrival time offset and ECN\<close>

datatype EcnMarking = kNotEct | kEct1 | kEct0 | kCe

text \<open>\<open>arrival_time_offset.seconds<float>()\<close> is the offset in microseconds, rounded to single
  precision, times the single-precision value of \<open>1e-6\<close>, which is \<open>8796093 / 2^43\<close>; the product
  with 1024 is exact.\<close>

definition To13bitAto :: "TimeDelta \<Rightarrow> u16" where
  "To13bitAto arrival_time_offset =
     (if arrival_time_offset < 0 then 0x1FFF
      else of_nat (min (f32_round (f32_round (nat arrival_time_offset) * 8796093) div 2 ^ 33) 0x1FFE))"

definition AtoToTimeDelta :: "u16 \<Rightarrow> TimeDelta" where
  "AtoToTimeDelta receive_info =
     (let ato = receive_info AND 0x1FFF
      in if ato = 0x1FFE then PlusInfinity
         else if ato = 0x1FFF then MinusInfinity
         else unit_divide (TimeDelta_Seconds (uint ato)) 1024)"

definition To2BitEcn :: "EcnMarking \<Rightarrow> u16" where
  "To2BitEcn ecn_marking =
     (case ecn_marking of
        kNotEct \<Rightarrow> 0
      | kEct1 \<Rightarrow> push_bit 13 0x01
      | kEct0 \<Rightarrow> push_bit 13 0x02
      | kCe \<Rightarrow> push_bit 13 0x03)"

definition ToEcnMarking :: "u16 \<Rightarrow> EcnMarking" where
  "ToEcnMarking receive_info =
     (let ecn = drop_bit 13 receive_info AND 3
      in if ecn = 0x01 then kEct1 else if ecn = 0x02 then kEct0 else if ecn = 0x03 then kCe else kNotEct)"

text \<open>The microseconds an offset decodes to.\<close>

definition ato_ticks :: "nat \<Rightarrow> nat" where
  "ato_ticks us = f32_round (f32_round us * 8796093) div 2 ^ 33"

lemma ato_error:
  assumes "us < 2 ^ 23"
  shows "ato_ticks us * 1000000 div 1024 \<le> us" and "us \<le> ato_ticks us * 1000000 div 1024 + 978"
proof -
  define b k d where "b = f32_round (us * 8796093)" and "k = b div 2 ^ 33" and "d = k * 1000000 div 1024"
  have t: "ato_ticks us = k" using f32_round_exact [of us] assms by (simp add: ato_ticks_def k_def b_def)
  have b: "16777216 * b \<le> 16777217 * (us * 8796093)" "16777215 * (us * 8796093) \<le> 16777216 * b"
    using f32_round_near [of "us * 8796093"] by (simp_all add: b_def)
  have k: "k * 8589934592 \<le> b" "b < k * 8589934592 + 8589934592"
    using div_mult_mod_eq [of b "2 ^ 33"] mod_less_divisor [of "2 ^ 33" b] unfolding k_def by simp_all
  have d: "d * 1024 \<le> k * 1000000" "k * 1000000 < d * 1024 + 1024"
    using div_mult_mod_eq [of "k * 1000000" 1024] mod_less_divisor [of 1024 "k * 1000000"]
    unfolding d_def by simp_all
  have us: "us < 8388608" using assms by simp
  show "ato_ticks us * 1000000 div 1024 \<le> us" "us \<le> ato_ticks us * 1000000 div 1024 + 978"
    unfolding t d_def [symmetric] using b k d us by linarith+
qed

section \<open>The message\<close>

record PacketInfo =
  pi_ssrc :: u32
  pi_sequence_number :: u16
  pi_arrival_time_offset :: TimeDelta
  pi_ecn :: EcnMarking

record Ccfb = Feedback +
  ccfb_packets :: "PacketInfo list"
  ccfb_report_timestamp :: u32

definition Ccfb_kFeedbackMessageType :: nat where
  "Ccfb_kFeedbackMessageType = 11"

definition kSenderSsrcLength :: nat where
  "kSenderSsrcLength = 4"

definition kHeaderPerMediaSssrcLength :: nat where
  "kHeaderPerMediaSssrcLength = 8"

definition kTimestampLength :: nat where
  "kTimestampLength = 4"

lemmas ccfb_consts = Ccfb_kFeedbackMessageType_def kSenderSsrcLength_def kHeaderPerMediaSssrcLength_def
  kTimestampLength_def Rtpfb_kPacketType_def kHeaderSizeBytes_def

definition Ccfb_init :: "PacketInfo list \<Rightarrow> u32 \<Rightarrow> Ccfb" where
  "Ccfb_init packets compact_ntp =
     \<lparr>sender_ssrc = 0, media_ssrc = 0, ccfb_packets = packets, ccfb_report_timestamp = compact_ntp\<rparr>"

definition packet_info_word :: "PacketInfo \<Rightarrow> u16" where
  "packet_info_word packet =
     (if IsFinite (pi_arrival_time_offset packet)
      then 0x8000 OR To2BitEcn (pi_ecn packet) OR To13bitAto (pi_arrival_time_offset packet)
      else 0)"

text \<open>The lambda \<open>write_report_for_ssrc\<close>.\<close>

definition write_report_for_ssrc :: "PacketInfo list \<Rightarrow> bytes" where
  "write_report_for_ssrc packets =
     (let num_reports = (of_nat (length packets) :: u16)
      in WriteBigEndian4 (pi_ssrc (hd packets)) @
         WriteBigEndian2 (pi_sequence_number (hd packets)) @
         (if num_reports > 16384 then []
          else
            WriteBigEndian2 num_reports @
            concat (map (\<lambda>p. WriteBigEndian2 (packet_info_word p)) packets) @
            (if num_reports mod 2 \<noteq> 0 then WriteBigEndian2 0 else [])))"

text \<open>The packets at the front that share the SSRC of the first one.\<close>

definition packets_for_ssrc :: "PacketInfo list \<Rightarrow> PacketInfo list" where
  "packets_for_ssrc remaining = takeWhile (\<lambda>p. pi_ssrc p = pi_ssrc (hd remaining)) remaining"

function write_reports :: "PacketInfo list \<Rightarrow> bytes" where
  "write_reports remaining =
     (if remaining = [] then []
      else write_report_for_ssrc (packets_for_ssrc remaining) @
           write_reports (drop (length (packets_for_ssrc remaining)) remaining))"
  by auto
termination
  by (relation "measure length") (auto simp: packets_for_ssrc_def neq_Nil_conv)

declare write_reports.simps [simp del]

definition increase_size_per_ssrc :: "u16 \<Rightarrow> nat" where
  "increase_size_per_ssrc number_of_packets =
     kHeaderPerMediaSssrcLength + unat number_of_packets * 2 + (if unat number_of_packets mod 2 \<noteq> 0 then 2 else 0)"

text \<open>The loop of \<open>BlockLength\<close>; \<open>prev\<close> is the sequence number of \<open>packets_[i - 1]\<close>.\<close>

fun sizes_per_ssrc :: "u32 \<Rightarrow> u16 \<Rightarrow> u16 \<Rightarrow> PacketInfo list \<Rightarrow> nat" where
  "sizes_per_ssrc ssrc first_sequence_number prev [] = increase_size_per_ssrc (prev - first_sequence_number + 1)"
| "sizes_per_ssrc ssrc first_sequence_number prev (p # ps) =
     (if pi_ssrc p \<noteq> ssrc
      then increase_size_per_ssrc (prev - first_sequence_number + 1) +
           sizes_per_ssrc (pi_ssrc p) (pi_sequence_number p) (pi_sequence_number p) ps
      else sizes_per_ssrc ssrc first_sequence_number (pi_sequence_number p) ps)"

definition Ccfb_BlockLength :: "Ccfb \<Rightarrow> nat" where
  "Ccfb_BlockLength p =
     kSenderSsrcLength + kHeaderSizeBytes + kTimestampLength +
     (case ccfb_packets p of
        [] \<Rightarrow> 0
      | q # qs \<Rightarrow> sizes_per_ssrc (pi_ssrc q) (pi_sequence_number q) (pi_sequence_number q) (q # qs))"

definition Ccfb_payload :: "Ccfb \<Rightarrow> bytes" where
  "Ccfb_payload p =
     WriteBigEndian4 (sender_ssrc p) @ write_reports (ccfb_packets p) @ WriteBigEndian4 (ccfb_report_timestamp p)"

definition Ccfb_body :: "Ccfb \<Rightarrow> bytes" where
  "Ccfb_body p =
     CreateHeader Ccfb_kFeedbackMessageType Rtpfb_kPacketType (HeaderLength (Ccfb_BlockLength p)) @ Ccfb_payload p"

definition Ccfb_Create :: "Ccfb \<Rightarrow> nat \<Rightarrow> wbuf \<Rightarrow> bool \<times> wbuf" where
  "Ccfb_Create p = create_block (Ccfb_BlockLength p) (Ccfb_body p)"

definition packet_of_info :: "u32 \<Rightarrow> u16 \<Rightarrow> nat \<times> u16 \<Rightarrow> PacketInfo" where
  "packet_of_info ssrc base_seqno = (\<lambda>(i, packet_info).
     \<lparr>pi_ssrc = ssrc, pi_sequence_number = base_seqno + of_nat i,
      pi_arrival_time_offset =
        (if packet_info AND 0x8000 \<noteq> 0 then AtoToTimeDelta packet_info else MinusInfinity),
      pi_ecn = ToEcnMarking packet_info\<rparr>)"

text \<open>The loop of \<open>Parse\<close> over the reports per SSRC: \<open>off\<close> is \<open>payload\<close>, \<open>fin\<close> is \<open>payload_end\<close> and
  \<open>acc\<close> is \<open>packets_\<close>. The answer is \<open>payload == payload_end\<close>.\<close>

function Ccfb_reports :: "bytes \<Rightarrow> nat \<Rightarrow> nat \<Rightarrow> PacketInfo list \<Rightarrow> PacketInfo list outcome option" where
  "Ccfb_reports p off fin acc =
     (if off + kHeaderPerMediaSssrcLength < fin then do {
        ssrc \<leftarrow> rd32 p off;
        base_seqno \<leftarrow> rd16 p (off + 4);
        num_reports \<leftarrow> rd16 p (off + 6);
        if off + 8 + 2 * unat num_reports > fin then Some Rejected
        else do {
          infos \<leftarrow> rd_items 2 rd16 p (off + 8) (unat num_reports);
          Ccfb_reports p (off + 8 + 2 * unat num_reports + (if unat num_reports mod 2 \<noteq> 0 then 2 else 0)) fin
            (acc @ map (packet_of_info ssrc base_seqno) (enumerate 0 infos))
        }
      }
      else if off = fin then Some (Accepted acc) else Some Rejected)"
  by auto
termination by (relation "measure (\<lambda>(p, off, fin, acc). fin - off)") (auto simp: kHeaderPerMediaSssrcLength_def)

declare Ccfb_reports.simps [simp del]

definition Ccfb_Parse :: "CommonHeader \<Rightarrow> Ccfb outcome option" where
  "Ccfb_Parse packet =
     (if payload_size packet mod 4 \<noteq> 0 \<or> payload_size packet < kSenderSsrcLength + kTimestampLength then Some Rejected
      else do {
        ssrc \<leftarrow> rd32 (ch_payload packet) 0;
        timestamp \<leftarrow> rd32 (ch_payload packet) (payload_size packet - 4);
        r \<leftarrow> Ccfb_reports (ch_payload packet) 4 (payload_size packet - 4) [];
        case r of
          Rejected \<Rightarrow> Some Rejected
        | Accepted packets \<Rightarrow> Some (Accepted \<lparr>sender_ssrc = ssrc, media_ssrc = 0, ccfb_packets = packets,
            ccfb_report_timestamp = timestamp\<rparr>)
      })"

section \<open>Memory safety\<close>

lemma Ccfb_reports_safe: "fin \<le> length p \<Longrightarrow> safe (Ccfb_reports p off fin acc)"
proof (induction p off fin acc rule: Ccfb_reports.induct)
  case (1 p off fin acc)
  show ?case
    by (subst Ccfb_reports.simps)
      (intro safe_if safe_bind safe_rd safe_rd_items safe_Some "1.IH"; use "1.prems" in \<open>auto simp: ccfb_consts\<close>)
qed

lemma Ccfb_Parse_safe: "safe (Ccfb_Parse h)"
  unfolding Ccfb_Parse_def payload_size_def ccfb_consts
  by (intro safe_intros safe_bind [OF Ccfb_reports_safe]) auto

section \<open>One packet\<close>

lemma report_fields:
  assumes "unat (a :: u16) < 2 ^ 13" and "unat e < 2 ^ 2"
  defines "w \<equiv> 0x8000 OR push_bit 13 e OR a"
  shows "w AND 0x8000 \<noteq> 0" and "w AND 0x1FFF = a" and "drop_bit 13 w AND 3 = e"
proof -
  have b: "bit a k \<Longrightarrow> k < 13" "bit e k \<Longrightarrow> k < 2" for k
    using bit_word_less_exp [OF assms(1), of k] bit_word_less_exp [OF assms(2), of k] by auto
  have m: "(0x1FFF :: u16) = mask 13" "(3 :: u16) = mask 2" "(0x8000 :: u16) = 2 ^ 15"
    by (simp_all add: mask_eq_exp_minus_1)
  have "bit (2 ^ 15 :: u16) k \<longleftrightarrow> k = 15" for k
    by (simp only: bit_exp_iff) auto
  then have h: "bit (0x8000 :: u16) k \<longleftrightarrow> k = 15" for k unfolding m(3) .
  have w: "bit w k \<longleftrightarrow> k < 16 \<and> (k = 15 \<or> 13 \<le> k \<and> bit e (k - 13) \<or> bit a k)" for k
    unfolding w_def bit_or_iff h by (auto simp: bit_push_bit_iff dest: b bit_u16_lt)
  have "bit (w AND 0x8000) 15" by (simp add: bit_and_iff h w)
  then show "w AND 0x8000 \<noteq> 0" by auto
  show "w AND 0x1FFF = a" unfolding m by (rule bit_word_eqI) (auto simp: bit_simps w dest: b)
  show "drop_bit 13 w AND 3 = e" unfolding m by (rule bit_word_eqI) (auto simp: bit_simps w dest: b)
qed

lemma To13bitAto_lt: "unat (To13bitAto t) < 2 ^ 13"
proof (cases "t < 0")
  case False
  let ?m = "min (f32_round (f32_round (nat t) * 8796093) div 2 ^ 33) 0x1FFE"
  have m: "?m \<le> 0x1FFE" by (rule min.cobounded2)
  then have "unat (of_nat ?m :: u16) = ?m" by (intro unat_of_nat_u16) linarith
  then have "unat (To13bitAto t) = ?m" using False by (simp only: To13bitAto_def if_False)
  then show ?thesis using m by simp
qed (simp add: To13bitAto_def)

definition ecn_bits :: "EcnMarking \<Rightarrow> u16" where
  "ecn_bits e = (case e of kNotEct \<Rightarrow> 0 | kEct1 \<Rightarrow> 1 | kEct0 \<Rightarrow> 2 | kCe \<Rightarrow> 3)"

lemma To2BitEcn_bits: "To2BitEcn e = push_bit 13 (ecn_bits e)" "unat (ecn_bits e) < 2 ^ 2"
  by (cases e; simp add: To2BitEcn_def ecn_bits_def)+

text \<open>What one packet is after the trip.\<close>

definition packet_canon :: "PacketInfo \<Rightarrow> PacketInfo" where
  "packet_canon p =
     (if IsFinite (pi_arrival_time_offset p)
      then p\<lparr>pi_arrival_time_offset := AtoToTimeDelta (To13bitAto (pi_arrival_time_offset p))\<rparr>
      else p\<lparr>pi_arrival_time_offset := MinusInfinity, pi_ecn := kNotEct\<rparr>)"

lemma AtoToTimeDelta_masked: "w AND 0x1FFF = a \<Longrightarrow> unat a < 2 ^ 13 \<Longrightarrow> AtoToTimeDelta w = AtoToTimeDelta a"
proof -
  assume w: "w AND 0x1FFF = a" and "unat a < 2 ^ 13"
  then have "a AND 0x1FFF = a" by (metis and.idem and.assoc)
  with w show ?thesis by (simp only: AtoToTimeDelta_def)
qed

lemma packet_of_info_word:
  "packet_of_info (pi_ssrc p) base (i, packet_info_word p) = (packet_canon p)\<lparr>pi_sequence_number := base + of_nat i\<rparr>"
proof (cases "IsFinite (pi_arrival_time_offset p)")
  case True
  let ?a = "To13bitAto (pi_arrival_time_offset p)" and ?w = "packet_info_word p"
  have w: "?w = 0x8000 OR push_bit 13 (ecn_bits (pi_ecn p)) OR ?a"
    using True by (simp only: packet_info_word_def To2BitEcn_bits if_True)
  note f = report_fields [OF To13bitAto_lt To2BitEcn_bits(2), of "pi_ecn p" "pi_arrival_time_offset p", folded w]
  have ecn: "ToEcnMarking ?w = pi_ecn p"
    unfolding ToEcnMarking_def Let_def f(3) by (cases "pi_ecn p") (simp_all add: ecn_bits_def)
  have ato: "AtoToTimeDelta ?w = AtoToTimeDelta ?a" by (rule AtoToTimeDelta_masked [OF f(2) To13bitAto_lt])
  show ?thesis
    unfolding packet_of_info_def prod.case using f(1) ecn ato True by (simp add: packet_canon_def)
next
  case False
  then show ?thesis
    by (simp add: packet_of_info_def packet_info_word_def packet_canon_def ToEcnMarking_def)
qed

section \<open>One report per SSRC\<close>

text \<open>A non-empty list of packets of one SSRC with consecutive sequence numbers.\<close>

definition ssrc_run :: "PacketInfo list \<Rightarrow> bool" where
  "ssrc_run ps \<longleftrightarrow> ps \<noteq> [] \<and> (\<forall>p \<in> set ps. pi_ssrc p = pi_ssrc (hd ps)) \<and>
     map pi_sequence_number ps = map (\<lambda>i. pi_sequence_number (hd ps) + of_nat i) [0..<length ps]"

text \<open>Packets sorted by SSRC and sequence number without gaps, as the constructor requires.\<close>

function runs_ok :: "PacketInfo list \<Rightarrow> bool" where
  "runs_ok ps =
     (if ps = [] then True
      else ssrc_run (packets_for_ssrc ps) \<and> runs_ok (drop (length (packets_for_ssrc ps)) ps))"
  by auto
termination
  by (relation "measure length") (auto simp: packets_for_ssrc_def neq_Nil_conv)

declare runs_ok.simps [simp del]

definition Ccfb_valid :: "Ccfb \<Rightarrow> bool" where
  "Ccfb_valid p \<longleftrightarrow> media_ssrc p = 0 \<and> length (ccfb_packets p) \<le> 16384 \<and> runs_ok (ccfb_packets p)"

definition Ccfb_canon :: "Ccfb \<Rightarrow> Ccfb" where
  "Ccfb_canon p = p\<lparr>ccfb_packets := map packet_canon (ccfb_packets p)\<rparr>"

lemma of_nat_u16_le: "n \<le> 16384 \<Longrightarrow> unat (of_nat n :: u16) = n \<and> \<not> (of_nat n :: u16) > 16384"
  by (simp add: unat_of_nat_u16 word_less_nat_alt)

lemma write_report_small:
  assumes "length ps \<le> 16384"
  shows "write_report_for_ssrc ps =
     WriteBigEndian4 (pi_ssrc (hd ps)) @ WriteBigEndian2 (pi_sequence_number (hd ps)) @
     WriteBigEndian2 (of_nat (length ps)) @ concat (map (WriteBigEndian2 \<circ> packet_info_word) ps) @
     (if odd (length ps) then WriteBigEndian2 0 else [])"
proof -
  have "(of_nat (length ps) :: u16) mod 2 \<noteq> 0 \<longleftrightarrow> odd (length ps)"
    using of_nat_u16_le [OF assms] by (simp add: word_unat_eq_iff unat_mod_distrib mod_2_eq_odd)
  then show ?thesis
    using of_nat_u16_le [OF assms] by (simp add: write_report_for_ssrc_def Let_def comp_def)
qed

lemma write_report_length:
  "length ps \<le> 16384 \<Longrightarrow>
    length (write_report_for_ssrc ps) = 8 + 2 * length ps + (if odd (length ps) then 2 else 0)"
  by (simp add: write_report_small length_concat_uniform)

lemma packets_for_ssrc_split:
  "ps \<noteq> [] \<Longrightarrow> \<exists>rest. ps = packets_for_ssrc ps @ rest \<and> packets_for_ssrc ps \<noteq> [] \<and>
    hd (packets_for_ssrc ps) = hd ps \<and> drop (length (packets_for_ssrc ps)) ps = rest \<and>
    (rest = [] \<or> pi_ssrc (hd rest) \<noteq> pi_ssrc (hd ps))"
proof -
  assume "ps \<noteq> []"
  let ?P = "\<lambda>p. pi_ssrc p = pi_ssrc (hd ps)"
  have "ps = takeWhile ?P ps @ dropWhile ?P ps" by simp
  moreover have "takeWhile ?P ps \<noteq> []" "hd (takeWhile ?P ps) = hd ps" using \<open>ps \<noteq> []\<close> by (cases ps; simp)+
  moreover have "drop (length (takeWhile ?P ps)) ps = dropWhile ?P ps"
    by (metis append_eq_conv_conj takeWhile_dropWhile_id)
  moreover have "dropWhile ?P ps = [] \<or> \<not> ?P (hd (dropWhile ?P ps))" using hd_dropWhile by blast
  ultimately show ?thesis unfolding packets_for_ssrc_def by blast
qed

lemma run_canon:
  assumes "ssrc_run ps"
  shows "map (packet_of_info (pi_ssrc (hd ps)) (pi_sequence_number (hd ps))) (enumerate 0 (map packet_info_word ps)) =
    map packet_canon ps"
proof (rule nth_equalityI)
  fix i assume "i < length (map (packet_of_info (pi_ssrc (hd ps)) (pi_sequence_number (hd ps))) (enumerate 0 (map packet_info_word ps)))"
  then have i: "i < length ps" by simp
  have "map pi_sequence_number ps ! i = map (\<lambda>i. pi_sequence_number (hd ps) + of_nat i) [0..<length ps] ! i"
    using assms by (simp only: ssrc_run_def)
  then have q: "pi_sequence_number (ps ! i) = pi_sequence_number (hd ps) + of_nat i" using i by simp
  have "\<forall>p \<in> set ps. pi_ssrc p = pi_ssrc (hd ps)" using assms unfolding ssrc_run_def by blast
  then have s: "pi_ssrc (hd ps) = pi_ssrc (ps ! i)" using nth_mem [OF i] by metis
  have "packet_of_info (pi_ssrc (hd ps)) (pi_sequence_number (hd ps)) (i, packet_info_word (ps ! i)) = packet_canon (ps ! i)"
    unfolding s packet_of_info_word q [symmetric] by (simp add: packet_canon_def)
  then show "map (packet_of_info (pi_ssrc (hd ps)) (pi_sequence_number (hd ps))) (enumerate 0 (map packet_info_word ps)) ! i =
      map packet_canon ps ! i"
    using i by (simp add: nth_enumerate_eq)
qed simp

lemma Ccfb_reports_step:
  assumes run: "ssrc_run ps" and n: "length ps \<le> 16384"
    and p: "p = pre @ write_report_for_ssrc ps @ post" and fin: "length pre + length (write_report_for_ssrc ps) \<le> fin"
  shows "Ccfb_reports p (length pre) fin acc =
    Ccfb_reports p (length (pre @ write_report_for_ssrc ps)) fin (acc @ map packet_canon ps)"
proof -
  let ?n = "length ps" and ?s = "pi_ssrc (hd ps)" and ?q = "pi_sequence_number (hd ps)"
  let ?pad = "if odd ?n then WriteBigEndian2 0 else []"
  have u: "unat (of_nat ?n :: u16) = ?n" using of_nat_u16_le [OF n] by simp
  have "0 < ?n" using run by (simp add: ssrc_run_def)
  then have len: "length (write_report_for_ssrc ps) = 8 + 2 * ?n + (if odd ?n then 2 else 0)" "8 < length (write_report_for_ssrc ps)"
    using write_report_length [OF n] by auto
  have "rd_items 2 rd16 (pre' @ concat (map (WriteBigEndian2 \<circ> packet_info_word) ps) @ post') (length pre') ?n =
      Some (map packet_info_word ps)" for pre' post'
    by (rule rd_items_written) (simp_all add: wire_simps)
  note r = this [of "pre @ WriteBigEndian4 ?s @ WriteBigEndian2 ?q @ WriteBigEndian2 (of_nat ?n)" "?pad @ post"]
  have items: "rd_items 2 rd16 p (length pre + 8) ?n = Some (map packet_info_word ps)"
    using r unfolding p write_report_small [OF n] by (simp del: map_map)
  have rd: "rd32 p (length pre) = Some ?s" "rd16 p (length pre + 4) = Some ?q" "rd16 p (length pre + 6) = Some (of_nat ?n)"
    unfolding p write_report_small [OF n] by (simp_all add: wire_simps)
  have c: "length pre + kHeaderPerMediaSssrcLength < fin" "\<not> length pre + 8 + 2 * ?n > fin"
    using len fin unfolding kHeaderPerMediaSssrcLength_def by linarith+
  have e: "length pre + 8 + 2 * ?n + (if ?n mod 2 \<noteq> 0 then 2 else 0) = length (pre @ write_report_for_ssrc ps)"
    using len by (simp add: mod_2_eq_odd)
  show ?thesis
    by (subst Ccfb_reports.simps) (simp only: c rd u items e run_canon [OF run] bind.simps if_True if_False)
qed

lemma Ccfb_reports_written:
  assumes "runs_ok ps" and "length ps \<le> 16384"
  shows "Ccfb_reports (pre @ write_reports ps @ post) (length pre) (length (pre @ write_reports ps)) acc =
    Some (Accepted (acc @ map packet_canon ps))"
  using assms
proof (induction ps arbitrary: pre acc rule: write_reports.induct)
  case (1 ps)
  show ?case
  proof (cases "ps = []")
    case True
    then show ?thesis by (subst Ccfb_reports.simps) (simp add: write_reports.simps)
  next
    case False
    let ?r = "packets_for_ssrc ps"
    from packets_for_ssrc_split [OF False] obtain rest where rest: "ps = ?r @ rest" "drop (length ?r) ps = rest"
      by blast
    have run: "ssrc_run ?r" "runs_ok rest"
      using "1.prems"(1) False unfolding runs_ok.simps [of ps] rest(2) by simp_all
    have le: "length ps = length ?r + length rest" using rest(1) by (metis length_append)
    then have n: "length ?r \<le> 16384" "length rest \<le> 16384" using "1.prems"(2) by simp_all
    have w: "write_reports ps = write_report_for_ssrc ?r @ write_reports rest"
      using False by (simp add: write_reports.simps [of ps] rest(2))
    have "map packet_canon ps = map packet_canon ?r @ map packet_canon rest"
      using rest(1) by (metis map_append)
    moreover have "Ccfb_reports (pre @ write_reports ps @ post) (length pre) (length (pre @ write_reports ps)) acc =
        Ccfb_reports (pre @ write_reports ps @ post) (length (pre @ write_report_for_ssrc ?r))
          (length (pre @ write_reports ps)) (acc @ map packet_canon ?r)"
      by (rule Ccfb_reports_step [OF run(1) n(1), where post = "write_reports rest @ post"]) (simp_all add: w)
    moreover have "Ccfb_reports ((pre @ write_report_for_ssrc ?r) @ write_reports rest @ post)
        (length (pre @ write_report_for_ssrc ?r)) (length ((pre @ write_report_for_ssrc ?r) @ write_reports rest))
        (acc @ map packet_canon ?r) = Some (Accepted ((acc @ map packet_canon ?r) @ map packet_canon rest))"
      using "1.IH" [OF False] run(2) n(2) unfolding rest(2) by blast
    ultimately show ?thesis unfolding w by simp
  qed
qed

section \<open>BlockLength\<close>

lemma sizes_same_ssrc:
  "\<forall>p \<in> set xs. pi_ssrc p = s \<Longrightarrow>
    sizes_per_ssrc s f prev (xs @ rest) = sizes_per_ssrc s f (last (prev # map pi_sequence_number xs)) rest"
  by (induction xs arbitrary: prev) auto

lemma run_last:
  assumes "ssrc_run ps"
  shows "last (map pi_sequence_number ps) - pi_sequence_number (hd ps) + 1 = of_nat (length ps)"
proof -
  have ne: "ps \<noteq> []" and m: "map pi_sequence_number ps = map (\<lambda>i. pi_sequence_number (hd ps) + of_nat i) [0..<length ps]"
    using assms unfolding ssrc_run_def by blast+
  then obtain n where n: "length ps = Suc n" by (cases ps) auto
  show ?thesis unfolding m n by simp
qed

lemma sizes_run:
  assumes "ssrc_run ps" and "length ps \<le> 16384" and "rest = [] \<or> pi_ssrc (hd rest) \<noteq> pi_ssrc (hd ps)"
  shows "sizes_per_ssrc (pi_ssrc (hd ps)) (pi_sequence_number (hd ps)) (pi_sequence_number (hd ps)) (ps @ rest) =
    length (write_report_for_ssrc ps) +
    (case rest of [] \<Rightarrow> 0 | q # qs \<Rightarrow> sizes_per_ssrc (pi_ssrc q) (pi_sequence_number q) (pi_sequence_number q) (q # qs))"
proof -
  let ?s = "pi_ssrc (hd ps)" and ?f = "pi_sequence_number (hd ps)"
  have ne: "ps \<noteq> []" and same: "\<forall>p \<in> set ps. pi_ssrc p = ?s" using assms(1) unfolding ssrc_run_def by blast+
  have l: "last (?f # map pi_sequence_number ps) = last (map pi_sequence_number ps)" using ne by simp
  have "increase_size_per_ssrc (of_nat (length ps)) = length (write_report_for_ssrc ps)"
    using of_nat_u16_le [OF assms(2)]
    by (simp add: increase_size_per_ssrc_def write_report_length [OF assms(2)] ccfb_consts mod_2_eq_odd)
  then have inc: "increase_size_per_ssrc (last (map pi_sequence_number ps) - ?f + 1) = length (write_report_for_ssrc ps)"
    by (simp only: run_last [OF assms(1)])
  show ?thesis
    unfolding sizes_same_ssrc [OF same] l using inc assms(3) by (cases rest) simp_all
qed

lemma sizes_written:
  assumes "runs_ok ps" and "length ps \<le> 16384"
  shows "(case ps of [] \<Rightarrow> 0 | q # qs \<Rightarrow> sizes_per_ssrc (pi_ssrc q) (pi_sequence_number q) (pi_sequence_number q) (q # qs)) =
    length (write_reports ps)"
  using assms
proof (induction ps rule: write_reports.induct)
  case (1 ps)
  show ?case
  proof (cases "ps = []")
    case True
    then show ?thesis by (simp add: write_reports.simps)
  next
    case False
    let ?r = "packets_for_ssrc ps"
    from packets_for_ssrc_split [OF False] obtain rest where rest: "ps = ?r @ rest" "drop (length ?r) ps = rest"
      "hd ?r = hd ps" "rest = [] \<or> pi_ssrc (hd rest) \<noteq> pi_ssrc (hd ps)"
      by blast
    have run: "ssrc_run ?r" "runs_ok rest"
      using "1.prems"(1) False unfolding runs_ok.simps [of ps] rest(2) by simp_all
    have le: "length ps = length ?r + length rest" using rest(1) by (metis length_append)
    then have n: "length ?r \<le> 16384" "length rest \<le> 16384" using "1.prems"(2) by simp_all
    have w: "write_reports ps = write_report_for_ssrc ?r @ write_reports rest"
      using False by (simp add: write_reports.simps [of ps] rest(2))
    have IH: "(case rest of [] \<Rightarrow> 0 | q # qs \<Rightarrow> sizes_per_ssrc (pi_ssrc q) (pi_sequence_number q) (pi_sequence_number q) (q # qs)) =
        length (write_reports rest)"
      using "1.IH" [OF False] run(2) n(2) unfolding rest(2) by blast
    have "sizes_per_ssrc (pi_ssrc (hd ps)) (pi_sequence_number (hd ps)) (pi_sequence_number (hd ps)) (?r @ rest) =
        length (write_report_for_ssrc ?r) + length (write_reports rest)"
      using sizes_run [OF run(1) n(1), of rest] rest(3,4) IH by simp
    then show ?thesis
      using False w unfolding rest(1) [symmetric] by (cases ps) simp_all
  qed
qed

lemma Ccfb_BlockLength_payload: "Ccfb_valid p \<Longrightarrow> Ccfb_BlockLength p = 4 + length (Ccfb_payload p)"
  using sizes_written [of "ccfb_packets p"]
  by (simp add: Ccfb_BlockLength_def Ccfb_payload_def Ccfb_valid_def ccfb_consts)

lemma write_reports_bound: "runs_ok ps \<Longrightarrow> length ps \<le> 16384 \<Longrightarrow>
    4 dvd length (write_reports ps) \<and> length (write_reports ps) \<le> 12 * length ps"
proof (induction ps rule: write_reports.induct)
  case (1 ps)
  show ?case
  proof (cases "ps = []")
    case False
    let ?r = "packets_for_ssrc ps"
    from packets_for_ssrc_split [OF False] obtain rest where rest: "ps = ?r @ rest" "drop (length ?r) ps = rest" "?r \<noteq> []"
      by blast
    have le: "length ps = length ?r + length rest" using rest(1) by (metis length_append)
    have "runs_ok rest" using "1.prems"(1) False unfolding runs_ok.simps [of ps] rest(2) by simp
    then have IH: "4 dvd length (write_reports rest)" "length (write_reports rest) \<le> 12 * length rest"
      using "1.IH" [OF False] "1.prems"(2) le unfolding rest(2) by simp_all
    have "length (write_report_for_ssrc ?r) = 8 + 2 * length ?r + (if odd (length ?r) then 2 else 0)"
      using "1.prems"(2) le by (intro write_report_length) simp
    moreover have "0 < length ?r" using rest(3) by simp
    ultimately have "4 dvd length (write_report_for_ssrc ?r)" "length (write_report_for_ssrc ?r) \<le> 12 * length ?r"
      by presburger+
    then show ?thesis
      using IH le False by (simp add: write_reports.simps [of ps] rest(2))
  qed (simp add: write_reports.simps)
qed

interpretation ccfb: rtcp_codec Ccfb_BlockLength Ccfb_body Ccfb_Parse Rtpfb_kPacketType Ccfb_valid Ccfb_canon
proof (rule rtcp_codec_block [OF Ccfb_body_def Ccfb_BlockLength_payload _ _ Ccfb_Parse_safe])
  fix p :: Ccfb and rest
  assume v: "Ccfb_valid p"
  let ?ps = "ccfb_packets p" and ?pl = "Ccfb_payload p"
  have ps: "runs_ok ?ps" "length ?ps \<le> 16384" using v by (simp_all add: Ccfb_valid_def)
  note b = write_reports_bound [OF ps]
  have len: "length ?pl = 8 + length (write_reports ?ps)" by (simp add: Ccfb_payload_def)
  then show "Ccfb_kFeedbackMessageType < 32 \<and> 4 dvd length ?pl \<and> length ?pl < 4 * 65536"
    using b ps(2) by (auto simp: ccfb_consts)
  have r: "Ccfb_reports ?pl 4 (4 + length (write_reports ?ps)) [] = Some (Accepted (map packet_canon ?ps))"
    using Ccfb_reports_written [OF ps, of "WriteBigEndian4 (sender_ssrc p)" "WriteBigEndian4 (ccfb_report_timestamp p)" "[]"]
    by (simp add: Ccfb_payload_def)
  have "rd32 (a @ WriteBigEndian4 t) (length a) = Some t" for a t by (simp add: wire_simps)
  from this [of "WriteBigEndian4 (sender_ssrc p) @ write_reports ?ps"]
  have rd: "rd32 ?pl 0 = Some (sender_ssrc p)" "rd32 ?pl (4 + length (write_reports ?ps)) = Some (ccfb_report_timestamp p)"
    by (simp_all add: Ccfb_payload_def wire_simps)
  have "length ?pl mod 4 = 0" using b len by auto
  then show "Ccfb_Parse \<lparr>ch_packet_type = Rtpfb_kPacketType, ch_count_or_format = of_nat Ccfb_kFeedbackMessageType,
      ch_padding_size = 0, ch_payload = ?pl, ch_next = rest\<rparr> = Some (Accepted (Ccfb_canon p))"
    using r rd v len by (simp add: Ccfb_Parse_def payload_size_def ccfb_consts Ccfb_canon_def Ccfb_valid_def)
qed

section \<open>Main properties\<close>

lemma Ccfb_Create_eq: "Ccfb_Create p = create_block (Ccfb_BlockLength p) (Ccfb_body p)"
  by (simp add: Ccfb_Create_def fun_eq_iff)

text \<open>
  C6: A congestion control feedback built from packets that are sorted per SSRC without gaps is exactly
  as long as \<open>BlockLength\<close> says, and parsing it gives the same packets with their ECN marks, in
  the same order, and the same report timestamp. Only the arrival offset is coarser, and a packet
  that was not received comes back without an ECN mark.
\<close>

theorem ccfb_roundtrip:
  assumes "Ccfb_valid p"
  shows "length (Build (Ccfb_BlockLength p) (Ccfb_Create p)) = Ccfb_BlockLength p \<and>
    parse_block Ccfb_Parse (Build (Ccfb_BlockLength p) (Ccfb_Create p)) =
      Some (Accepted (p\<lparr>ccfb_packets := map packet_canon (ccfb_packets p)\<rparr>, []))"
  using ccfb.Build_roundtrip [OF assms] unfolding Ccfb_Create_eq Ccfb_canon_def by blast

definition ccfb_example :: Ccfb where
  "ccfb_example = \<lparr>sender_ssrc = 7, media_ssrc = 0, ccfb_packets =
     [\<lparr>pi_ssrc = 1, pi_sequence_number = 0xFFFF, pi_arrival_time_offset = 2000, pi_ecn = kCe\<rparr>,
      \<lparr>pi_ssrc = 1, pi_sequence_number = 0, pi_arrival_time_offset = MinusInfinity, pi_ecn = kNotEct\<rparr>,
      \<lparr>pi_ssrc = 2, pi_sequence_number = 5, pi_arrival_time_offset = 0, pi_ecn = kEct1\<rparr>],
     ccfb_report_timestamp = 99\<rparr>"

theorem ccfb_roundtrip_witness:
  "parse_block Ccfb_Parse (Build (Ccfb_BlockLength ccfb_example) (Ccfb_Create ccfb_example)) =
     Some (Accepted (ccfb_example\<lparr>ccfb_packets := map packet_canon (ccfb_packets ccfb_example)\<rparr>, []))"
proof -
  have "Ccfb_valid ccfb_example"
    by (simp add: Ccfb_valid_def ccfb_example_def runs_ok.simps packets_for_ssrc_def ssrc_run_def)
  from ccfb_roundtrip [OF this] show ?thesis by blast
qed

lemma and_13_small: "unat w < 2 ^ 13 \<Longrightarrow> (w :: u16) AND 0x1FFF = w"
proof -
  assume "unat w < 2 ^ 13"
  then have b: "bit w k \<Longrightarrow> k < 13" for k using bit_word_less_exp [of w 13 k] by auto
  have m: "(0x1FFF :: u16) = mask 13" by (simp add: mask_eq_exp_minus_1)
  show ?thesis unfolding m by (rule bit_word_eqI) (auto simp: bit_simps dest: b)
qed

lemma ato_decoded:
  assumes "0 \<le> t" and "t < 2 ^ 23"
  shows "if AtoToTimeDelta (To13bitAto t) = PlusInfinity then 7998046 \<le> t
    else AtoToTimeDelta (To13bitAto t) \<le> t \<and> t \<le> AtoToTimeDelta (To13bitAto t) + 978"
proof -
  define us k where "us = nat t" and "k = ato_ticks us"
  have us: "us < 2 ^ 23" "t = int us" using assms by (simp_all add: us_def)
  note e = ato_error [OF us(1), folded k_def]
  have a: "To13bitAto t = of_nat (min k 0x1FFE)"
    using assms(1) by (simp add: To13bitAto_def k_def ato_ticks_def us_def)
  show ?thesis
  proof (cases "k < 0x1FFE")
    case True
    then have u: "unat (of_nat k :: u16) = k" by (intro unat_of_nat_u16) simp
    then have m: "(of_nat k :: u16) AND 0x1FFF = of_nat k"
      using True and_13_small [of "of_nat k"] by simp
    have ne: "(of_nat k :: u16) \<noteq> 0x1FFE" "(of_nat k :: u16) \<noteq> 0x1FFF"
      using u True by (auto simp: word_unat_eq_iff)
    have v: "AtoToTimeDelta (To13bitAto t) = int (k * 1000000 div 1024)"
      unfolding a AtoToTimeDelta_def Let_def
      using True m ne u
      by (simp add: unit_divide_def TimeDelta_Seconds_def FromFraction_def sdiv_nonneg uint_nat zdiv_int del: unat_of_nat)
    have "k * 1000000 div 1024 < 8000000" using True by linarith
    then have "int (k * 1000000 div 1024) \<noteq> PlusInfinity" by (simp add: PlusInfinity_def)
    then show ?thesis unfolding v unfolding us(2) using e by simp
  next
    case False
    then have "AtoToTimeDelta (To13bitAto t) = PlusInfinity"
      unfolding a by (simp add: AtoToTimeDelta_def)
    moreover have "7998046 \<le> us" using e(1) False by linarith
    ultimately show ?thesis using us(2) by simp
  qed
qed



end
