(* ===== verification/Std_Map.thy ===== *)
theory Std_Map
  imports Rtc_Prelude
begin

text \<open>
  The ordered containers of the C++ library as the components use them. A \<open>std::map\<close> is the list of
  its entries in the order of the iterators, which is the ascending order of the keys; \<open>smap_ok\<close>
  is that representation invariant. The operations are \<open>find\<close>, \<open>operator[]\<close> and assignment
  (\<open>smap_set\<close>), \<open>emplace\<close>, which keeps an existing entry, \<open>erase\<close> by key, and the
  iterator ranges that \<open>lower_bound\<close> and \<open>upper_bound\<close> delimit. The lemmas say what a lookup
  returns after each operation, that the invariant is kept, and how a sum over the entries changes.
\<close>

type_synonym ('k, 'v) smap = "('k \<times> 'v) list"

definition smap_ok :: "('k::linorder, 'v) smap \<Rightarrow> bool" where
  "smap_ok m \<longleftrightarrow> sorted_wrt (<) (map fst m)"

definition smap_find :: "('k, 'v) smap \<Rightarrow> 'k \<Rightarrow> 'v option" where
  "smap_find m k = map_of m k"

fun smap_set :: "'k::linorder \<Rightarrow> 'v \<Rightarrow> ('k, 'v) smap \<Rightarrow> ('k, 'v) smap" where
  "smap_set k v [] = [(k, v)]"
| "smap_set k v ((k', v') # m) =
     (if k < k' then (k, v) # (k', v') # m
      else if k = k' then (k, v) # m
      else (k', v') # smap_set k v m)"

definition smap_emplace :: "'k::linorder \<Rightarrow> 'v \<Rightarrow> ('k, 'v) smap \<Rightarrow> ('k, 'v) smap" where
  "smap_emplace k v m = (if smap_find m k = None then smap_set k v m else m)"

definition smap_erase :: "'k \<Rightarrow> ('k, 'v) smap \<Rightarrow> ('k, 'v) smap" where
  "smap_erase k m = filter (\<lambda>e. fst e \<noteq> k) m"

text \<open>The entries from \<open>upper_bound(a)\<close> up to \<open>upper_bound(b)\<close>.\<close>

definition smap_between :: "'k::linorder \<Rightarrow> 'k \<Rightarrow> ('k, 'v) smap \<Rightarrow> ('k, 'v) smap" where
  "smap_between a b m = filter (\<lambda>e. a < fst e \<and> fst e \<le> b) m"

section \<open>Representation invariant\<close>

lemma smap_ok_Nil [simp]: "smap_ok []"
  by (simp add: smap_ok_def)

lemma smap_ok_Cons: "smap_ok ((k, v) # m) \<longleftrightarrow> (\<forall>e \<in> set m. k < fst e) \<and> smap_ok m"
  by (auto simp: smap_ok_def)

lemma smap_ok_distinct: "smap_ok m \<Longrightarrow> distinct (map fst m)"
  using strict_sorted_iff [of "map fst m"] by (simp add: smap_ok_def)

lemma set_smap_set:
  "smap_ok m \<Longrightarrow> set (smap_set k v m) = insert (k, v) {e \<in> set m. fst e \<noteq> k}"
  by (induction k v m rule: smap_set.induct) (auto simp: smap_ok_Cons)

lemma smap_ok_set [intro]: "smap_ok m \<Longrightarrow> smap_ok (smap_set k v m)"
proof (induction k v m rule: smap_set.induct)
  case (2 k v k' v' m)
  then show ?case by (auto simp: smap_ok_Cons set_smap_set)
qed (simp add: smap_ok_def)

lemma smap_ok_filter [intro]: "smap_ok m \<Longrightarrow> smap_ok (filter P m)"
  by (induction m) (auto simp: smap_ok_Cons)

lemma smap_ok_erase [intro]: "smap_ok m \<Longrightarrow> smap_ok (smap_erase k m)"
  by (auto simp: smap_erase_def)

lemma smap_ok_emplace [intro]: "smap_ok m \<Longrightarrow> smap_ok (smap_emplace k v m)"
  by (auto simp: smap_emplace_def)

lemma smap_ok_tl [intro]: "smap_ok m \<Longrightarrow> smap_ok (tl m)"
  by (cases m) (auto simp: smap_ok_Cons)

section \<open>Lookups\<close>

lemma smap_find_Nil [simp]: "smap_find [] k = None"
  by (simp add: smap_find_def)

lemma smap_find_set: "smap_find (smap_set k v m) x = (if x = k then Some v else smap_find m x)"
  by (induction k v m rule: smap_set.induct) (auto simp: smap_find_def)

lemma smap_find_erase: "smap_find (smap_erase k m) x = (if x = k then None else smap_find m x)"
  by (induction m) (auto simp: smap_find_def smap_erase_def)

lemma smap_find_emplace:
  "smap_find (smap_emplace k v m) x =
     (if x = k then (case smap_find m k of None \<Rightarrow> Some v | Some w \<Rightarrow> Some w) else smap_find m x)"
  by (auto simp: smap_emplace_def smap_find_set split: option.splits)

lemma smap_find_in: "smap_find m k = Some v \<Longrightarrow> (k, v) \<in> set m"
  by (simp add: smap_find_def map_of_SomeD)

lemma smap_in_find: "smap_ok m \<Longrightarrow> (k, v) \<in> set m \<Longrightarrow> smap_find m k = Some v"
  by (simp add: smap_find_def smap_ok_distinct)

lemma smap_set_keys: "smap_ok m \<Longrightarrow> fst ` set (smap_set k v m) = insert k (fst ` set m)"
  by (auto simp: set_smap_set image_iff)

lemma set_smap_erase: "set (smap_erase k m) = {e \<in> set m. fst e \<noteq> k}"
  by (auto simp: smap_erase_def)

section \<open>Sums over the entries\<close>

lemma sum_smap_erase:
  fixes f :: "'k::linorder \<times> 'v \<Rightarrow> 'n::ab_group_add"
  assumes "smap_ok m"
  shows "sum_list (map f (smap_erase k m)) =
    sum_list (map f m) - (case smap_find m k of None \<Rightarrow> 0 | Some v \<Rightarrow> f (k, v))"
  using assms
proof (induction m)
  case (Cons e m)
  obtain k' v' where e: "e = (k', v')" by (cases e)
  have ok: "\<forall>e \<in> set m. k' < fst e" "smap_ok m" using Cons.prems by (simp_all add: e smap_ok_Cons)
  show ?case
  proof (cases "k' = k")
    case True
    then have "smap_erase k m = m" using ok(1) by (auto simp: smap_erase_def intro!: filter_True)
    then show ?thesis using True by (simp add: e smap_erase_def smap_find_def)
  next
    case False
    then show ?thesis using Cons.IH [OF ok(2)]
      by (simp add: e smap_erase_def smap_find_def algebra_simps)
  qed
qed (simp add: smap_erase_def)

lemma sum_smap_set:
  fixes f :: "'k::linorder \<times> 'v \<Rightarrow> 'n::ab_group_add"
  assumes "smap_ok m"
  shows "sum_list (map f (smap_set k v m)) =
    sum_list (map f m) - (case smap_find m k of None \<Rightarrow> 0 | Some w \<Rightarrow> f (k, w)) + f (k, v)"
  using assms
proof (induction k v m rule: smap_set.induct)
  case (2 k v k' v' m)
  have ok: "\<forall>e \<in> set m. k' < fst e" "smap_ok m" using "2.prems" by (simp_all add: smap_ok_Cons)
  consider "k < k'" | "k = k'" | "k' < k" by (rule linorder_cases)
  then show ?case
  proof cases
    case 1
    then have "smap_find m k = None"
      using ok(1) by (auto simp: smap_find_def map_of_eq_None_iff)
    then show ?thesis using 1 by (auto simp: smap_find_def)
  next
    case 2
    then show ?thesis by (simp add: smap_find_def)
  next
    case 3
    then have n: "\<not> k < k'" "k \<noteq> k'" by auto
    show ?thesis using "2.IH" [OF n ok(2)] n by (simp add: smap_find_def algebra_simps)
  qed
qed (simp add: smap_find_def)

end
