(* ===== verification/Ccfb_Tracker.thy ===== *)
theory Ccfb_Tracker
  imports Ccfb Seq_Num Std_Map "HOL-Library.Product_Lexorder"
begin

text \<open>
  The receiver side of the RFC 8888 feedback loop:
  \<open>modules/remote_bitrate_estimator/congestion_control_feedback_tracker.cc\<close>, which collects
  the arrivals of one SSRC. The state of \<open>CongestionControlFeedbackTracker\<close> is a record with its three
  members. \<open>AddPacketsToFeedback\<close> walks an iterator over the sorted arrivals; the iterator is the
  list of the arrivals that are left, and dereferencing \<open>end()\<close> is the value \<open>None\<close>.

  \<open>absl::c_sort\<close> orders the arrivals by sequence number and arrival time. Copies of one packet that
  arrived in the same microsecond may end up in either order in C++; the model keeps their order of
  arrival.
\<close>

section \<open>Operations\<close>

text \<open>What the feedback components use of \<open>RtpPacketReceived\<close>.\<close>

record RtpPacketReceived =
  rp_Ssrc :: u32
  rp_SequenceNumber :: u16
  rp_Marker :: bool
  rp_arrival_time :: Timestamp
  rp_ecn :: EcnMarking

record TrackedPacket =
  tp_ssrc :: u32
  tp_seq :: int
  tp_arrival_time :: Timestamp
  tp_ecn :: EcnMarking

record CcfbTracker =
  last_sequence_number_in_feedback :: "int option"
  tr_unwrapper :: "u16 SeqNumUnwrapper"
  tr_packets :: "TrackedPacket list"

definition CcfbTracker_init :: CcfbTracker where
  "CcfbTracker_init =
     \<lparr>last_sequence_number_in_feedback = None, tr_unwrapper = SeqNumUnwrapper_init, tr_packets = []\<rparr>"

definition kMaxPacketsPerSsrc :: nat where
  "kMaxPacketsPerSsrc = 16384"

definition Tracker_ReceivedPacket :: "RtpPacketReceived \<Rightarrow> CcfbTracker \<Rightarrow> CcfbTracker" where
  "Tracker_ReceivedPacket packet t =
     (if length (tr_packets t) > kMaxPacketsPerSsrc then t
      else
        let (unwrapped, unwrapper) = Unwrap 0 (rp_SequenceNumber packet) (tr_unwrapper t);
            last' = (case last_sequence_number_in_feedback t of
               None \<Rightarrow> None
             | Some l \<Rightarrow> Some (if unwrapped < l + 1 then unwrapped - 1 else l))
        in \<lparr>last_sequence_number_in_feedback = last', tr_unwrapper = unwrapper,
            tr_packets = tr_packets t @
              [\<lparr>tp_ssrc = rp_Ssrc packet, tp_seq = unwrapped, tp_arrival_time = rp_arrival_time packet,
                tp_ecn = rp_ecn packet\<rparr>]\<rparr>)"

text \<open>The inner loop over the copies of one packet.\<close>

fun skip_duplicates :: "int \<Rightarrow> EcnMarking \<Rightarrow> TrackedPacket list \<Rightarrow> EcnMarking \<times> TrackedPacket list" where
  "skip_duplicates sequence_number ecn [] = (ecn, [])"
| "skip_duplicates sequence_number ecn (p # it) =
     (if tp_seq p = sequence_number
      then skip_duplicates sequence_number (if tp_ecn p = kCe then kCe else ecn) it
      else (ecn, p # it))"

function feedback_loop :: "Timestamp \<Rightarrow> u32 \<Rightarrow> int \<Rightarrow> int \<Rightarrow> TrackedPacket list \<Rightarrow> PacketInfo list option" where
  "feedback_loop feedback_time ssrc sequence_number upper it =
     (if sequence_number > upper then Some []
      else case it of
        [] \<Rightarrow> None
      | p # it' \<Rightarrow> do {
          let (offset, ecn, it'') =
            (if tp_seq p = sequence_number
             then let r = skip_duplicates sequence_number (tp_ecn p) it'
                  in (Timestamp_minus feedback_time (tp_arrival_time p), fst r, snd r)
             else (MinusInfinity, kNotEct, it));
          rest \<leftarrow> feedback_loop feedback_time ssrc (sequence_number + 1) upper it'';
          Some (\<lparr>pi_ssrc = ssrc, pi_sequence_number = word_of_int sequence_number,
                 pi_arrival_time_offset = offset, pi_ecn = ecn\<rparr> # rest)
        })"
  by pat_completeness auto
termination
  by (relation "measure (\<lambda>(t, ssrc, s, u, it). nat (u + 1 - s))") auto

declare feedback_loop.simps [simp del]

definition AddPacketsToFeedback ::
    "Timestamp \<Rightarrow> CcfbTracker \<Rightarrow> PacketInfo list \<Rightarrow> (CcfbTracker \<times> PacketInfo list) option" where
  "AddPacketsToFeedback feedback_time t packet_feedback =
     (if tr_packets t = [] then Some (t, packet_feedback)
      else do {
        let packets = sort_key (\<lambda>p. (tp_seq p, tp_arrival_time p)) (tr_packets t);
        let last = (case last_sequence_number_in_feedback t of
            None \<Rightarrow> tp_seq (hd packets) - 1
          | Some l \<Rightarrow> l);
        let back_seq = tp_seq (List.last packets);
        reports \<leftarrow> feedback_loop feedback_time (tp_ssrc (hd packets)) (last + 1)
                    (min back_seq (last + int kMaxPacketsPerSsrc)) packets;
        Some (t\<lparr>last_sequence_number_in_feedback := Some back_seq, tr_packets := []\<rparr>,
              packet_feedback @ reports)
      })"

section \<open>What a feedback says about one sequence number\<close>

text \<open>
  The reference: a sequence number is reported as received exactly when some arrival has it; the
  offset is that of the copy that arrived first, and the ECN mark is CE when any copy was marked CE
  and that of the first copy otherwise.
\<close>

definition copies :: "int \<Rightarrow> TrackedPacket list \<Rightarrow> TrackedPacket list" where
  "copies s ps = filter (\<lambda>p. tp_seq p = s) ps"

definition report_of :: "Timestamp \<Rightarrow> u32 \<Rightarrow> TrackedPacket list \<Rightarrow> int \<Rightarrow> PacketInfo" where
  "report_of feedback_time ssrc ps s =
     (case copies s ps of
        [] \<Rightarrow> \<lparr>pi_ssrc = ssrc, pi_sequence_number = word_of_int s, pi_arrival_time_offset = MinusInfinity,
               pi_ecn = kNotEct\<rparr>
      | q # qs \<Rightarrow> \<lparr>pi_ssrc = ssrc, pi_sequence_number = word_of_int s,
               pi_arrival_time_offset = Timestamp_minus feedback_time (tp_arrival_time q),
               pi_ecn = (if kCe \<in> tp_ecn ` set (q # qs) then kCe else tp_ecn q)\<rparr>)"

lemma skip_duplicates_spec:
  "skip_duplicates s ecn ps =
     (if kCe \<in> tp_ecn ` set (takeWhile (\<lambda>p. tp_seq p = s) ps) then kCe else ecn,
      dropWhile (\<lambda>p. tp_seq p = s) ps)"
proof (induction s ecn ps rule: skip_duplicates.induct)
  case (2 s ecn p it)
  then show ?case by (cases "tp_ecn p = kCe") (auto simp: image_iff)
qed simp

lemma copies_sorted:
  "sorted (map tp_seq ps) \<Longrightarrow> \<forall>p \<in> set ps. s \<le> tp_seq p \<Longrightarrow>
     copies s ps = takeWhile (\<lambda>p. tp_seq p = s) ps"
proof (induction ps)
  case (Cons p ps)
  show ?case
  proof (cases "tp_seq p = s")
    case False
    then have "s < tp_seq p" using Cons.prems(2) by auto
    then have "copies s ps = []" using Cons.prems(1) by (auto simp: copies_def filter_empty_conv)
    then show ?thesis using False by (simp add: copies_def)
  next
    case True
    then show ?thesis using Cons by (simp add: copies_def)
  qed
qed (simp add: copies_def)

lemma feedback_loop_spec:
  assumes "sorted (map tp_seq it)" and "\<forall>p \<in> set it. s \<le> tp_seq p"
    and "s \<le> u \<Longrightarrow> it \<noteq> [] \<and> u \<le> tp_seq (last it)"
  shows "feedback_loop t ssrc s u it = Some (map (report_of t ssrc it) [s..u])"
  using assms
proof (induction "nat (u + 1 - s)" arbitrary: s it)
  case 0
  then have "u < s" by simp
  then show ?case by (simp add: feedback_loop.simps)
next
  case (Suc n)
  then have n: "n = nat (u + 1 - (s + 1))" and False: "\<not> u < s" by simp_all
  note prems = Suc.prems and IH = Suc.hyps(1) [OF n]
  show ?case
  proof -
    from False obtain p it' where it: "it = p # it'" using prems(3) by (cases it) auto
    have ul: "u \<le> tp_seq (last it)" using prems(3) False by auto
    let ?d = "dropWhile (\<lambda>p. tp_seq p = s) it"
    have split: "it = takeWhile (\<lambda>p. tp_seq p = s) it @ ?d" by simp
    have cp: "copies s it = takeWhile (\<lambda>p. tp_seq p = s) it"
      by (rule copies_sorted [OF prems(1,2)])
    have keep: "report_of t ssrc ?d x = report_of t ssrc it x" if "x \<noteq> s" for x
    proof -
      have "copies x it = copies x (takeWhile (\<lambda>p. tp_seq p = s) it) @ copies x ?d"
        using split unfolding copies_def by (metis filter_append)
      moreover have "copies x (takeWhile (\<lambda>p. tp_seq p = s) it) = []"
        using that by (auto simp: copies_def filter_empty_conv dest: set_takeWhileD)
      ultimately show ?thesis by (simp add: report_of_def)
    qed
    have ds: "sorted (map tp_seq ?d)"
      using prems(1) by (metis split map_append sorted_append)
    have dge: "s + 1 \<le> tp_seq q" if "q \<in> set ?d" for q
    proof -
      from that obtain r rs where r: "?d = r # rs" by (cases ?d) auto
      then have "tp_seq r \<noteq> s" using hd_dropWhile [of "\<lambda>p. tp_seq p = s" it] by (metis list.sel(1) list.simps(3))
      moreover have "s \<le> tp_seq r" using prems(2) r by (metis list.set_intros(1) set_dropWhileD)
      moreover have "tp_seq r \<le> tp_seq q" using ds that unfolding r by auto
      ultimately show ?thesis by linarith
    qed
    have dl: "?d \<noteq> [] \<and> u \<le> tp_seq (last ?d)" if "s + 1 \<le> u"
    proof -
      have "?d \<noteq> []"
      proof
        assume "?d = []"
        then have "\<forall>q \<in> set it. tp_seq q = s" by (simp add: dropWhile_eq_Nil_conv)
        then have "tp_seq (last it) = s" using it by (metis last_in_set list.simps(3))
        then show False using ul that by linarith
      qed
      then show ?thesis using ul split by (metis last_appendR)
    qed
    have up: "[s..u] = s # [s + 1..u]" using False by (simp add: upto_rec1)
    have rest: "map (report_of t ssrc ?d) [s + 1..u] = map (report_of t ssrc it) [s + 1..u]"
      using keep by simp
    show ?thesis
    proof (cases "tp_seq p = s")
      case True
      then have sd: "snd (skip_duplicates s (tp_ecn p) it') = ?d" by (simp add: skip_duplicates_spec it)
      have "feedback_loop t ssrc (s + 1) u ?d = Some (map (report_of t ssrc ?d) [s + 1..u])"
        using IH [OF ds] dge dl by blast
      moreover have "report_of t ssrc it s =
        \<lparr>pi_ssrc = ssrc, pi_sequence_number = word_of_int s,
         pi_arrival_time_offset = Timestamp_minus t (tp_arrival_time p),
         pi_ecn = fst (skip_duplicates s (tp_ecn p) it')\<rparr>"
        unfolding report_of_def cp using True by (auto simp: it skip_duplicates_spec)
      ultimately show ?thesis
        using False True sd rest by (subst feedback_loop.simps) (simp add: it up Let_def split_beta)
    next
      case ne: False
      then have d: "?d = it" by (simp add: it)
      have "feedback_loop t ssrc (s + 1) u it = Some (map (report_of t ssrc it) [s + 1..u])"
        using IH [OF ds] dge dl unfolding d by blast
      moreover have "report_of t ssrc it s =
        \<lparr>pi_ssrc = ssrc, pi_sequence_number = word_of_int s, pi_arrival_time_offset = MinusInfinity, pi_ecn = kNotEct\<rparr>"
        unfolding report_of_def cp using ne by (simp add: it)
      ultimately show ?thesis
        using False ne by (subst feedback_loop.simps) (simp add: it up Let_def split_beta)
    qed
  qed
qed

section \<open>Invariant\<close>

text \<open>
  Every pending arrival belongs to the SSRC of the tracker and lies after the last sequence number
  that was reported.
\<close>

definition tracker_ok :: "u32 \<Rightarrow> CcfbTracker \<Rightarrow> bool" where
  "tracker_ok ssrc t \<longleftrightarrow>
     unwrapper_ok 0 (tr_unwrapper t) \<and>
     list_all (\<lambda>p. tp_ssrc p = ssrc) (tr_packets t) \<and>
     (case last_sequence_number_in_feedback t of
        None \<Rightarrow> True
      | Some l \<Rightarrow> list_all (\<lambda>p. l < tp_seq p) (tr_packets t))"

lemma tracker_ok_init: "tracker_ok ssrc CcfbTracker_init"
  by (simp add: tracker_ok_def CcfbTracker_init_def unwrapper_ok_init)

lemma Tracker_ReceivedPacket_ok:
  assumes "tracker_ok ssrc t" and "rp_Ssrc packet = ssrc"
  shows "tracker_ok ssrc (Tracker_ReceivedPacket packet t)"
proof -
  obtain x u where xu: "Unwrap 0 (rp_SequenceNumber packet) (tr_unwrapper t) = (x, u)" by fastforce
  have "unwrapper_ok 0 u"
    using Unwrap_ok [of 0 "tr_unwrapper t" "rp_SequenceNumber packet"] assms(1) by (simp add: xu tracker_ok_def)
  then show ?thesis
    using assms
    by (cases "last_sequence_number_in_feedback t")
      (fastforce simp: tracker_ok_def Tracker_ReceivedPacket_def xu list_all_iff)+
qed

text \<open>The pending arrivals in the order of the report, and the range of the report.\<close>

definition sorted_arrivals :: "CcfbTracker \<Rightarrow> TrackedPacket list" where
  "sorted_arrivals t = sort_key (\<lambda>p. (tp_seq p, tp_arrival_time p)) (tr_packets t)"

definition first_reported :: "CcfbTracker \<Rightarrow> int" where
  "first_reported t =
     (case last_sequence_number_in_feedback t of
        None \<Rightarrow> tp_seq (hd (sorted_arrivals t))
      | Some l \<Rightarrow> l + 1)"

definition last_reported :: "CcfbTracker \<Rightarrow> int" where
  "last_reported t =
     min (tp_seq (last (sorted_arrivals t))) (first_reported t - 1 + int kMaxPacketsPerSsrc)"

lemma sorted_arrivals_set [simp]: "set (sorted_arrivals t) = set (tr_packets t)"
  by (simp add: sorted_arrivals_def)

lemma sorted_arrivals_empty [simp]: "sorted_arrivals t = [] \<longleftrightarrow> tr_packets t = []"
  using sorted_arrivals_set [of t] by (metis set_empty)

lemma sorted_arrivals_pairs: "sorted (map (\<lambda>p. (tp_seq p, tp_arrival_time p)) (sorted_arrivals t))"
  by (simp add: sorted_arrivals_def)

lemma sorted_arrivals_seq: "sorted (map tp_seq (sorted_arrivals t))"
  using sorted_arrivals_pairs [of t] unfolding sorted_map
  by (rule sorted_wrt_mono_rel [rotated]) auto

lemma sorted_hd_last:
  assumes "sorted (map f xs)" and "x \<in> set xs"
  shows "f (hd xs) \<le> f x" and "f x \<le> f (last xs)"
proof -
  from assms(2) obtain i where i: "i < length xs" "x = xs ! i" by (metis in_set_conv_nth)
  then have ne: "xs \<noteq> []" by auto
  show "f (hd xs) \<le> f x"
    using sorted_nth_mono [OF assms(1), of 0 i] i ne by (simp add: hd_conv_nth)
  show "f x \<le> f (last xs)"
    using sorted_nth_mono [OF assms(1), of i "length xs - 1"] i ne by (simp add: last_conv_nth)
qed

lemma first_reported_le:
  assumes "tracker_ok ssrc t" and "p \<in> set (tr_packets t)"
  shows "first_reported t \<le> tp_seq p"
  using assms sorted_hd_last(1) [OF sorted_arrivals_seq, of p t]
  by (auto simp: first_reported_def tracker_ok_def list_all_iff split: option.splits)

theorem AddPacketsToFeedback_eq:
  assumes ok: "tracker_ok ssrc t" and ne: "tr_packets t \<noteq> []"
  shows "AddPacketsToFeedback T t acc =
    Some (t\<lparr>last_sequence_number_in_feedback := Some (tp_seq (last (sorted_arrivals t))), tr_packets := []\<rparr>,
      acc @ map (report_of T ssrc (sorted_arrivals t)) [first_reported t..last_reported t])"
proof -
  let ?ps = "sorted_arrivals t"
  have "hd ?ps \<in> set (tr_packets t)" using ne hd_in_set [of ?ps] by simp
  then have hd: "tp_ssrc (hd ?ps) = ssrc" using ok unfolding tracker_ok_def list_all_iff by blast
  have lo: "(case last_sequence_number_in_feedback t of None \<Rightarrow> tp_seq (hd ?ps) - 1 | Some l \<Rightarrow> l) + 1 = first_reported t"
    by (simp add: first_reported_def split: option.splits)
  have f: "\<forall>p \<in> set ?ps. first_reported t \<le> tp_seq p" using first_reported_le [OF ok] by simp
  have l: "?ps \<noteq> [] \<and> last_reported t \<le> tp_seq (last ?ps)" using ne by (simp add: last_reported_def)
  have "feedback_loop T ssrc (first_reported t) (last_reported t) ?ps =
      Some (map (report_of T ssrc ?ps) [first_reported t..last_reported t])"
    by (rule feedback_loop_spec [OF sorted_arrivals_seq f l])
  moreover have "min (tp_seq (last ?ps))
      ((case last_sequence_number_in_feedback t of None \<Rightarrow> tp_seq (hd ?ps) - 1 | Some l \<Rightarrow> l) + int kMaxPacketsPerSsrc) =
      last_reported t"
    unfolding last_reported_def lo [symmetric] by simp
  ultimately show ?thesis
    using ne unfolding AddPacketsToFeedback_def Let_def sorted_arrivals_def [symmetric] hd lo
    by (simp only: if_False bind.simps)
qed

lemma AddPacketsToFeedback_safe: "tracker_ok ssrc t \<Longrightarrow> safe (AddPacketsToFeedback T t acc)"
  using AddPacketsToFeedback_eq [of ssrc t T acc]
  by (cases "tr_packets t = []") (simp_all add: AddPacketsToFeedback_def)

lemma AddPacketsToFeedback_ok:
  "tracker_ok ssrc t \<Longrightarrow> AddPacketsToFeedback T t acc = Some (t', fb) \<Longrightarrow> tracker_ok ssrc t' \<and> tr_packets t' = []"
  using AddPacketsToFeedback_eq [of ssrc t T acc]
  by (cases "tr_packets t = []") (auto simp: AddPacketsToFeedback_def tracker_ok_def)

section \<open>Main properties\<close>

lemma copies_sorted_arrivals:
  "set (copies s (sorted_arrivals t)) = set (copies s (tr_packets t))"
  by (simp add: copies_def)

lemma first_copy_earliest:
  assumes "copies s (sorted_arrivals t) = q # qs"
  shows "tp_arrival_time q = Min (tp_arrival_time ` set (copies s (tr_packets t)))"
proof -
  let ?cs = "copies s (sorted_arrivals t)"
  have "sorted (map (\<lambda>p. (tp_seq p, tp_arrival_time p)) ?cs)"
    unfolding copies_def by (rule sorted_filter) (rule sorted_arrivals_pairs)
  moreover have seq: "tp_seq p = s" if "p \<in> set ?cs" for p using that by (simp add: copies_def)
  ultimately have "tp_arrival_time q \<le> tp_arrival_time p" if "p \<in> set ?cs" for p
    using that sorted_hd_last(1) [of "\<lambda>p. (tp_seq p, tp_arrival_time p)" ?cs p] assms
    by (simp add: seq less_eq_prod_def)
  then have "tp_arrival_time q = Min (tp_arrival_time ` set ?cs)"
    using assms by (intro Min_eqI [symmetric]) auto
  then show ?thesis by (simp only: copies_sorted_arrivals)
qed

text \<open>What a report \<open>r\<close> has to say when the copies \<open>cs\<close> of the packet arrived.\<close>

definition report_correct :: "Timestamp \<Rightarrow> TrackedPacket list \<Rightarrow> PacketInfo \<Rightarrow> bool" where
  "report_correct T cs r \<longleftrightarrow>
     (if cs = [] then pi_arrival_time_offset r = MinusInfinity \<and> pi_ecn r = kNotEct
      else pi_arrival_time_offset r = Timestamp_minus T (Min (tp_arrival_time ` set cs)) \<and>
        (if kCe \<in> tp_ecn ` set cs then pi_ecn r = kCe
         else \<exists>q \<in> set cs. tp_arrival_time q = Min (tp_arrival_time ` set cs) \<and> pi_ecn r = tp_ecn q))"

lemma report_of_correct: "report_correct T (copies s (tr_packets t)) (report_of T ssrc (sorted_arrivals t) s)"
proof (cases "copies s (sorted_arrivals t)")
  case Nil
  then have "copies s (tr_packets t) = []" using copies_sorted_arrivals [of s t] by (metis set_empty)
  then show ?thesis by (simp add: report_correct_def report_of_def Nil)
next
  case (Cons q qs)
  have set: "set (copies s (tr_packets t)) = set (q # qs)"
    using copies_sorted_arrivals [of s t] Cons by simp
  then have ne: "copies s (tr_packets t) \<noteq> []" by auto
  note min = first_copy_earliest [OF Cons]
  have r: "report_of T ssrc (sorted_arrivals t) s = \<lparr>pi_ssrc = ssrc, pi_sequence_number = word_of_int s,
      pi_arrival_time_offset = Timestamp_minus T (tp_arrival_time q),
      pi_ecn = (if kCe \<in> tp_ecn ` set (q # qs) then kCe else tp_ecn q)\<rparr>"
    by (simp only: report_of_def Cons list.case)
  have "q \<in> set (copies s (tr_packets t))" using set by simp
  then show ?thesis unfolding report_correct_def r using ne min [symmetric] set by auto
qed

text \<open>
  C16: A feedback report covers every sequence number from the one after the last report up to the
  highest that arrived, without a gap and at most 16384 of them. For each it says whether the packet
  arrived, and if so the time since its first copy arrived and a CE mark exactly when some copy was
  marked CE, else the mark of the first copy. Afterwards nothing is pending, and the walk over the
  arrivals never runs past their end.
\<close>

theorem tracker_feedback_exact:
  assumes "tracker_ok ssrc t" and "tr_packets t \<noteq> []"
  shows "\<exists>t' rs. AddPacketsToFeedback T t acc = Some (t', acc @ rs) \<and>
    tracker_ok ssrc t' \<and> tr_packets t' = [] \<and> length rs \<le> 16384 \<and>
    map pi_sequence_number rs = map word_of_int [first_reported t..last_reported t] \<and>
    (\<forall>r \<in> set rs. pi_ssrc r = ssrc) \<and>
    (\<forall>s \<in> {first_reported t..last_reported t}.
       report_correct T (copies s (tr_packets t)) (rs ! nat (s - first_reported t)))"
proof -
  let ?R = "report_of T ssrc (sorted_arrivals t)" and ?f = "first_reported t" and ?l = "last_reported t"
  let ?t' = "t\<lparr>last_sequence_number_in_feedback := Some (tp_seq (last (sorted_arrivals t))), tr_packets := []\<rparr>"
  let ?rs = "map ?R [?f..?l]"
  note eq = AddPacketsToFeedback_eq [OF assms, of T acc]
  have "tracker_ok ssrc ?t'" using AddPacketsToFeedback_ok [OF assms(1) eq] by blast
  moreover have "length ?rs \<le> 16384" by (simp add: last_reported_def kMaxPacketsPerSsrc_def)
  moreover have "pi_sequence_number (?R s) = word_of_int s" "pi_ssrc (?R s) = ssrc" for s
    by (simp_all add: report_of_def split: list.splits)
  moreover have "?rs ! nat (s - ?f) = ?R s" if "s \<in> {?f..?l}" for s
    using that by simp
  ultimately show ?thesis
    by (intro exI [of _ ?t'] exI [of _ ?rs] conjI eq) (simp_all add: report_of_correct)
qed

definition tracker_example :: CcfbTracker where
  "tracker_example = \<lparr>last_sequence_number_in_feedback = Some 4, tr_unwrapper = SeqNumUnwrapper_init, tr_packets =
     [\<lparr>tp_ssrc = 9, tp_seq = 7, tp_arrival_time = 400, tp_ecn = kEct1\<rparr>,
      \<lparr>tp_ssrc = 9, tp_seq = 5, tp_arrival_time = 300, tp_ecn = kEct1\<rparr>,
      \<lparr>tp_ssrc = 9, tp_seq = 5, tp_arrival_time = 500, tp_ecn = kCe\<rparr>]\<rparr>"

theorem tracker_feedback_exact_witness:
  "\<exists>t' rs. AddPacketsToFeedback 1000 tracker_example [] = Some (t', [] @ rs) \<and> tr_packets t' = [] \<and>
    map pi_sequence_number rs = [5, 6, 7] \<and> report_correct 1000 (copies 5 (tr_packets tracker_example)) (rs ! 0)"
proof -
  have ok: "tracker_ok 9 tracker_example"
    by (simp add: tracker_ok_def tracker_example_def unwrapper_ok_init)
  have r: "first_reported tracker_example = 5" "last_reported tracker_example = 7"
    by (simp_all add: first_reported_def last_reported_def sorted_arrivals_def tracker_example_def kMaxPacketsPerSsrc_def)
  have u: "[5..7] = [5, 6, 7 :: int]" by code_simp
  have "tr_packets tracker_example \<noteq> []" by (simp add: tracker_example_def)
  from tracker_feedback_exact [OF ok this, of 1000 "[]", unfolded r u]
  obtain t' rs where *: "AddPacketsToFeedback 1000 tracker_example [] = Some (t', [] @ rs)" "tr_packets t' = []"
      "map pi_sequence_number rs = map word_of_int [5, 6, 7]"
      "\<forall>s \<in> {5..7}. report_correct 1000 (copies s (tr_packets tracker_example)) (rs ! nat (s - 5))"
    by blast
  have "report_correct 1000 (copies 5 (tr_packets tracker_example)) (rs ! 0)" using bspec [OF *(4), of 5] by simp
  then show ?thesis using *(1-3) by (intro exI [of _ t'] exI [of _ rs]) simp
qed

end
