(* ===== verification/Ntp_Util.thy ===== *)
theory Ntp_Util
  imports Rtcp_Reports Units
begin

text \<open>
  The conversions of \<open>modules/rtp_rtcp/source/ntp_time_util.cc\<close> between NTP time, its compact form
  (the middle 32 bits, units of 2^-16 seconds) and \<open>TimeDelta\<close>. Products are computed in \<open>int64_t\<close>
  and stay in range: the largest one multiplies a 32-bit value by a million.
\<close>

definition CompactNtp :: "NtpTime \<Rightarrow> u32" where
  "CompactNtp ntp = push_bit 16 (NtpTime_seconds ntp) OR drop_bit 16 (NtpTime_fractions ntp)"

definition SaturatedToCompactNtp :: "TimeDelta \<Rightarrow> u32" where
  "SaturatedToCompactNtp delta =
     (if delta \<le> 0 then 0
      else if delta \<ge> 0xFFFFFFFF * 1000000 sdiv 0x10000 then 0xFFFFFFFF
      else word_of_int (DivideRoundToNearest (delta * 0x10000) 1000000))"

definition CompactNtpIntervalToTimeDelta :: "u32 \<Rightarrow> TimeDelta" where
  "CompactNtpIntervalToTimeDelta compact_ntp_interval =
     (let val = (if compact_ntp_interval > 0x80000000 then uint compact_ntp_interval - 2 ^ 32
                 else uint compact_ntp_interval)
      in TimeDelta_Micros (DivideRoundToNearest (val * 1000000) (2 ^ 16)))"

definition CompactNtpRttToTimeDelta :: "u32 \<Rightarrow> TimeDelta" where
  "CompactNtpRttToTimeDelta compact_ntp_interval =
     max (CompactNtpIntervalToTimeDelta compact_ntp_interval) (TimeDelta_Millis 1)"

definition ToNtpUnits :: "TimeDelta \<Rightarrow> int" where
  "ToNtpUnits delta = max (- (2 ^ 31)) (min delta (2 ^ 31 - 1)) * 2 ^ 32 sdiv 1000000"

section \<open>Properties\<close>

lemma round_nearest_error:
  assumes "0 < b"
  shows "2 * (b * DivideRoundToNearest a b) \<le> 2 * a + b" and "2 * a - b < 2 * (b * DivideRoundToNearest a b)"
proof -
  let ?q = "(2 * a + b) div (2 * b)"
  have "?q * (2 * b) + (2 * a + b) mod (2 * b) = 2 * a + b" by (rule div_mult_mod_eq)
  moreover have "0 \<le> (2 * a + b) mod (2 * b)" "(2 * a + b) mod (2 * b) < 2 * b" using assms by simp_all
  moreover have "?q * (2 * b) = 2 * (b * ?q)" by simp
  ultimately show "2 * (b * DivideRoundToNearest a b) \<le> 2 * a + b" "2 * a - b < 2 * (b * DivideRoundToNearest a b)"
    unfolding DivideRoundToNearest_nearest [OF assms(1)] by linarith+
qed

lemma round_nearest_nonneg: "0 \<le> a \<Longrightarrow> 0 < b \<Longrightarrow> 0 \<le> DivideRoundToNearest a b"
  by (simp add: DivideRoundToNearest_nearest pos_imp_zdiv_nonneg_iff)

lemma compact_interval_small:
  assumes "0 \<le> c" and "c \<le> 2 ^ 31"
  shows "CompactNtpIntervalToTimeDelta (word_of_int c) = DivideRoundToNearest (c * 1000000) 65536"
proof -
  have u: "uint (word_of_int c :: u32) = c" using assms by (simp add: uint_word_of_int)
  then have "\<not> (word_of_int c :: u32) > 0x80000000" using assms by (simp add: word_less_def not_less)
  then show ?thesis by (simp add: CompactNtpIntervalToTimeDelta_def u TimeDelta_Micros_def)
qed

text \<open>
  C30: A duration below 2^15 seconds survives the conversion to compact NTP and back within 8
  microseconds, and every negative duration becomes zero.
\<close>

theorem compact_ntp_roundtrip:
  assumes "delta < 2 ^ 15 * 1000000"
  shows "\<bar>CompactNtpIntervalToTimeDelta (SaturatedToCompactNtp delta) - max 0 delta\<bar> \<le> 8"
proof (cases "delta \<le> 0")
  case True
  then show ?thesis
    using compact_interval_small [of 0]
    by (simp add: SaturatedToCompactNtp_def DivideRoundToNearest_nearest)
next
  case False
  define c where "c = DivideRoundToNearest (delta * 0x10000) 1000000"
  have c: "2 * (1000000 * c) \<le> 2 * (delta * 65536) + 1000000" "2 * (delta * 65536) - 1000000 < 2 * (1000000 * c)" "0 \<le> c"
    using round_nearest_error [of 1000000 "delta * 0x10000"] round_nearest_nonneg [of "delta * 0x10000" 1000000] False
    by (simp_all add: c_def)
  then have "c \<le> 2 ^ 31" using assms by simp
  define d where "d = DivideRoundToNearest (c * 1000000) 65536"
  have d: "2 * (65536 * d) \<le> 2 * (c * 1000000) + 65536" "2 * (c * 1000000) - 65536 < 2 * (65536 * d)"
    using round_nearest_error [of 65536 "c * 1000000"] c(3) by (simp_all add: d_def)
  have "\<not> delta \<ge> 0xFFFFFFFF * 1000000 sdiv 0x10000" using assms by (simp add: sdiv_nonneg)
  then have "CompactNtpIntervalToTimeDelta (SaturatedToCompactNtp delta) = d"
    using False compact_interval_small [OF c(3) \<open>c \<le> 2 ^ 31\<close>]
    by (simp add: SaturatedToCompactNtp_def c_def d_def)
  then show ?thesis using c d False by simp
qed

theorem compact_ntp_roundtrip_witness:
  "\<bar>CompactNtpIntervalToTimeDelta (SaturatedToCompactNtp 1234567) - max 0 1234567\<bar> \<le> 8"
  by (rule compact_ntp_roundtrip) simp

lemma CompactNtpRttToTimeDelta_min: "1000 \<le> CompactNtpRttToTimeDelta x"
  by (simp add: CompactNtpRttToTimeDelta_def TimeDelta_Millis_def FromFraction_def)

end
