(* ===== verification/Ccfb_Generator.thy ===== *)
theory Ccfb_Generator
  imports Ccfb_Tracker Ntp_Util
begin

text \<open>
  \<open>modules/remote_bitrate_estimator/congestion_control_feedback_generator.cc\<close>: the component that
  decides when an RFC 8888 feedback is sent and fills it from one tracker per SSRC. Its state is a
  record; the three field trial parameters are in \<open>GeneratorConfig\<close>. \<open>env_.clock()\<close> is the
  argument \<open>now\<close> for its current time and \<open>to_ntp\<close> for its conversion to NTP time, both
  supplied by the platform. The packets handed to \<open>rtcp_sender_\<close> are part of the result.
\<close>

section \<open>Operations\<close>

record GeneratorConfig =
  min_time_between_feedback :: TimeDelta
  max_time_to_wait_for_packet_with_marker :: TimeDelta
  max_time_between_feedback :: TimeDelta

definition GeneratorConfig_default :: GeneratorConfig where
  "GeneratorConfig_default =
     \<lparr>min_time_between_feedback = TimeDelta_Millis 25,
      max_time_to_wait_for_packet_with_marker = TimeDelta_Millis 25,
      max_time_between_feedback = TimeDelta_Millis 500\<rparr>"

record CcfbGenerator =
  send_rate_debt :: DataSize
  feedback_trackers :: "(u32, CcfbTracker) smap"
  last_feedback_sent_time :: Timestamp
  first_arrival_time_since_feedback :: "Timestamp option"
  marker_bit_seen :: bool
  next_possible_feedback_send_time :: Timestamp

definition CcfbGenerator_init :: CcfbGenerator where
  "CcfbGenerator_init =
     \<lparr>send_rate_debt = 0, feedback_trackers = [], last_feedback_sent_time = 0,
      first_arrival_time_since_feedback = None, marker_bit_seen = False, next_possible_feedback_send_time = 0\<rparr>"

definition kMaxFeedbackRate :: DataRate where
  "kMaxFeedbackRate = 500 * 1000"

definition NextFeedbackTime :: "GeneratorConfig \<Rightarrow> Timestamp \<Rightarrow> CcfbGenerator \<Rightarrow> Timestamp" where
  "NextFeedbackTime cfg now g =
     (case first_arrival_time_since_feedback g of
        None \<Rightarrow> max (Timestamp_plus now (min_time_between_feedback cfg)) (next_possible_feedback_send_time g)
      | Some first_arrival \<Rightarrow>
          if \<not> marker_bit_seen g then
            max (next_possible_feedback_send_time g)
              (Timestamp_plus first_arrival (max_time_to_wait_for_packet_with_marker cfg))
          else next_possible_feedback_send_time g)"

definition CalculateNextPossibleSendTime :: "GeneratorConfig \<Rightarrow> DataSize \<Rightarrow> Timestamp \<Rightarrow> CcfbGenerator \<Rightarrow> CcfbGenerator" where
  "CalculateNextPossibleSendTime cfg feedback_size now g =
     (let time_since_last_sent = Timestamp_minus now (last_feedback_sent_time g);
          debt_payed = DataRate_times_TimeDelta kMaxFeedbackRate time_since_last_sent;
          debt = (if debt_payed > send_rate_debt g then 0 else unit_minus (send_rate_debt g) debt_payed);
          debt' = unit_plus debt feedback_size
      in g\<lparr>send_rate_debt := debt', last_feedback_sent_time := now,
           next_possible_feedback_send_time := Timestamp_plus now
             (Clamped (DataSize_per_DataRate debt' kMaxFeedbackRate)
               (min_time_between_feedback cfg) (max_time_between_feedback cfg))\<rparr>)"

text \<open>The loop of \<open>SendFeedback\<close> over the trackers, in the order of the map.\<close>

primrec collect_feedback ::
    "Timestamp \<Rightarrow> (u32, CcfbTracker) smap \<Rightarrow> PacketInfo list \<Rightarrow> ((u32, CcfbTracker) smap \<times> PacketInfo list) option" where
  "collect_feedback now [] infos = Some ([], infos)"
| "collect_feedback now (e # es) infos = do {
     (t, infos) \<leftarrow> AddPacketsToFeedback now (snd e) infos;
     (es, infos) \<leftarrow> collect_feedback now es infos;
     Some ((fst e, t) # es, infos)
   }"

definition Ccfb_SendFeedback ::
    "GeneratorConfig \<Rightarrow> (Timestamp \<Rightarrow> NtpTime) \<Rightarrow> Timestamp \<Rightarrow> CcfbGenerator \<Rightarrow> (CcfbGenerator \<times> Ccfb) option" where
  "Ccfb_SendFeedback cfg to_ntp now g = do {
     let compact_ntp = CompactNtp (to_ntp now);
     (trackers, rtcp_packet_info) \<leftarrow> collect_feedback now (feedback_trackers g) [];
     let feedback = Ccfb_init rtcp_packet_info compact_ntp;
     let g' = g\<lparr>feedback_trackers := trackers, marker_bit_seen := False, first_arrival_time_since_feedback := None\<rparr>;
     Some (CalculateNextPossibleSendTime cfg (int (Ccfb_BlockLength feedback)) now g', feedback)
   }"

definition Ccfb_OnReceivedPacket ::
    "GeneratorConfig \<Rightarrow> (Timestamp \<Rightarrow> NtpTime) \<Rightarrow> Timestamp \<Rightarrow> RtpPacketReceived \<Rightarrow> CcfbGenerator \<Rightarrow>
      (CcfbGenerator \<times> Ccfb list) option" where
  "Ccfb_OnReceivedPacket cfg to_ntp now packet g =
     (let tracker = (case smap_find (feedback_trackers g) (rp_Ssrc packet) of None \<Rightarrow> CcfbTracker_init | Some t \<Rightarrow> t);
          g' = g\<lparr>marker_bit_seen := marker_bit_seen g \<or> rp_Marker packet,
                 first_arrival_time_since_feedback :=
                   (case first_arrival_time_since_feedback g of
                      None \<Rightarrow> Some (rp_arrival_time packet)
                    | Some t \<Rightarrow> Some t),
                 feedback_trackers :=
                   smap_set (rp_Ssrc packet) (Tracker_ReceivedPacket packet tracker) (feedback_trackers g)\<rparr>
      in if NextFeedbackTime cfg now g' < rp_arrival_time packet
         then do { (g'', fb) \<leftarrow> Ccfb_SendFeedback cfg to_ntp now g'; Some (g'', [fb]) }
         else Some (g', []))"

definition Ccfb_Process ::
    "GeneratorConfig \<Rightarrow> (Timestamp \<Rightarrow> NtpTime) \<Rightarrow> Timestamp \<Rightarrow> CcfbGenerator \<Rightarrow>
      (CcfbGenerator \<times> Ccfb list \<times> TimeDelta) option" where
  "Ccfb_Process cfg to_ntp now g =
     (if NextFeedbackTime cfg now g \<le> now
      then do {
        (g', fb) \<leftarrow> Ccfb_SendFeedback cfg to_ntp now g;
        Some (g', [fb], Timestamp_minus (NextFeedbackTime cfg now g') now)
      }
      else Some (g, [], Timestamp_minus (NextFeedbackTime cfg now g) now))"

section \<open>Invariant\<close>

definition generator_ok :: "CcfbGenerator \<Rightarrow> bool" where
  "generator_ok g \<longleftrightarrow> smap_ok (feedback_trackers g) \<and> list_all (\<lambda>(ssrc, t). tracker_ok ssrc t) (feedback_trackers g)"

lemma generator_ok_init: "generator_ok CcfbGenerator_init"
  by (simp add: generator_ok_def CcfbGenerator_init_def)

text \<open>What the trackers contribute, one run per SSRC that has arrivals.\<close>

definition tracker_reports :: "Timestamp \<Rightarrow> u32 \<Rightarrow> CcfbTracker \<Rightarrow> PacketInfo list" where
  "tracker_reports T ssrc t =
     (if tr_packets t = [] then []
      else map (report_of T ssrc (sorted_arrivals t)) [first_reported t..last_reported t])"

definition tracker_flush :: "CcfbTracker \<Rightarrow> CcfbTracker" where
  "tracker_flush t =
     (if tr_packets t = [] then t
      else t\<lparr>last_sequence_number_in_feedback := Some (tp_seq (last (sorted_arrivals t))), tr_packets := []\<rparr>)"

lemma AddPackets_flush:
  "tracker_ok ssrc t \<Longrightarrow> AddPacketsToFeedback T t acc = Some (tracker_flush t, acc @ tracker_reports T ssrc t)"
  using AddPacketsToFeedback_eq [of ssrc t T acc]
  by (auto simp: tracker_flush_def tracker_reports_def AddPacketsToFeedback_def)

lemma tracker_flush_ok: "tracker_ok ssrc t \<Longrightarrow> tracker_ok ssrc (tracker_flush t)"
  using AddPacketsToFeedback_ok [OF _ AddPackets_flush [of ssrc t 0 "[]"]] by blast

lemma collect_feedback_eq:
  "list_all (\<lambda>(ssrc, t). tracker_ok ssrc t) es \<Longrightarrow>
     collect_feedback T es acc =
       Some (map (\<lambda>(ssrc, t). (ssrc, tracker_flush t)) es, acc @ concat (map (\<lambda>(ssrc, t). tracker_reports T ssrc t) es))"
  by (induction es arbitrary: acc) (auto simp: AddPackets_flush)

definition all_reports :: "Timestamp \<Rightarrow> CcfbGenerator \<Rightarrow> PacketInfo list" where
  "all_reports T g = concat (map (\<lambda>(ssrc, t). tracker_reports T ssrc t) (feedback_trackers g))"

lemma SendFeedback_eq:
  assumes "generator_ok g"
  shows "\<exists>g'. Ccfb_SendFeedback cfg to_ntp now g = Some (g', Ccfb_init (all_reports now g) (CompactNtp (to_ntp now))) \<and>
    generator_ok g' \<and>
    g' = CalculateNextPossibleSendTime cfg (int (Ccfb_BlockLength (Ccfb_init (all_reports now g) (CompactNtp (to_ntp now)))))
      now (g\<lparr>feedback_trackers := map (\<lambda>(ssrc, t). (ssrc, tracker_flush t)) (feedback_trackers g),
        marker_bit_seen := False, first_arrival_time_since_feedback := None\<rparr>)"
proof -
  have all: "list_all (\<lambda>(ssrc, t). tracker_ok ssrc t) (feedback_trackers g)" and ok: "smap_ok (feedback_trackers g)"
    using assms by (simp_all add: generator_ok_def)
  have keys: "map fst (map (\<lambda>(ssrc, t). (ssrc, tracker_flush t)) es) = map fst es" for es
    by (induction es) auto
  have fl: "list_all (\<lambda>(ssrc, t). tracker_ok ssrc t) (map (\<lambda>(ssrc, t). (ssrc, tracker_flush t)) (feedback_trackers g))"
    using all by (auto simp: list_all_iff intro: tracker_flush_ok)
  have sk: "smap_ok (map (\<lambda>(ssrc, t). (ssrc, tracker_flush t)) (feedback_trackers g))"
    using ok unfolding smap_ok_def keys .
  show ?thesis
    unfolding Ccfb_SendFeedback_def collect_feedback_eq [OF all] Let_def all_reports_def
    using fl sk by (simp add: generator_ok_def CalculateNextPossibleSendTime_def Let_def)
qed

lemma generator_ok_received:
  assumes "generator_ok g"
  shows "generator_ok (g\<lparr>marker_bit_seen := m, first_arrival_time_since_feedback := f,
    feedback_trackers := smap_set (rp_Ssrc packet)
      (Tracker_ReceivedPacket packet
        (case smap_find (feedback_trackers g) (rp_Ssrc packet) of None \<Rightarrow> CcfbTracker_init | Some t \<Rightarrow> t))
      (feedback_trackers g)\<rparr>)"
proof -
  let ?s = "rp_Ssrc packet"
  let ?t = "case smap_find (feedback_trackers g) ?s of None \<Rightarrow> CcfbTracker_init | Some t \<Rightarrow> t"
  have t: "tracker_ok ?s ?t"
    using assms smap_find_in [of "feedback_trackers g" ?s]
    by (auto simp: generator_ok_def list_all_iff tracker_ok_init split: option.splits)
  show ?thesis
    using assms Tracker_ReceivedPacket_ok [OF t refl] by (auto simp: generator_ok_def list_all_iff set_smap_set)
qed

section \<open>The feedback is well formed\<close>

lemma report_of_fields [simp]:
  "pi_ssrc (report_of T ssrc ps s) = ssrc" "pi_sequence_number (report_of T ssrc ps s) = word_of_int s"
  by (simp_all add: report_of_def split: list.splits)

lemma tracker_reports_ssrc: "r \<in> set (tracker_reports T ssrc t) \<Longrightarrow> pi_ssrc r = ssrc"
  by (auto simp: tracker_reports_def split: if_splits)

lemma tracker_reports_run:
  assumes "tracker_reports T ssrc t \<noteq> []"
  shows "ssrc_run (tracker_reports T ssrc t)"
proof -
  let ?f = "first_reported t" and ?l = "last_reported t"
  let ?R = "report_of T ssrc (sorted_arrivals t)"
  have rs: "tracker_reports T ssrc t = map ?R [?f..?l]" and le: "?f \<le> ?l"
    using assms by (auto simp: tracker_reports_def split: if_splits)
  have nth: "map ?R [?f..?l] ! i = ?R (?f + int i)" if "i < nat (?l - ?f + 1)" for i
    using that by simp
  have hd: "hd (map ?R [?f..?l]) = ?R ?f" using le by (simp add: upto_rec1)
  show ?thesis
    unfolding rs ssrc_run_def hd using le by (auto intro!: nth_equalityI)
qed

lemma packets_for_ssrc_run:
  "run \<noteq> [] \<Longrightarrow> \<forall>r \<in> set run. pi_ssrc r = s \<Longrightarrow> \<forall>r \<in> set rest. pi_ssrc r \<noteq> s \<Longrightarrow>
     packets_for_ssrc (run @ rest) = run"
  unfolding packets_for_ssrc_def
  by (subst takeWhile_append2) (auto simp: takeWhile_eq_Nil_iff hd_append dest: hd_in_set)

lemma runs_ok_concat:
  assumes "smap_ok es"
  shows "runs_ok (concat (map (\<lambda>(ssrc, t). tracker_reports T ssrc t) es))"
  using assms
proof (induction es)
  case (Cons e es)
  obtain ssrc t where e: "e = (ssrc, t)" by (cases e)
  let ?r = "tracker_reports T ssrc t" and ?rest = "concat (map (\<lambda>(ssrc, t). tracker_reports T ssrc t) es)"
  have lt: "\<forall>x \<in> set es. ssrc < fst x" and ok: "smap_ok es" using Cons.prems by (simp_all add: e smap_ok_Cons)
  note IH = Cons.IH [OF ok]
  show ?case
  proof (cases "?r = []")
    case False
    have ne: "\<forall>r \<in> set ?rest. pi_ssrc r \<noteq> ssrc"
    proof
      fix r
      assume "r \<in> set ?rest"
      then obtain s' t' where "(s', t') \<in> set es" "r \<in> set (tracker_reports T s' t')" by auto
      then have "pi_ssrc r = s'" "ssrc < s'" using tracker_reports_ssrc lt by (blast, force)
      then show "pi_ssrc r \<noteq> ssrc" by auto
    qed
    have p: "packets_for_ssrc (?r @ ?rest) = ?r"
      by (rule packets_for_ssrc_run [OF False _ ne]) (blast dest: tracker_reports_ssrc)
    have d: "drop (length ?r) (?r @ ?rest) = ?rest" by simp
    have "runs_ok (?r @ ?rest)"
      unfolding runs_ok.simps [of "?r @ ?rest"] p d using IH tracker_reports_run [OF False] by (simp only: simp_thms if_cancel split: if_split)
    then show ?thesis unfolding e by (simp only: list.map prod.case concat.simps)
  next
    case True
    then show ?thesis unfolding e using IH by (simp only: list.map prod.case concat.simps append.simps)
  qed
next
  case Nil
  show ?case by (subst runs_ok.simps) simp
qed

lemma feedback_valid:
  assumes "generator_ok g" and "length (all_reports T g) \<le> 16384"
  shows "Ccfb_valid (Ccfb_init (all_reports T g) x)"
  using assms runs_ok_concat [of "feedback_trackers g" T]
  by (simp add: Ccfb_valid_def Ccfb_init_def generator_ok_def all_reports_def)

section \<open>The times at which feedback is sent\<close>

definition config_ok :: "GeneratorConfig \<Rightarrow> bool" where
  "config_ok cfg \<longleftrightarrow> 0 \<le> min_time_between_feedback cfg \<and>
     min_time_between_feedback cfg \<le> max_time_between_feedback cfg \<and> max_time_between_feedback cfg < 2 ^ 60"

definition time_ok :: "Timestamp \<Rightarrow> bool" where
  "time_ok t \<longleftrightarrow> 0 \<le> t \<and> t < 2 ^ 60"

lemma Timestamp_plus_small: "time_ok t \<Longrightarrow> \<bar>d\<bar> < 2 ^ 60 \<Longrightarrow> Timestamp_plus t d = t + d"
  by (auto simp: Timestamp_plus_def time_ok_def infinity_defs)

text \<open>
  The time a feedback of \<open>sz\<close> bytes occupies the feedback channel of 500 kbit/s, 16 microseconds per
  byte, within the configured limits.
\<close>

definition send_interval :: "GeneratorConfig \<Rightarrow> nat \<Rightarrow> TimeDelta" where
  "send_interval cfg sz =
     max (min_time_between_feedback cfg) (min (max_time_between_feedback cfg) (16 * int sz))"

definition pacing_ok :: "CcfbGenerator \<Rightarrow> bool" where
  "pacing_ok g \<longleftrightarrow> 0 \<le> send_rate_debt g \<and> time_ok (last_feedback_sent_time g)"

lemma payed_small:
  assumes "time_ok now" and "time_ok l"
  shows "\<bar>DataRate_times_TimeDelta kMaxFeedbackRate (Timestamp_minus now l)\<bar> < 2 ^ 60"
proof -
  have "Timestamp_minus now l = now - l" "\<bar>now - l\<bar> < 2 ^ 60"
    using assms by (auto simp: Timestamp_minus_def time_ok_def infinity_defs)
  then show ?thesis
    by (cases "500000 * (now - l) + 4000000 < 0")
      (auto simp: DataRate_times_TimeDelta_def kMaxFeedbackRate_def Let_def sdiv_nonneg sdiv_neg)
qed

lemma next_possible_bounds:
  fixes sz :: nat
  assumes c: "config_ok cfg" and t: "time_ok now" and g: "pacing_ok g"
  defines "g' \<equiv> CalculateNextPossibleSendTime cfg (int sz) now g"
  shows "pacing_ok g' \<and> now + send_interval cfg sz \<le> next_possible_feedback_send_time g' \<and>
    next_possible_feedback_send_time g' \<le> now + max_time_between_feedback cfg"
proof -
  let ?min = "min_time_between_feedback cfg" and ?max = "max_time_between_feedback cfg"
  define payed where "payed = DataRate_times_TimeDelta kMaxFeedbackRate (Timestamp_minus now (last_feedback_sent_time g))"
  define debt where "debt = (if payed > send_rate_debt g then 0 else unit_minus (send_rate_debt g) payed)"
  define debt' where "debt' = unit_plus debt (int sz)"
  have g0: "0 \<le> send_rate_debt g" "\<bar>payed\<bar> < 2 ^ 60"
    using g payed_small [OF t] by (simp_all add: pacing_ok_def payed_def)
  then have d0: "0 \<le> debt" by (auto simp: debt_def unit_minus_def infinity_defs)
  then have d: "debt' = PlusInfinity \<or> debt' = debt + int sz" "0 \<le> debt'"
    by (auto simp: debt'_def unit_plus_def infinity_defs)
  define v where "v = DataSize_per_DataRate debt' kMaxFeedbackRate"
  have v: "v = 16 * debt'"
    using d(2) by (simp add: v_def DataSize_per_DataRate_def TimeDelta_Micros_def Microbits_def kMaxFeedbackRate_def sdiv_nonneg)
  have "min ?max (16 * int sz) \<le> v" using d d0 c by (auto simp: v config_ok_def PlusInfinity_def)
  then have cl: "send_interval cfg sz \<le> Clamped v ?min ?max" "Clamped v ?min ?max \<le> ?max"
    using c by (auto simp: send_interval_def Clamped_def config_ok_def)
  have "0 \<le> Clamped v ?min ?max" using c by (auto simp: Clamped_def config_ok_def)
  then have "Timestamp_plus now (Clamped v ?min ?max) = now + Clamped v ?min ?max"
    using cl(2) c by (intro Timestamp_plus_small [OF t]) (auto simp: config_ok_def)
  then have "next_possible_feedback_send_time g' = now + Clamped v ?min ?max" "send_rate_debt g' = debt'"
      "last_feedback_sent_time g' = now"
    unfolding g'_def CalculateNextPossibleSendTime_def Let_def payed_def [symmetric] debt_def [symmetric]
      debt'_def [symmetric] v_def [symmetric]
    by simp_all
  then show ?thesis using cl d(2) t by (simp add: pacing_ok_def)
qed

lemma NextFeedbackTime_ge: "next_possible_feedback_send_time g \<le> NextFeedbackTime cfg now g"
  by (auto simp: NextFeedbackTime_def split: option.splits)

datatype gen_event = PacketArrives Timestamp RtpPacketReceived | ProcessAt Timestamp

fun gen_run ::
    "GeneratorConfig \<Rightarrow> (Timestamp \<Rightarrow> NtpTime) \<Rightarrow> gen_event list \<Rightarrow> CcfbGenerator \<Rightarrow>
      (CcfbGenerator \<times> (Timestamp \<times> Ccfb) list) option" where
  "gen_run cfg to_ntp [] g = Some (g, [])"
| "gen_run cfg to_ntp (PacketArrives now packet # es) g = do {
     (g, fbs) \<leftarrow> Ccfb_OnReceivedPacket cfg to_ntp now packet g;
     (g, sent) \<leftarrow> gen_run cfg to_ntp es g;
     Some (g, map (Pair now) fbs @ sent)
   }"
| "gen_run cfg to_ntp (ProcessAt now # es) g = do {
     (g, fbs, delay) \<leftarrow> Ccfb_Process cfg to_ntp now g;
     (g, sent) \<leftarrow> gen_run cfg to_ntp es g;
     Some (g, map (Pair now) fbs @ sent)
   }"

fun event_ok :: "gen_event \<Rightarrow> bool" where
  "event_ok (PacketArrives now packet) \<longleftrightarrow> time_ok now \<and> rp_arrival_time packet \<le> now"
| "event_ok (ProcessAt now) \<longleftrightarrow> time_ok now"

text \<open>One step either sends nothing and leaves the earliest time alone, or sends one packet, late enough.\<close>

definition step_ok :: "GeneratorConfig \<Rightarrow> Timestamp \<Rightarrow> CcfbGenerator \<Rightarrow> CcfbGenerator \<Rightarrow> Ccfb list \<Rightarrow> bool" where
  "step_ok cfg now g g' fbs \<longleftrightarrow> generator_ok g' \<and> pacing_ok g' \<and>
     (fbs = [] \<and> next_possible_feedback_send_time g' = next_possible_feedback_send_time g \<or>
      (\<exists>fb. fbs = [fb] \<and> next_possible_feedback_send_time g \<le> now \<and>
        now + send_interval cfg (Ccfb_BlockLength fb) \<le> next_possible_feedback_send_time g'))"

lemma SendFeedback_step:
  assumes "generator_ok g" and "pacing_ok g" and "config_ok cfg" and "time_ok now"
    and "next_possible_feedback_send_time g \<le> now"
  shows "\<exists>g' fb. Ccfb_SendFeedback cfg to_ntp now g = Some (g', fb) \<and> step_ok cfg now g g' [fb]"
proof -
  let ?fb = "Ccfb_init (all_reports now g) (CompactNtp (to_ntp now))"
  define g1 where "g1 = g\<lparr>feedback_trackers := map (\<lambda>(ssrc, t). (ssrc, tracker_flush t)) (feedback_trackers g),
    marker_bit_seen := False, first_arrival_time_since_feedback := None\<rparr>"
  have "pacing_ok g1" using assms(2) by (simp add: g1_def pacing_ok_def)
  note b = next_possible_bounds [OF assms(3,4) this, of "Ccfb_BlockLength ?fb"]
  from SendFeedback_eq [OF assms(1), of cfg to_ntp now, folded g1_def]
  show ?thesis using b assms(5) unfolding step_ok_def by blast
qed

lemma Process_step:
  assumes "generator_ok g" and "pacing_ok g" and "config_ok cfg" and "time_ok now"
  shows "\<exists>g' fbs d. Ccfb_Process cfg to_ntp now g = Some (g', fbs, d) \<and> step_ok cfg now g g' fbs"
proof (cases "NextFeedbackTime cfg now g \<le> now")
  case True
  then have "next_possible_feedback_send_time g \<le> now" using NextFeedbackTime_ge [of g cfg now] by linarith
  from SendFeedback_step [OF assms this, of to_ntp] show ?thesis using True by (auto simp: Ccfb_Process_def)
next
  case False
  then show ?thesis using assms(1,2) by (simp add: Ccfb_Process_def step_ok_def)
qed

lemma OnReceivedPacket_step:
  assumes ok: "generator_ok g" and p: "pacing_ok g" and c: "config_ok cfg" and t: "time_ok now" and a: "rp_arrival_time packet \<le> now"
  shows "\<exists>g' fbs. Ccfb_OnReceivedPacket cfg to_ntp now packet g = Some (g', fbs) \<and> step_ok cfg now g g' fbs"
proof -
  let ?s = "rp_Ssrc packet"
  let ?t = "case smap_find (feedback_trackers g) ?s of None \<Rightarrow> CcfbTracker_init | Some t \<Rightarrow> t"
  define g1 where "g1 = g\<lparr>marker_bit_seen := marker_bit_seen g \<or> rp_Marker packet,
      first_arrival_time_since_feedback :=
        (case first_arrival_time_since_feedback g of None \<Rightarrow> Some (rp_arrival_time packet) | Some t \<Rightarrow> Some t),
      feedback_trackers := smap_set ?s (Tracker_ReceivedPacket packet ?t) (feedback_trackers g)\<rparr>"
  have g1: "generator_ok g1" "pacing_ok g1" "next_possible_feedback_send_time g1 = next_possible_feedback_send_time g"
    using generator_ok_received [OF ok] p by (simp_all add: g1_def pacing_ok_def)
  show ?thesis
  proof (cases "NextFeedbackTime cfg now g1 < rp_arrival_time packet")
    case True
    then have "next_possible_feedback_send_time g1 \<le> now" using NextFeedbackTime_ge [of g1 cfg now] a by linarith
    from SendFeedback_step [OF g1(1,2) c t this, of to_ntp] show ?thesis
      using True g1(3) unfolding Ccfb_OnReceivedPacket_def Let_def g1_def [symmetric] by (auto simp: step_ok_def)
  next
    case False
    then show ?thesis
      using g1 unfolding Ccfb_OnReceivedPacket_def Let_def g1_def [symmetric] by (simp add: step_ok_def)
  qed
qed

abbreviation spaced :: "GeneratorConfig \<Rightarrow> (Timestamp \<times> Ccfb) list \<Rightarrow> bool" where
  "spaced cfg \<equiv> successively (\<lambda>a b. fst a + send_interval cfg (Ccfb_BlockLength (snd a)) \<le> fst b)"

lemma gen_run_step:
  assumes "step_ok cfg now g g' fbs"
    and "sent = [] \<or> next_possible_feedback_send_time g' \<le> fst (hd sent)" and "spaced cfg sent"
  shows "(map (Pair now) fbs @ sent = [] \<or> next_possible_feedback_send_time g \<le> fst (hd (map (Pair now) fbs @ sent))) \<and>
    spaced cfg (map (Pair now) fbs @ sent)"
  using assms by (cases sent) (auto simp: step_ok_def)

lemma gen_run_spaced:
  assumes "generator_ok g" and "pacing_ok g" and "config_ok cfg" and "list_all event_ok es"
  shows "\<exists>g' sent. gen_run cfg to_ntp es g = Some (g', sent) \<and> generator_ok g' \<and>
    (sent = [] \<or> next_possible_feedback_send_time g \<le> fst (hd sent)) \<and> spaced cfg sent"
  using assms
proof (induction es arbitrary: g)
  case (Cons e es)
  obtain now g1 fbs where s: "step_ok cfg now g g1 fbs"
    and run: "gen_run cfg to_ntp (e # es) g = do { (g, sent) \<leftarrow> gen_run cfg to_ntp es g1; Some (g, map (Pair now) fbs @ sent) }"
  proof (cases e)
    case (PacketArrives now packet)
    then obtain g1 fbs where *: "Ccfb_OnReceivedPacket cfg to_ntp now packet g = Some (g1, fbs)" "step_ok cfg now g g1 fbs"
      using OnReceivedPacket_step [OF Cons.prems(1-3), of now packet to_ntp] Cons.prems(4) by auto
    then show ?thesis using that [OF *(2)] by (simp add: PacketArrives)
  next
    case (ProcessAt now)
    then obtain g1 fbs d where *: "Ccfb_Process cfg to_ntp now g = Some (g1, fbs, d)" "step_ok cfg now g g1 fbs"
      using Process_step [OF Cons.prems(1-3), of now to_ntp] Cons.prems(4) by auto
    then show ?thesis using that [OF *(2)] by (simp add: ProcessAt)
  qed
  have "generator_ok g1" "pacing_ok g1" using s by (simp_all add: step_ok_def)
  then obtain g' sent where IH: "gen_run cfg to_ntp es g1 = Some (g', sent)" "generator_ok g'"
      "sent = [] \<or> next_possible_feedback_send_time g1 \<le> fst (hd sent)" "spaced cfg sent"
    using Cons.IH [of g1] Cons.prems(3,4) by auto
  show ?case
    using gen_run_step [OF s IH(3,4)] IH(1,2) run by simp
qed simp



section \<open>From the arrival of a mark to the sender\<close>

definition gen_tracker :: "CcfbGenerator \<Rightarrow> u32 \<Rightarrow> CcfbTracker" where
  "gen_tracker g ssrc = (case smap_find (feedback_trackers g) ssrc of None \<Rightarrow> CcfbTracker_init | Some t \<Rightarrow> t)"

lemma Unwrap_wraps:
  assumes "unwrapper_ok (0 :: u16) u"
  shows "word_of_int (fst (Unwrap 0 v u)) = v"
proof -
  obtain x u' where xu: "Unwrap 0 v u = (x, u')" by fastforce
  have "last_value u' = Some v" "last_unwrapped u' = x"
    using xu by (auto simp: Unwrap_def Let_def)
  then have "x mod 65536 = uint v"
    using Unwrap_ok [of 0 u v] assms xu by (simp add: unwrapper_ok_def modulus_0)
  then have "uint (word_of_int x :: u16) = uint v" by (simp add: uint_word_of_int)
  then show ?thesis by (simp add: xu word_uint_eq_iff)
qed

lemma received_tracked:
  assumes "tracker_ok ssrc t" and "length (tr_packets t) \<le> kMaxPacketsPerSsrc"
  shows "\<exists>p \<in> set (tr_packets (Tracker_ReceivedPacket packet t)). p = last (tr_packets (Tracker_ReceivedPacket packet t)) \<and>
    tp_ecn p = rp_ecn packet \<and> word_of_int (tp_seq p) = rp_SequenceNumber packet"
proof -
  obtain x u where xu: "Unwrap 0 (rp_SequenceNumber packet) (tr_unwrapper t) = (x, u)" by fastforce
  have "word_of_int x = rp_SequenceNumber packet"
    using Unwrap_wraps [of "tr_unwrapper t" "rp_SequenceNumber packet"] assms(1) by (simp add: xu tracker_ok_def)
  then show ?thesis using assms(2) by (simp add: Tracker_ReceivedPacket_def xu)
qed

lemma canon_finite:
  assumes "0 \<le> t" and "t < 7998046"
  shows "IsFinite (AtoToTimeDelta (To13bitAto t))"
proof -
  have "AtoToTimeDelta (To13bitAto t) \<noteq> PlusInfinity" "AtoToTimeDelta (To13bitAto t) \<ge> t - 978"
    using ato_decoded [of t] assms by (auto split: if_splits)
  then show ?thesis using assms(1) by (auto simp: infinity_defs)
qed

lemma ce_report:
  fixes ssrc :: u32
  assumes "p \<in> set (tr_packets t)" and "tp_ecn p = kCe" and "time_ok now"
    and recent: "list_all (\<lambda>q. now - 7900000 \<le> tp_arrival_time q \<and> tp_arrival_time q \<le> now) (tr_packets t)"
  defines "r \<equiv> packet_canon (report_of now ssrc (sorted_arrivals t) (tp_seq p))"
  shows "pi_ssrc r = ssrc \<and> pi_sequence_number r = word_of_int (tp_seq p) \<and> pi_ecn r = kCe \<and>
    IsFinite (pi_arrival_time_offset r)"
proof -
  let ?r = "report_of now ssrc (sorted_arrivals t) (tp_seq p)" and ?cs = "copies (tp_seq p) (tr_packets t)"
  have p: "p \<in> set ?cs" using assms(1) by (simp add: copies_def)
  then have ne: "?cs \<noteq> []" by auto
  have ce: "kCe \<in> tp_ecn ` set ?cs" using imageI [OF p, of tp_ecn] assms(2) by simp
  let ?m = "Min (tp_arrival_time ` set ?cs)"
  have "?m \<in> tp_arrival_time ` set ?cs" using ne by (intro Min_in) auto
  then obtain q where q: "q \<in> set (tr_packets t)" "?m = tp_arrival_time q" by (auto simp: copies_def)
  then have m: "now - 7900000 \<le> ?m" "?m \<le> now" using recent by (auto simp: list_all_iff)
  have r: "pi_ecn ?r = kCe" "pi_arrival_time_offset ?r = Timestamp_minus now ?m"
    using report_of_correct [of now "tp_seq p" t ssrc] ne ce by (simp_all add: report_correct_def)
  have "Timestamp_minus now ?m = now - ?m"
    using m assms(3) by (auto simp: Timestamp_minus_def time_ok_def infinity_defs)
  then have off: "0 \<le> pi_arrival_time_offset ?r" "pi_arrival_time_offset ?r < 7998046" using r(2) m by simp_all
  then have "IsFinite (pi_arrival_time_offset ?r)" by (simp add: infinity_defs)
  then show ?thesis using r(1) canon_finite [OF off] by (simp add: r_def packet_canon_def)
qed

lemma gen_tracker_ok: "generator_ok g \<Longrightarrow> tracker_ok ssrc (gen_tracker g ssrc)"
  using smap_find_in [of "feedback_trackers g" ssrc]
  by (auto simp: generator_ok_def gen_tracker_def list_all_iff tracker_ok_init split: option.splits)

lemma reported_in_all:
  assumes "generator_ok g" and "p \<in> set (tr_packets (gen_tracker g ssrc))"
    and "tp_seq p \<le> last_reported (gen_tracker g ssrc)"
  shows "report_of now ssrc (sorted_arrivals (gen_tracker g ssrc)) (tp_seq p) \<in> set (all_reports now g)"
proof -
  let ?t = "gen_tracker g ssrc"
  have "(ssrc, ?t) \<in> set (feedback_trackers g)"
    using assms(2) smap_find_in [of "feedback_trackers g" ssrc]
    by (auto simp: gen_tracker_def CcfbTracker_init_def split: option.splits)
  moreover have "first_reported ?t \<le> tp_seq p" by (rule first_reported_le [OF gen_tracker_ok [OF assms(1)] assms(2)])
  then have "report_of now ssrc (sorted_arrivals ?t) (tp_seq p) \<in> set (tracker_reports now ssrc ?t)"
    using assms(2,3) by (auto simp: tracker_reports_def)
  ultimately show ?thesis unfolding all_reports_def by force
qed

text \<open>The packet that an entry of a feedback is about.\<close>

definition info_key :: "PacketInfo \<Rightarrow> u32 \<times> u16" where
  "info_key i = (pi_ssrc i, pi_sequence_number i)"

lemma distinct_word_upto:
  assumes "b - a < 2 ^ 16"
  shows "distinct (map (word_of_int :: int \<Rightarrow> u16) [a..b])"
proof -
  have "inj_on (word_of_int :: int \<Rightarrow> u16) {a..b}"
  proof (rule inj_onI)
    fix x y
    assume xy: "x \<in> {a..b}" "y \<in> {a..b}" and "(word_of_int x :: u16) = word_of_int y"
    then have "x mod 65536 = y mod 65536" by (simp add: word_of_int_eq_iff take_bit_eq_mod)
    then have "65536 dvd (x - y)" by (simp add: mod_eq_dvd_iff)
    then obtain k where k: "x - y = 65536 * k" by (elim dvdE)
    then have "65536 * k < 65536" "- 65536 < 65536 * k" using xy assms by auto
    then have "k = 0" by linarith
    then show "x = y" using k by simp
  qed
  then show ?thesis by (simp add: distinct_map)
qed

lemma report_of_key: "info_key (report_of T ssrc ps s) = (ssrc, word_of_int s)"
  by (simp add: info_key_def report_of_def split: list.splits)

lemma tracker_reports_keys:
  "distinct (map info_key (tracker_reports T ssrc t))" "fst ` info_key ` set (tracker_reports T ssrc t) \<subseteq> {ssrc}"
proof -
  have "last_reported t - first_reported t < 2 ^ 16" by (simp add: last_reported_def kMaxPacketsPerSsrc_def)
  from distinct_word_upto [OF this] have "distinct (map (\<lambda>s. (ssrc, word_of_int s :: u16)) [first_reported t..last_reported t])"
    by (simp add: distinct_map inj_on_def)
  then show "distinct (map info_key (tracker_reports T ssrc t))"
    by (simp add: tracker_reports_def comp_def report_of_key)
  show "fst ` info_key ` set (tracker_reports T ssrc t) \<subseteq> {ssrc}"
    by (auto simp: tracker_reports_def report_of_key)
qed

text \<open>No packet is reported twice in a feedback.\<close>

lemma all_reports_distinct:
  assumes "generator_ok g"
  shows "distinct (map info_key (all_reports T g))"
proof -
  have "distinct (map info_key (concat (map (\<lambda>(ssrc, t). tracker_reports T ssrc t) ts)))" if "smap_ok ts" for ts
    using that
  proof (induction ts)
    case (Cons e ts)
    obtain ssrc t where e: "e = (ssrc, t)" by force
    have ok: "smap_ok ts" "\<forall>e \<in> set ts. ssrc < fst e" using Cons.prems by (auto simp: e smap_ok_Cons)
    have "info_key x \<noteq> info_key y" if x: "x \<in> set (tracker_reports T ssrc t)"
      and y: "(s', t') \<in> set ts" "y \<in> set (tracker_reports T s' t')" for x y s' t'
    proof -
      have "fst (info_key x) = ssrc" "fst (info_key y) = s'"
        using tracker_reports_keys(2) [of T ssrc t] tracker_reports_keys(2) [of T s' t'] x y(2) by blast+
      moreover have "ssrc < s'" using ok(2) y(1) by auto
      ultimately show ?thesis by auto
    qed
    then show ?case using Cons.IH [OF ok(1)] tracker_reports_keys(1) [of T ssrc t] by (fastforce simp: e)
  qed simp
  then show ?thesis using assms by (simp add: all_reports_def generator_ok_def)
qed

lemma ce_mark_in_feedback:
  assumes ok: "generator_ok g" and "time_ok now"
    and rcv: "Ccfb_OnReceivedPacket cfg to_ntp t0 packet g = Some (g1, [])" and ce: "rp_ecn packet = kCe"
    and room: "length (tr_packets (gen_tracker g (rp_Ssrc packet))) \<le> kMaxPacketsPerSsrc"
    and t: "t = gen_tracker g1 (rp_Ssrc packet)"
    and near: "tp_seq (last (tr_packets t)) \<le> last_reported t"
    and recent: "list_all (\<lambda>q. now - 7900000 \<le> tp_arrival_time q \<and> tp_arrival_time q \<le> now) (tr_packets t)"
    and small: "length (all_reports now g1) \<le> 16384"
  shows "\<exists>g2 fb fb' r. Ccfb_SendFeedback cfg to_ntp now g1 = Some (g2, fb) \<and>
    generator_ok g1 \<and> map info_key (ccfb_packets fb') = map info_key (all_reports now g1) \<and>
    parse_block Ccfb_Parse (Build (Ccfb_BlockLength fb) (Ccfb_Create fb)) = Some (Accepted (fb', [])) \<and>
    r \<in> set (ccfb_packets fb') \<and> pi_ssrc r = rp_Ssrc packet \<and> pi_sequence_number r = rp_SequenceNumber packet \<and>
    pi_ecn r = kCe \<and> IsFinite (pi_arrival_time_offset r) \<and> Ccfb_valid fb \<and> fb' = Ccfb_canon fb"
proof -
  let ?s = "rp_Ssrc packet"
  have g1: "generator_ok g1" and t1: "t = Tracker_ReceivedPacket packet (gen_tracker g ?s)"
    using rcv generator_ok_received [OF ok, where packet = packet]
    by (auto simp: Ccfb_OnReceivedPacket_def Let_def t gen_tracker_def smap_find_set split: if_splits bind_splits)
  obtain p where p: "p \<in> set (tr_packets t)" "p = last (tr_packets t)" "tp_ecn p = kCe"
      "word_of_int (tp_seq p) = rp_SequenceNumber packet"
    using received_tracked [OF gen_tracker_ok [OF ok] room] ce t1 by auto
  let ?r = "report_of now ?s (sorted_arrivals t) (tp_seq p)"
  have mem: "?r \<in> set (all_reports now g1)"
    using reported_in_all [OF g1, of p ?s now] p(1,2) near t by simp
  let ?fb = "Ccfb_init (all_reports now g1) (CompactNtp (to_ntp now))"
  have send: "\<exists>g2. Ccfb_SendFeedback cfg to_ntp now g1 = Some (g2, ?fb)"
    using SendFeedback_eq [OF g1, of cfg to_ntp now] by blast
  have "parse_block Ccfb_Parse (Build (Ccfb_BlockLength ?fb) (Ccfb_Create ?fb)) = Some (Accepted (Ccfb_canon ?fb, []))"
    using ccfb.Build_roundtrip(2) [OF feedback_valid [OF g1 small]] unfolding Ccfb_Create_eq .
  moreover have "packet_canon ?r \<in> set (ccfb_packets (Ccfb_canon ?fb))"
    using mem by (simp add: Ccfb_canon_def Ccfb_init_def)
  moreover have "map info_key (ccfb_packets (Ccfb_canon ?fb)) = map info_key (all_reports now g1)"
    by (simp add: Ccfb_canon_def Ccfb_init_def info_key_def packet_canon_def comp_def)
  ultimately show ?thesis
    using g1 send ce_report [OF p(1,3) assms(2) recent, of ?s] p(4) feedback_valid [OF g1 small] by fastforce
qed


definition ce_packet :: RtpPacketReceived where
  "ce_packet = \<lparr>rp_Ssrc = 1, rp_SequenceNumber = 7, rp_Marker = False, rp_arrival_time = 49000, rp_ecn = kCe\<rparr>"

lemma ce_example:
  obtains g1 tr where
    "Ccfb_OnReceivedPacket GeneratorConfig_default (\<lambda>t. of_int t) 49500 ce_packet CcfbGenerator_init = Some (g1, [])"
    "tr = gen_tracker g1 (rp_Ssrc ce_packet)" "tp_seq (last (tr_packets tr)) \<le> last_reported tr"
    "list_all (\<lambda>q. 80000 - 7900000 \<le> tp_arrival_time q \<and> tp_arrival_time q \<le> 80000) (tr_packets tr)"
    "length (all_reports 80000 g1) \<le> 16384" "time_ok 80000" "rp_ecn ce_packet = kCe"
    "length (tr_packets (gen_tracker CcfbGenerator_init (rp_Ssrc ce_packet))) \<le> kMaxPacketsPerSsrc"
proof -
  define tr where "tr = \<lparr>last_sequence_number_in_feedback = None,
    tr_unwrapper = \<lparr>last_unwrapped = 7, last_value = Some (7 :: u16)\<rparr>,
    tr_packets = [\<lparr>tp_ssrc = 1, tp_seq = 7, tp_arrival_time = 49000, tp_ecn = kCe\<rparr>]\<rparr>"
  define g1 where "g1 = CcfbGenerator_init\<lparr>first_arrival_time_since_feedback := Some 49000,
    feedback_trackers := [(1, tr)]\<rparr>"
  have "Tracker_ReceivedPacket ce_packet CcfbTracker_init = tr"
    by (simp add: tr_def Tracker_ReceivedPacket_def CcfbTracker_init_def ce_packet_def Unwrap_def
        SeqNumUnwrapper_init_def Let_def)
  then have rcv: "Ccfb_OnReceivedPacket GeneratorConfig_default (\<lambda>t. of_int t) 49500 ce_packet CcfbGenerator_init = Some (g1, [])"
    by (simp add: Ccfb_OnReceivedPacket_def g1_def CcfbGenerator_init_def ce_packet_def Let_def NextFeedbackTime_def
        GeneratorConfig_default_def TimeDelta_Millis_def FromFraction_def Timestamp_plus_def infinity_defs)
  have t: "gen_tracker g1 1 = tr" by (simp add: gen_tracker_def g1_def smap_find_def)
  have fr: "first_reported tr = 7" "last_reported tr = 7"
    by (simp_all add: last_reported_def first_reported_def sorted_arrivals_def tr_def kMaxPacketsPerSsrc_def)
  have "length (all_reports 80000 g1) \<le> 16384"
    by (simp add: all_reports_def g1_def tracker_reports_def fr)
  then show thesis
    using that [OF rcv, of tr] t fr
    by (simp add: ce_packet_def time_ok_def gen_tracker_def CcfbGenerator_init_def CcfbTracker_init_def tr_def)
qed


end
