(* ===== verification/Tf_Chunk.thy ===== *)
theory Tf_Chunk
  imports Byte_IO
begin

text \<open>
  \<open>TransportFeedback::LastChunk\<close> of \<open>modules/rtp_rtcp/source/rtcp_packet/transport_feedback.cc\<close>: the
  run of packet statuses that is still growing, and its three 16-bit encodings. A status is the size in
  bytes of the packet's delta: 0 for a packet that was not received, 1 or 2 (\<open>kLarge\<close>) otherwise.

  \<open>delta_sizes_\<close> is an array of 14 entries of which only the first \<open>size_\<close> are meaningful: an entry is
  written before \<open>size_\<close> grows past it, and no operation reads one at or beyond \<open>size_\<close>. The model
  keeps the list of the meaningful entries.

  The abstraction of a chunk is the list of statuses it stands for (\<open>contents\<close>, what \<open>AppendTo\<close>
  appends). The lemmas show that \<open>Add\<close> appends to that list, that \<open>Emit\<close> splits a prefix off it
  which its chunk decodes to, and that \<open>EncodeLast\<close> decodes to all of it.
\<close>

section \<open>Operations\<close>

record LastChunk =
  lc_delta_sizes :: "nat list"
  lc_size :: nat
  lc_all_same :: bool
  lc_has_large_delta :: bool

definition kMaxRunLengthCapacity :: nat where
  "kMaxRunLengthCapacity = 0x1fff"

definition kMaxOneBitCapacity :: nat where
  "kMaxOneBitCapacity = 14"

definition kMaxTwoBitCapacity :: nat where
  "kMaxTwoBitCapacity = 7"

definition kMaxVectorCapacity :: nat where
  "kMaxVectorCapacity = kMaxOneBitCapacity"

definition kLarge :: nat where
  "kLarge = 2"

lemmas chunk_consts = kMaxRunLengthCapacity_def kMaxOneBitCapacity_def kMaxTwoBitCapacity_def kMaxVectorCapacity_def
  kLarge_def

definition LastChunk_Clear :: LastChunk where
  "LastChunk_Clear = \<lparr>lc_delta_sizes = [], lc_size = 0, lc_all_same = True, lc_has_large_delta = False\<rparr>"

definition LastChunk_Empty :: "LastChunk \<Rightarrow> bool" where
  "LastChunk_Empty c \<longleftrightarrow> lc_size c = 0"

definition CanAdd :: "nat \<Rightarrow> LastChunk \<Rightarrow> bool" where
  "CanAdd delta_size c \<longleftrightarrow>
     lc_size c < kMaxTwoBitCapacity \<or>
     lc_size c < kMaxOneBitCapacity \<and> \<not> lc_has_large_delta c \<and> delta_size \<noteq> kLarge \<or>
     lc_size c < kMaxRunLengthCapacity \<and> lc_all_same c \<and> lc_delta_sizes c ! 0 = delta_size"

definition LastChunk_Add :: "nat \<Rightarrow> LastChunk \<Rightarrow> LastChunk" where
  "LastChunk_Add delta_size c =
     (let ds = (if lc_size c < kMaxVectorCapacity then lc_delta_sizes c @ [delta_size] else lc_delta_sizes c)
      in \<lparr>lc_delta_sizes = ds, lc_size = lc_size c + 1,
          lc_all_same = (lc_all_same c \<and> delta_size = ds ! 0),
          lc_has_large_delta = (lc_has_large_delta c \<or> delta_size = kLarge)\<rparr>)"

definition LastChunk_AddMissingPackets :: "nat \<Rightarrow> LastChunk \<Rightarrow> LastChunk" where
  "LastChunk_AddMissingPackets num_missing c =
     c\<lparr>lc_delta_sizes := replicate (min num_missing kMaxVectorCapacity) 0, lc_size := num_missing\<rparr>"

definition EncodeOneBit :: "LastChunk \<Rightarrow> u16" where
  "EncodeOneBit c =
     fold (\<lambda>i chunk. chunk OR push_bit (kMaxOneBitCapacity - 1 - i) (of_nat (lc_delta_sizes c ! i))) [0..<lc_size c] 0x8000"

definition EncodeTwoBit :: "nat \<Rightarrow> LastChunk \<Rightarrow> u16" where
  "EncodeTwoBit n c =
     fold (\<lambda>i chunk. chunk OR push_bit (2 * (kMaxTwoBitCapacity - 1 - i)) (of_nat (lc_delta_sizes c ! i))) [0..<n] 0xc000"

definition EncodeRunLength :: "LastChunk \<Rightarrow> u16" where
  "EncodeRunLength c = push_bit 13 (of_nat (lc_delta_sizes c ! 0)) OR of_nat (lc_size c)"

definition LastChunk_Emit :: "LastChunk \<Rightarrow> u16 \<times> LastChunk" where
  "LastChunk_Emit c =
     (if lc_all_same c then (EncodeRunLength c, LastChunk_Clear)
      else if lc_size c = kMaxOneBitCapacity then (EncodeOneBit c, LastChunk_Clear)
      else
        let rest = drop kMaxTwoBitCapacity (lc_delta_sizes c)
        in (EncodeTwoBit kMaxTwoBitCapacity c,
            \<lparr>lc_delta_sizes = rest, lc_size = lc_size c - kMaxTwoBitCapacity,
             lc_all_same = list_all (\<lambda>d. d = rest ! 0) rest,
             lc_has_large_delta = list_ex (\<lambda>d. d = kLarge) rest\<rparr>))"

definition EncodeLast :: "LastChunk \<Rightarrow> u16" where
  "EncodeLast c =
     (if lc_all_same c then EncodeRunLength c
      else if lc_size c \<le> kMaxTwoBitCapacity then EncodeTwoBit (lc_size c) c
      else EncodeOneBit c)"

definition LastChunk_AppendTo :: "LastChunk \<Rightarrow> nat list \<Rightarrow> nat list" where
  "LastChunk_AppendTo c deltas =
     (if lc_all_same c then deltas @ replicate (lc_size c) (lc_delta_sizes c ! 0)
      else deltas @ take (lc_size c) (lc_delta_sizes c))"

definition DecodeOneBit :: "u16 \<Rightarrow> nat \<Rightarrow> LastChunk" where
  "DecodeOneBit chunk max_size =
     (let n = min kMaxOneBitCapacity max_size
      in \<lparr>lc_delta_sizes = map (\<lambda>i. unat (drop_bit (kMaxOneBitCapacity - 1 - i) chunk AND 0x01)) [0..<n],
          lc_size = n, lc_all_same = False, lc_has_large_delta = False\<rparr>)"

definition DecodeTwoBit :: "u16 \<Rightarrow> nat \<Rightarrow> LastChunk" where
  "DecodeTwoBit chunk max_size =
     (let n = min kMaxTwoBitCapacity max_size
      in \<lparr>lc_delta_sizes = map (\<lambda>i. unat (drop_bit (2 * (kMaxTwoBitCapacity - 1 - i)) chunk AND 0x03)) [0..<n],
          lc_size = n, lc_all_same = False, lc_has_large_delta = True\<rparr>)"

definition DecodeRunLength :: "u16 \<Rightarrow> nat \<Rightarrow> LastChunk" where
  "DecodeRunLength chunk max_count =
     (let n = min (unat (chunk AND 0x1fff)) max_count;
          delta_size = unat (drop_bit 13 chunk AND 0x03)
      in \<lparr>lc_delta_sizes = replicate (min n kMaxVectorCapacity) delta_size, lc_size = n, lc_all_same = True,
          lc_has_large_delta = (delta_size \<ge> kLarge)\<rparr>)"

definition LastChunk_Decode :: "u16 \<Rightarrow> nat \<Rightarrow> LastChunk" where
  "LastChunk_Decode chunk max_size =
     (if chunk AND 0x8000 = 0 then DecodeRunLength chunk max_size
      else if chunk AND 0x4000 = 0 then DecodeOneBit chunk max_size
      else DecodeTwoBit chunk max_size)"

section \<open>Bits of the encodings\<close>

lemma bit_fold_fields:
  fixes f :: "nat \<Rightarrow> nat" and sh :: "nat \<Rightarrow> nat"
  shows "bit (fold (\<lambda>i chunk. chunk OR push_bit (sh i) (of_nat (f i))) is (b :: u16)) k \<longleftrightarrow>
    bit b k \<or> k < 16 \<and> (\<exists>i \<in> set is. sh i \<le> k \<and> bit (f i) (k - sh i))"
proof (induction "is" arbitrary: b)
  case (Cons i "is")
  have "bit (push_bit (sh i) (of_nat (f i)) :: u16) k \<longleftrightarrow> k < 16 \<and> sh i \<le> k \<and> bit (f i) (k - sh i)"
    by (auto simp: bit_push_bit_iff bit_of_nat_iff)
  then show ?case unfolding fold_Cons comp_apply Cons.IH by (auto simp: bit_or_iff)
qed simp

lemma bit_8000: "bit (0x8000 :: u16) k \<longleftrightarrow> k = 15"
proof -
  have "bit (2 ^ 15 :: u16) k \<longleftrightarrow> k = 15" by (simp only: bit_exp_iff) auto
  then show ?thesis by simp
qed

lemma bit_4000: "bit (0x4000 :: u16) k \<longleftrightarrow> k = 14"
proof -
  have "bit (2 ^ 14 :: u16) k \<longleftrightarrow> k = 14" by (simp only: bit_exp_iff) auto
  then show ?thesis by simp
qed

lemma bit_c000: "bit (0xc000 :: u16) k \<longleftrightarrow> k = 15 \<or> k = 14"
proof -
  have "(0xc000 :: u16) = 0x8000 OR 0x4000" by simp
  then show ?thesis by (simp only: bit_or_iff bit_8000 bit_4000)
qed

lemma and_bit_zero:
  "(c AND 0x8000 = 0) \<longleftrightarrow> \<not> bit (c :: u16) 15" "(c AND 0x4000 = 0) \<longleftrightarrow> \<not> bit c 14"
proof -
  have "(c AND 0x8000 = 0) \<longleftrightarrow> (\<forall>k. \<not> bit (c AND 0x8000) k)" by (metis bit_0_eq bit_word_eqI bot_apply bot_bool_def)
  then show "(c AND 0x8000 = 0) \<longleftrightarrow> \<not> bit c 15" unfolding bit_and_iff bit_8000 by auto
  have "(c AND 0x4000 = 0) \<longleftrightarrow> (\<forall>k. \<not> bit (c AND 0x4000) k)" by (metis bit_0_eq bit_word_eqI bot_apply bot_bool_def)
  then show "(c AND 0x4000 = 0) \<longleftrightarrow> \<not> bit c 14" unfolding bit_and_iff bit_4000 by auto
qed

lemma low_bits: "bit (n :: nat) k \<Longrightarrow> n \<le> 1 \<Longrightarrow> k = 0" "bit n k \<Longrightarrow> n \<le> 3 \<Longrightarrow> k < 2"
  using bit_less_exp [of n 1 k] bit_less_exp [of n 2 k] by auto

lemma bit_EncodeOneBit:
  assumes "lc_size c \<le> 14" and "\<forall>i < lc_size c. lc_delta_sizes c ! i \<le> 1"
  shows "bit (EncodeOneBit c) k \<longleftrightarrow> k = 15 \<or> k < 14 \<and> 13 - k < lc_size c \<and> lc_delta_sizes c ! (13 - k) = 1"
proof -
  have "(\<exists>i \<in> set [0..<lc_size c]. 13 - i \<le> k \<and> bit (lc_delta_sizes c ! i) (k - (13 - i))) \<longleftrightarrow>
      k < 14 \<and> 13 - k < lc_size c \<and> lc_delta_sizes c ! (13 - k) = 1" (is "?L \<longleftrightarrow> ?R")
  proof
    assume ?L
    then obtain i where i: "i < lc_size c" "13 - i \<le> k" "bit (lc_delta_sizes c ! i) (k - (13 - i))" by auto
    then have "k - (13 - i) = 0" using low_bits(1) assms(2) by blast
    then have k: "k = 13 - i" using i(2) by linarith
    with i assms show ?R by (auto simp: bit_0 le_Suc_eq)
  next
    assume ?R
    then show ?L by (intro bexI [of _ "13 - k"]) (auto simp: bit_0)
  qed
  then show ?thesis
    unfolding EncodeOneBit_def chunk_consts bit_fold_fields bit_8000 by auto
qed

lemma bit_EncodeTwoBit:
  assumes "n \<le> 7" and "\<forall>i < n. lc_delta_sizes c ! i \<le> 3"
  shows "bit (EncodeTwoBit n c) k \<longleftrightarrow>
    k = 15 \<or> k = 14 \<or> k < 14 \<and> 6 - k div 2 < n \<and> bit (lc_delta_sizes c ! (6 - k div 2)) (k mod 2)"
proof -
  have "(\<exists>i \<in> set [0..<n]. 2 * (6 - i) \<le> k \<and> bit (lc_delta_sizes c ! i) (k - 2 * (6 - i))) \<longleftrightarrow>
      k < 14 \<and> 6 - k div 2 < n \<and> bit (lc_delta_sizes c ! (6 - k div 2)) (k mod 2)" (is "?L \<longleftrightarrow> ?R")
  proof
    assume ?L
    then obtain i where i: "i < n" "2 * (6 - i) \<le> k" "bit (lc_delta_sizes c ! i) (k - 2 * (6 - i))" by auto
    then have lt: "k - 2 * (6 - i) < 2" using low_bits(2) assms(2) by blast
    have "k div 2 = 6 - i" "k mod 2 = k - 2 * (6 - i)" using i(2) lt by presburger+
    moreover have "i \<le> 6" using i(1) assms(1) by simp
    ultimately show ?R using i lt by auto
  next
    assume R: ?R
    then have "k div 2 \<le> 6" by linarith
    then have "2 * (6 - (6 - k div 2)) = 2 * (k div 2)" by simp
    moreover have "k - 2 * (k div 2) = k mod 2" by presburger
    ultimately show ?L using R by (intro bexI [of _ "6 - k div 2"]) auto
  qed
  then show ?thesis
    unfolding EncodeTwoBit_def chunk_consts bit_fold_fields bit_c000 by auto
qed

lemma bit_EncodeRunLength:
  assumes "lc_size c \<le> 0x1fff" and "lc_delta_sizes c ! 0 \<le> 3"
  shows "bit (EncodeRunLength c) k \<longleftrightarrow>
    13 \<le> k \<and> bit (lc_delta_sizes c ! 0) (k - 13) \<or> k < 13 \<and> bit (lc_size c) k"
proof -
  have "bit (lc_size c) k \<Longrightarrow> k < 13" using bit_less_exp [of "lc_size c" 13 k] assms(1) by simp
  moreover have "bit (lc_delta_sizes c ! 0) (k - 13) \<Longrightarrow> k - 13 < 2" using low_bits(2) assms(2) by blast
  ultimately show ?thesis
    by (auto simp: EncodeRunLength_def bit_or_iff bit_push_bit_iff bit_of_nat_iff)
qed

section \<open>Contents and invariant\<close>

definition contents :: "LastChunk \<Rightarrow> nat list" where
  "contents c = LastChunk_AppendTo c []"

lemma AppendTo_contents: "LastChunk_AppendTo c ds = ds @ contents c"
  by (simp add: contents_def LastChunk_AppendTo_def)

definition chunk_ok :: "LastChunk \<Rightarrow> bool" where
  "chunk_ok c \<longleftrightarrow>
     length (lc_delta_sizes c) = min (lc_size c) 14 \<and>
     list_all (\<lambda>d. d \<le> 2) (lc_delta_sizes c) \<and>
     (if lc_all_same c
      then lc_size c \<le> 0x1fff \<and> list_all (\<lambda>d. d = lc_delta_sizes c ! 0) (lc_delta_sizes c)
      else lc_size c \<le> 14) \<and>
     (lc_has_large_delta c \<longleftrightarrow> 2 \<in> set (lc_delta_sizes c)) \<and>
     (lc_has_large_delta c \<and> \<not> lc_all_same c \<longrightarrow> lc_size c \<le> 7)"

lemma chunk_ok_Clear: "chunk_ok LastChunk_Clear" "contents LastChunk_Clear = []"
  by (simp_all add: chunk_ok_def LastChunk_Clear_def contents_def LastChunk_AppendTo_def)

lemma contents_length: "chunk_ok c \<Longrightarrow> length (contents c) = lc_size c"
  by (auto simp: contents_def LastChunk_AppendTo_def chunk_ok_def split: if_splits)

lemma contents_not_same: "chunk_ok c \<Longrightarrow> \<not> lc_all_same c \<Longrightarrow> contents c = lc_delta_sizes c"
  by (simp add: contents_def LastChunk_AppendTo_def chunk_ok_def)

lemma contents_same: "lc_all_same c \<Longrightarrow> contents c = replicate (lc_size c) (lc_delta_sizes c ! 0)"
  by (simp add: contents_def LastChunk_AppendTo_def)

lemma contents_small:
  assumes "chunk_ok c" and "lc_size c \<le> 14"
  shows "contents c = lc_delta_sizes c"
proof (cases "lc_all_same c")
  case True
  have len: "length (lc_delta_sizes c) = lc_size c" using assms by (simp add: chunk_ok_def)
  have "\<forall>d \<in> set (lc_delta_sizes c). d = lc_delta_sizes c ! 0" using assms(1) True by (simp add: chunk_ok_def list_all_iff)
  from replicate_length_same [OF this]
  have "lc_delta_sizes c = replicate (lc_size c) (lc_delta_sizes c ! 0)" unfolding len by (rule sym)
  from trans [OF contents_same [OF True] this [symmetric]] show ?thesis .
qed (rule contents_not_same [OF assms(1)])

lemma contents_le_2: "chunk_ok c \<Longrightarrow> list_all (\<lambda>d. d \<le> 2) (contents c)"
  by (cases "lc_size c = 0")
    (auto simp: contents_def LastChunk_AppendTo_def chunk_ok_def list_all_iff dest!: in_set_takeD)

lemma Add_contents:
  assumes ok: "chunk_ok c" and d: "d \<le> 2" and can: "CanAdd d c"
  shows "chunk_ok (LastChunk_Add d c)" and "contents (LastChunk_Add d c) = contents c @ [d]"
proof -
  let ?c = "LastChunk_Add d c"
  have c: "length (lc_delta_sizes c) = min (lc_size c) 14" "list_all (\<lambda>d. d \<le> 2) (lc_delta_sizes c)"
    "lc_has_large_delta c \<longleftrightarrow> 2 \<in> set (lc_delta_sizes c)"
    "lc_all_same c \<Longrightarrow> lc_size c \<le> 0x1fff" "lc_all_same c \<Longrightarrow> \<forall>x \<in> set (lc_delta_sizes c). x = lc_delta_sizes c ! 0"
    "\<not> lc_all_same c \<Longrightarrow> lc_size c \<le> 14" "lc_has_large_delta c \<Longrightarrow> \<not> lc_all_same c \<Longrightarrow> lc_size c \<le> 7"
    using ok by (auto simp: chunk_ok_def list_all_iff split: if_splits)
  show ok': "chunk_ok ?c"
  proof (cases "lc_size c = 0")
    case True
    then have e: "lc_delta_sizes c = []" using c(1) by simp
    then have "lc_has_large_delta c = False" using c(3) by simp
    then show ?thesis using True e d c(7) by (auto simp: chunk_ok_def LastChunk_Add_def chunk_consts Let_def)
  next
    case ne: False
    then obtain x xs where ds: "lc_delta_sizes c = x # xs" using c(1) by (cases "lc_delta_sizes c") auto
    have can': "lc_size c < 7 \<or> lc_size c < 14 \<and> \<not> lc_has_large_delta c \<and> d \<noteq> 2 \<or>
        lc_size c < 0x1fff \<and> lc_all_same c \<and> x = d"
      using can by (simp add: CanAdd_def chunk_consts ds)
    have fields: "lc_size ?c = lc_size c + 1" "lc_all_same ?c \<longleftrightarrow> lc_all_same c \<and> d = x"
      "lc_has_large_delta ?c \<longleftrightarrow> lc_has_large_delta c \<or> d = 2"
      "lc_delta_sizes ?c = (if lc_size c < 14 then x # xs @ [d] else x # xs)"
      by (simp_all add: LastChunk_Add_def Let_def chunk_consts ds)
    have len: "length (lc_delta_sizes ?c) = min (lc_size ?c) 14"
      using c(1) unfolding fields ds by auto
    have le: "list_all (\<lambda>d. d \<le> 2) (lc_delta_sizes ?c)" using c(2) d unfolding fields ds by simp
    have same: "if lc_all_same ?c then lc_size ?c \<le> 0x1fff \<and> list_all (\<lambda>d. d = lc_delta_sizes ?c ! 0) (lc_delta_sizes ?c)
        else lc_size ?c \<le> 14"
      using c(4-6) can' unfolding fields ds by (auto simp: list_all_iff)
    have large: "lc_has_large_delta ?c \<longleftrightarrow> 2 \<in> set (lc_delta_sizes ?c)"
      using c(3,5,6) can' unfolding fields ds by auto
    have "lc_has_large_delta ?c \<and> \<not> lc_all_same ?c \<longrightarrow> lc_size ?c \<le> 7"
      using c(7) can' c(3,5) unfolding fields ds by auto
    then show ?thesis unfolding chunk_ok_def using len le same large by blast
  qed
  show "contents ?c = contents c @ [d]"
  proof (cases "lc_size c < 14")
    case True
    then have "contents c = lc_delta_sizes c" using contents_small [OF ok] by simp
    moreover have "contents ?c = lc_delta_sizes ?c"
      using contents_small [OF ok'] True by (simp add: LastChunk_Add_def Let_def)
    ultimately show ?thesis using True by (simp add: LastChunk_Add_def Let_def chunk_consts)
  next
    case False
    then have s: "lc_all_same c" "lc_delta_sizes c ! 0 = d" using can c(6) by (auto simp: CanAdd_def chunk_consts)
    then show ?thesis
      using False by (simp add: contents_def LastChunk_AppendTo_def LastChunk_Add_def chunk_consts replicate_append_same)
  qed
qed

lemma AddMissing_contents:
  assumes "n \<le> 0x1fff"
  shows "chunk_ok (LastChunk_AddMissingPackets n LastChunk_Clear)"
    and "contents (LastChunk_AddMissingPackets n LastChunk_Clear) = replicate n 0"
proof -
  show "chunk_ok (LastChunk_AddMissingPackets n LastChunk_Clear)"
    using assms by (auto simp: chunk_ok_def LastChunk_AddMissingPackets_def LastChunk_Clear_def chunk_consts list_all_iff)
  show "contents (LastChunk_AddMissingPackets n LastChunk_Clear) = replicate n 0"
    by (cases n) (auto simp: contents_def LastChunk_AppendTo_def LastChunk_AddMissingPackets_def LastChunk_Clear_def chunk_consts)
qed

section \<open>Decoding what was encoded\<close>

lemma unat_and_1: "unat (w AND 1 :: u16) = (if bit w 0 then 1 else 0)"
  by (simp add: and_one_eq mod_2_eq_odd bit_0)

lemma drop_and_one: "unat (drop_bit k w AND 0x01 :: u16) = (if bit w k then 1 else 0)"
  using unat_and_1 [of "drop_bit k w"] by (simp add: bit_drop_bit_eq)

lemma drop_and_three:
  assumes "k < 15" and "d \<le> 3" and "bit w k \<longleftrightarrow> bit d 0" and "bit w (Suc k) \<longleftrightarrow> bit d 1"
  shows "unat (drop_bit k (w :: u16) AND 0x03) = d"
proof -
  have m: "(0x03 :: u16) = mask 2" by (simp add: mask_eq_exp_minus_1)
  have "drop_bit k w AND 0x03 = of_nat d"
  proof (rule bit_word_eqI)
    fix n
    assume "n < LENGTH(16)"
    have "bit (drop_bit k w AND 0x03) n \<longleftrightarrow> n < 2 \<and> bit w (k + n)"
      unfolding m by (auto simp: bit_simps)
    also have "\<dots> \<longleftrightarrow> n < 2 \<and> bit d n"
      using assms(3,4) by (cases "n = 0"; cases "n = 1") auto
    also have "\<dots> \<longleftrightarrow> bit (of_nat d :: u16) n"
      using low_bits(2) [of d n] assms(2) \<open>n < LENGTH(16)\<close> by (auto simp: bit_of_nat_iff)
    finally show "bit (drop_bit k w AND 0x03) n \<longleftrightarrow> bit (of_nat d :: u16) n" .
  qed
  then show ?thesis using assms(2) by (simp add: unat_of_nat)
qed

lemma Decode_RunLength:
  assumes ok: "chunk_ok c" and same: "lc_all_same c" and n: "0 < lc_size c" "lc_size c \<le> n"
  shows "LastChunk_Decode (EncodeRunLength c) n = c"
proof -
  let ?w = "EncodeRunLength c"
  define d where "d = lc_delta_sizes c ! 0"
  have c: "length (lc_delta_sizes c) = min (lc_size c) 14" "lc_size c \<le> 0x1fff"
      "\<forall>x \<in> set (lc_delta_sizes c). x = d" "\<forall>x \<in> set (lc_delta_sizes c). x \<le> 2"
      "lc_has_large_delta c \<longleftrightarrow> 2 \<in> set (lc_delta_sizes c)"
    using ok same by (simp_all add: chunk_ok_def list_all_iff d_def)
  have "0 < length (lc_delta_sizes c)" using c(1) n by simp
  then have mem: "d \<in> set (lc_delta_sizes c)" unfolding d_def by (rule nth_mem)
  then have d2: "d \<le> 2" using c(4) by blast
  then have d3: "d \<le> 3" by simp
  note b = bit_EncodeRunLength [OF c(2), folded d_def, OF d3]
  have "\<not> bit ?w 15" unfolding b using low_bits(2) [of d 2] d2 by auto
  then have "?w AND 0x8000 = 0" by (simp only: and_bit_zero simp_thms)
  then have run: "LastChunk_Decode ?w n = DecodeRunLength ?w n" by (simp only: LastChunk_Decode_def if_True refl)
  have ds: "unat (drop_bit 13 ?w AND 0x03) = d"
  proof (rule drop_and_three)
    show "bit ?w 13 \<longleftrightarrow> bit d 0" "bit ?w (Suc 13) \<longleftrightarrow> bit d 1" unfolding b by simp_all
  qed (use d3 in simp_all)
  have "?w AND 0x1fff = of_nat (lc_size c)"
  proof (rule bit_word_eqI)
    fix k
    assume "k < LENGTH(16)"
    have m: "(0x1fff :: u16) = mask 13" by (simp add: mask_eq_exp_minus_1)
    show "bit (?w AND 0x1fff) k \<longleftrightarrow> bit (of_nat (lc_size c) :: u16) k"
      unfolding m bit_and_iff b using bit_less_exp [of "lc_size c" 13 k] c(2) \<open>k < LENGTH(16)\<close>
      by (auto simp: bit_mask_iff bit_of_nat_iff)
  qed
  then have sz: "unat (?w AND 0x1fff) = lc_size c" using c(2) by (simp add: unat_of_nat)
  have "lc_delta_sizes c = replicate (min (lc_size c) 14) d"
    using replicate_length_same [OF c(3)] unfolding c(1) by (rule sym)
  moreover have "2 \<in> set (lc_delta_sizes c) \<longleftrightarrow> d = 2" using bspec [OF c(3), of 2] mem by auto
  then have "lc_has_large_delta c \<longleftrightarrow> 2 \<le> d" using d2 unfolding c(5) by linarith
  moreover have "min (lc_size c) n = lc_size c" using n by simp
  ultimately show ?thesis
    unfolding run DecodeRunLength_def Let_def sz ds kMaxVectorCapacity_def kMaxOneBitCapacity_def kLarge_def
    using same by (intro LastChunk.equality) simp_all
qed

lemma Decode_OneBit:
  assumes ok: "chunk_ok c" and ns: "\<not> lc_all_same c" "\<not> lc_has_large_delta c" and n: "min 14 n = lc_size c"
  shows "LastChunk_Decode (EncodeOneBit c) n = c"
proof -
  let ?w = "EncodeOneBit c"
  have c: "length (lc_delta_sizes c) = lc_size c" "lc_size c \<le> 14" "\<forall>x \<in> set (lc_delta_sizes c). x \<le> 2"
      "2 \<notin> set (lc_delta_sizes c)"
    using ok ns by (auto simp: chunk_ok_def list_all_iff)
  have one: "\<forall>i < lc_size c. lc_delta_sizes c ! i \<le> 1"
  proof (intro allI impI)
    fix i
    assume "i < lc_size c"
    then have "lc_delta_sizes c ! i \<in> set (lc_delta_sizes c)" using c(1) by simp
    then have "lc_delta_sizes c ! i \<le> 2" "lc_delta_sizes c ! i \<noteq> 2" using c(3,4) by (blast, metis)
    then show "lc_delta_sizes c ! i \<le> 1" by simp
  qed
  note b = bit_EncodeOneBit [OF c(2) one]
  have "\<not> ?w AND 0x8000 = 0" "?w AND 0x4000 = 0" unfolding and_bit_zero by (simp_all add: b)
  then have dec: "LastChunk_Decode ?w n = DecodeOneBit ?w n" by (simp only: LastChunk_Decode_def if_True if_False refl)
  have "map (\<lambda>i. unat (drop_bit (14 - 1 - i) ?w AND 0x01)) [0..<lc_size c] = lc_delta_sizes c"
  proof (rule nth_equalityI)
    fix i
    assume "i < length (map (\<lambda>i. unat (drop_bit (14 - 1 - i) ?w AND 0x01)) [0..<lc_size c])"
    then have i: "i < lc_size c" by simp
    then have i14: "i < 14" using c(2) by simp
    then have "13 - (13 - i) = i" by simp
    then have "bit ?w (13 - i) \<longleftrightarrow> lc_delta_sizes c ! i = 1" unfolding b using i i14 by auto
    moreover have "lc_delta_sizes c ! i \<le> 1" using one i by blast
    ultimately have "(if bit ?w (13 - i) then 1 else 0) = lc_delta_sizes c ! i" by auto
    then show "map (\<lambda>i. unat (drop_bit (14 - 1 - i) ?w AND 0x01)) [0..<lc_size c] ! i = lc_delta_sizes c ! i"
      using i by (simp add: drop_and_one del: One_nat_def)
  qed (simp add: c(1))
  then show ?thesis
    unfolding dec DecodeOneBit_def Let_def kMaxOneBitCapacity_def n
    using ns by (intro LastChunk.equality) simp_all
qed

lemma Decode_TwoBit:
  assumes ok: "chunk_ok c" and ns: "\<not> lc_all_same c" and m: "m \<le> lc_size c" "min 7 n = m"
  shows "LastChunk_Decode (EncodeTwoBit m c) n =
    \<lparr>lc_delta_sizes = take m (lc_delta_sizes c), lc_size = m, lc_all_same = False, lc_has_large_delta = True\<rparr>"
proof -
  let ?w = "EncodeTwoBit m c"
  have c: "length (lc_delta_sizes c) = lc_size c" "\<forall>x \<in> set (lc_delta_sizes c). x \<le> 2"
    using ok ns by (auto simp: chunk_ok_def list_all_iff)
  have m7: "m \<le> 7" using m(2) by linarith
  have le: "lc_delta_sizes c ! i \<le> 3" if "i < m" for i
  proof -
    have "lc_delta_sizes c ! i \<in> set (lc_delta_sizes c)" using that m(1) c(1) by simp
    then have "lc_delta_sizes c ! i \<le> 2" using c(2) by blast
    then show ?thesis by simp
  qed
  then have le': "\<forall>i < m. lc_delta_sizes c ! i \<le> 3" by blast
  note b = bit_EncodeTwoBit [OF m7 le']
  have "\<not> ?w AND 0x8000 = 0" "\<not> ?w AND 0x4000 = 0" unfolding and_bit_zero by (simp_all add: b)
  then have dec: "LastChunk_Decode ?w n = DecodeTwoBit ?w n" by (simp only: LastChunk_Decode_def if_False)
  have "map (\<lambda>i. unat (drop_bit (2 * (7 - 1 - i)) ?w AND 0x03)) [0..<m] = take m (lc_delta_sizes c)"
  proof (rule nth_equalityI)
    fix i
    assume "i < length (map (\<lambda>i. unat (drop_bit (2 * (7 - 1 - i)) ?w AND 0x03)) [0..<m])"
    then have i: "i < m" by simp
    then have i7: "i \<le> 6" using m7 by simp
    have e: "2 * (6 - i) div 2 = 6 - i" "2 * (6 - i) mod 2 = 0" "Suc (2 * (6 - i)) div 2 = 6 - i"
      "Suc (2 * (6 - i)) mod 2 = 1" "6 - (6 - i) = i"
      using i7 by simp_all
    have lt: "2 * (6 - i) < 14" "Suc (2 * (6 - i)) < 14" by simp_all
    have "unat (drop_bit (2 * (6 - i)) ?w AND 0x03) = lc_delta_sizes c ! i"
    proof (rule drop_and_three)
      show "bit ?w (2 * (6 - i)) \<longleftrightarrow> bit (lc_delta_sizes c ! i) 0" unfolding b e using i lt by auto
      show "bit ?w (Suc (2 * (6 - i))) \<longleftrightarrow> bit (lc_delta_sizes c ! i) 1" unfolding b e using i lt by auto
    qed (use le [OF i] lt in auto)
    then show "map (\<lambda>i. unat (drop_bit (2 * (7 - 1 - i)) ?w AND 0x03)) [0..<m] ! i = take m (lc_delta_sizes c) ! i"
      using i by simp
  qed (use m c in simp)
  then show ?thesis
    unfolding dec DecodeTwoBit_def Let_def kMaxTwoBitCapacity_def m(2) by simp
qed

lemma contents_decoded_two:
  "contents \<lparr>lc_delta_sizes = ds, lc_size = length ds, lc_all_same = False, lc_has_large_delta = l\<rparr> = ds"
  by (simp add: contents_def LastChunk_AppendTo_def)

text \<open>
  What the last chunk of a parsed packet is: the chunk itself, except that a two-bit chunk is taken to
  contain a large delta.
\<close>

definition chunk_canon :: "LastChunk \<Rightarrow> LastChunk" where
  "chunk_canon c =
     (if \<not> lc_all_same c \<and> lc_size c \<le> kMaxTwoBitCapacity then c\<lparr>lc_has_large_delta := True\<rparr> else c)"

lemma contents_canon [simp]: "contents (chunk_canon c) = contents c"
  by (simp add: contents_def LastChunk_AppendTo_def chunk_canon_def)

lemma Decode_EncodeLast:
  assumes ok: "chunk_ok c" and n: "0 < lc_size c"
  shows "LastChunk_Decode (EncodeLast c) (lc_size c) = chunk_canon c"
proof (cases "lc_all_same c")
  case True
  then show ?thesis using Decode_RunLength [OF ok True n] by (simp add: EncodeLast_def chunk_canon_def)
next
  case False
  then have c: "lc_size c \<le> 14" "lc_has_large_delta c \<Longrightarrow> lc_size c \<le> 7" "length (lc_delta_sizes c) = lc_size c"
    using ok by (auto simp: chunk_ok_def)
  show ?thesis
  proof (cases "lc_size c \<le> 7")
    case True
    then show ?thesis
      using False Decode_TwoBit [OF ok False, of "lc_size c" "lc_size c"] c(3)
      by (simp add: EncodeLast_def chunk_canon_def chunk_consts)
  next
    case l: False
    then have "\<not> lc_has_large_delta c" using c(2) by blast
    from Decode_OneBit [OF ok False this, of "lc_size c"] show ?thesis
      using False l c(1) by (simp add: EncodeLast_def chunk_canon_def chunk_consts)
  qed
qed

text \<open>A chunk word that stands for the statuses \<open>xs\<close>, in any packet that has at least that many left.\<close>

definition encodes :: "u16 \<Rightarrow> nat list \<Rightarrow> bool" where
  "encodes w xs \<longleftrightarrow> xs \<noteq> [] \<and> (\<forall>n \<ge> length xs. contents (LastChunk_Decode w n) = xs)"

lemma Emit_spec:
  assumes ok: "chunk_ok c" and can: "\<not> CanAdd d c"
  obtains w c' xs where "LastChunk_Emit c = (w, c')" "chunk_ok c'" "encodes w xs" "contents c = xs @ contents c'"
    "lc_size c' < 7" "d \<noteq> 2 \<Longrightarrow> c' = LastChunk_Clear"
proof -
  have big: "7 \<le> lc_size c" "lc_has_large_delta c \<or> d = 2 \<or> 14 \<le> lc_size c"
    using can by (auto simp: CanAdd_def chunk_consts)
  show thesis
  proof (cases "lc_all_same c")
    case True
    have "encodes (EncodeRunLength c) (contents c)"
      unfolding encodes_def using contents_length [OF ok] Decode_RunLength [OF ok True] big(1) by auto
    then show ?thesis
      using True that [of "EncodeRunLength c" LastChunk_Clear "contents c"] chunk_ok_Clear
      by (simp add: LastChunk_Emit_def LastChunk_Clear_def)
  next
    case False
    then have c: "lc_size c \<le> 14" "lc_has_large_delta c \<Longrightarrow> lc_size c \<le> 7" "length (lc_delta_sizes c) = lc_size c"
        "\<forall>x \<in> set (lc_delta_sizes c). x \<le> 2" "lc_has_large_delta c \<longleftrightarrow> 2 \<in> set (lc_delta_sizes c)"
      using ok by (auto simp: chunk_ok_def list_all_iff)
    have cont: "contents c = lc_delta_sizes c" by (rule contents_not_same [OF ok False])
    show ?thesis
    proof (cases "lc_size c = 14")
      case True
      then have "\<not> lc_has_large_delta c" using c(2) by auto
      then have "encodes (EncodeOneBit c) (contents c)"
        unfolding encodes_def using contents_length [OF ok] Decode_OneBit [OF ok False] True by auto
      then show ?thesis
        using True False that [of "EncodeOneBit c" LastChunk_Clear "contents c"] chunk_ok_Clear
        by (simp add: LastChunk_Emit_def LastChunk_Clear_def chunk_consts)
    next
      case ne: False
      let ?rest = "drop 7 (lc_delta_sizes c)"
      define c' where "c' = \<lparr>lc_delta_sizes = ?rest, lc_size = lc_size c - 7,
        lc_all_same = list_all (\<lambda>d. d = ?rest ! 0) ?rest, lc_has_large_delta = list_ex (\<lambda>d. d = 2) ?rest\<rparr>"
      have emit: "LastChunk_Emit c = (EncodeTwoBit 7 c, c')"
        using False ne by (simp add: LastChunk_Emit_def chunk_consts Let_def c'_def)
      have ok': "chunk_ok c'"
        unfolding chunk_ok_def c'_def using c(1,3,4) ne by (auto simp: list_all_iff list_ex_iff dest: in_set_dropD)
      have cont': "contents c' = ?rest" using contents_small [OF ok'] ne c(1) by (simp add: c'_def)
      have "encodes (EncodeTwoBit 7 c) (take 7 (lc_delta_sizes c))"
      proof -
        have l: "length (take 7 (lc_delta_sizes c)) = 7" using c(3) big(1) by simp
        have "contents (LastChunk_Decode (EncodeTwoBit 7 c) n) = take 7 (lc_delta_sizes c)" if "7 \<le> n" for n
          using Decode_TwoBit [OF ok False big(1), of n] that contents_decoded_two [of "take 7 (lc_delta_sizes c)" True]
          unfolding l by simp
        then show ?thesis unfolding encodes_def l using l by auto
      qed
      moreover have "d \<noteq> 2 \<Longrightarrow> c' = LastChunk_Clear"
      proof -
        assume "d \<noteq> 2"
        then have "lc_size c = 7" using big c(1,2) ne by auto
        then show ?thesis using c(3) by (simp add: c'_def LastChunk_Clear_def)
      qed
      ultimately show ?thesis
        using that [OF emit ok'] cont cont' ne c(1) by (simp add: c'_def)
    qed
  qed
qed

lemma CanAdd_small: "lc_size c < 7 \<Longrightarrow> CanAdd d c"
  by (simp add: CanAdd_def chunk_consts)

end
