(* ===== verification/Transport_Feedback.thy ===== *)
theory Transport_Feedback
  imports Tf_Chunk Rtcp_Feedback Seq_Num Units
begin

text \<open>
  \<open>modules/rtp_rtcp/source/rtcp_packet/transport_feedback.cc\<close>: the transport-wide congestion control
  feedback packet. The state of the class is a record with its members; \<open>all_packets_\<close>, which no
  operation reads, is left out. Statuses are the delta sizes of \<open>Tf_Chunk\<close>; deltas are \<open>int16_t\<close>
  values, kept as integers with the conversion written out.

  The invariant \<open>tf_ok\<close> says that the chunks stand for one status per sequence number, that the
  received packets are exactly those with a non-zero status, that the running timestamp is the base time
  plus all deltas, and that the size counts the bytes that will be written. Every operation keeps it, and
  the class's own check \<open>IsConsistent\<close> follows from it.
\<close>

unbundle bit_operations_syntax

section \<open>State\<close>

record TfReceivedPacket =
  rcv_sequence_number :: u16
  rcv_delta_ticks :: int

record TransportFeedback = Feedback +
  tf_base_seq_no :: u16
  tf_num_seq_no :: u16
  tf_base_time_ticks :: u32
  tf_feedback_seq :: u8
  tf_include_timestamps :: bool
  tf_last_timestamp :: Timestamp
  tf_received_packets :: "TfReceivedPacket list"
  tf_encoded_chunks :: "u16 list"
  tf_last_chunk :: LastChunk
  tf_size_bytes :: nat

definition Tf_kFeedbackMessageType :: nat where
  "Tf_kFeedbackMessageType = 15"

definition kDeltaTick :: TimeDelta where
  "kDeltaTick = TimeDelta_Micros 250"

definition kMaxReportedPackets :: nat where
  "kMaxReportedPackets = 0xffff"

definition kTransportFeedbackHeaderSizeBytes :: nat where
  "kTransportFeedbackHeaderSizeBytes = 4 + 8 + 8"

definition kChunkSizeBytes :: nat where
  "kChunkSizeBytes = 2"

definition kMaxSizeBytes :: nat where
  "kMaxSizeBytes = 2 ^ 16 * 4"

definition kMinPayloadSizeBytes :: nat where
  "kMinPayloadSizeBytes = 8 + 8 + 2"

definition kBaseTimeTick :: TimeDelta where
  "kBaseTimeTick = unit_times kDeltaTick (2 ^ 8)"

definition kTimeWrapPeriod :: TimeDelta where
  "kTimeWrapPeriod = unit_times kBaseTimeTick (2 ^ 24)"

lemmas tf_consts = Tf_kFeedbackMessageType_def kDeltaTick_def kMaxReportedPackets_def kTransportFeedbackHeaderSizeBytes_def
  kChunkSizeBytes_def kMaxSizeBytes_def kMinPayloadSizeBytes_def kBaseTimeTick_def kTimeWrapPeriod_def
  TimeDelta_Micros_def unit_times_def

section \<open>Operations\<close>

definition TransportFeedback_init :: "bool \<Rightarrow> TransportFeedback" where
  "TransportFeedback_init include_timestamps =
     \<lparr>sender_ssrc = 0, media_ssrc = 0, tf_base_seq_no = 0, tf_num_seq_no = 0, tf_base_time_ticks = 0,
      tf_feedback_seq = 0, tf_include_timestamps = include_timestamps, tf_last_timestamp = 0,
      tf_received_packets = [], tf_encoded_chunks = [], tf_last_chunk = LastChunk_Clear,
      tf_size_bytes = kTransportFeedbackHeaderSizeBytes\<rparr>"

definition BaseTime :: "TransportFeedback \<Rightarrow> Timestamp" where
  "BaseTime p = Timestamp_plus (Timestamp_plus 0 kTimeWrapPeriod) (unit_times kBaseTimeTick (uint (tf_base_time_ticks p)))"

definition GetBaseDelta :: "Timestamp \<Rightarrow> TransportFeedback \<Rightarrow> TimeDelta" where
  "GetBaseDelta prev_timestamp p =
     (let delta = Timestamp_minus (BaseTime p) prev_timestamp
      in if TimeDelta_Abs (unit_minus delta kTimeWrapPeriod) < TimeDelta_Abs delta then unit_minus delta kTimeWrapPeriod
         else if TimeDelta_Abs (unit_plus delta kTimeWrapPeriod) < TimeDelta_Abs delta then unit_plus delta kTimeWrapPeriod
         else delta)"

definition SetBase :: "u16 \<Rightarrow> Timestamp \<Rightarrow> TransportFeedback \<Rightarrow> TransportFeedback" where
  "SetBase base_sequence ref_timestamp p =
     (let p' = p\<lparr>tf_base_seq_no := base_sequence,
                 tf_base_time_ticks := word_of_int ((ref_timestamp smod kTimeWrapPeriod) sdiv kBaseTimeTick)\<rparr>
      in p'\<lparr>tf_last_timestamp := BaseTime p'\<rparr>)"

definition SetFeedbackSequenceNumber :: "u8 \<Rightarrow> TransportFeedback \<Rightarrow> TransportFeedback" where
  "SetFeedbackSequenceNumber feedback_sequence p = p\<lparr>tf_feedback_seq := feedback_sequence\<rparr>"

definition AddDeltaSize :: "nat \<Rightarrow> TransportFeedback \<Rightarrow> bool \<times> TransportFeedback" where
  "AddDeltaSize delta_size p =
     (if unat (tf_num_seq_no p) = kMaxReportedPackets then (False, p)
      else
        let add_chunk_size = (if LastChunk_Empty (tf_last_chunk p) then kChunkSizeBytes else 0)
        in if tf_size_bytes p + delta_size + add_chunk_size > kMaxSizeBytes then (False, p)
           else if CanAdd delta_size (tf_last_chunk p) then
             (True, p\<lparr>tf_size_bytes := tf_size_bytes p + add_chunk_size,
                      tf_last_chunk := LastChunk_Add delta_size (tf_last_chunk p),
                      tf_num_seq_no := tf_num_seq_no p + 1\<rparr>)
           else if tf_size_bytes p + delta_size + kChunkSizeBytes > kMaxSizeBytes then (False, p)
           else
             let (chunk, c) = LastChunk_Emit (tf_last_chunk p)
             in (True, p\<lparr>tf_encoded_chunks := tf_encoded_chunks p @ [chunk],
                         tf_size_bytes := tf_size_bytes p + kChunkSizeBytes,
                         tf_last_chunk := LastChunk_Add delta_size c,
                         tf_num_seq_no := tf_num_seq_no p + 1\<rparr>))"

text \<open>The loop that fills up a started chunk.\<close>

fun fill_missing :: "nat \<Rightarrow> LastChunk \<Rightarrow> nat \<times> LastChunk" where
  "fill_missing 0 c = (0, c)"
| "fill_missing (Suc num_missing) c =
     (if CanAdd 0 c then fill_missing num_missing (LastChunk_Add 0 c) else (Suc num_missing, c))"

text \<open>The part of \<open>AddMissingPackets\<close> that starts from an empty last chunk.\<close>

definition add_missing_chunks :: "nat \<Rightarrow> nat \<Rightarrow> TransportFeedback \<Rightarrow> bool \<times> TransportFeedback" where
  "add_missing_chunks num_missing new_num_seq_no p =
     (let full_chunks = num_missing div kMaxRunLengthCapacity;
          partial_chunk = num_missing mod kMaxRunLengthCapacity;
          num_chunks = full_chunks + (if partial_chunk > 0 then 1 else 0)
      in if tf_size_bytes p + kChunkSizeBytes * num_chunks > kMaxSizeBytes
         then (False, p\<lparr>tf_num_seq_no := of_nat (new_num_seq_no - num_missing)\<rparr>)
         else (True, p\<lparr>tf_size_bytes := tf_size_bytes p + kChunkSizeBytes * num_chunks,
                       tf_encoded_chunks := tf_encoded_chunks p @ replicate full_chunks (of_nat kMaxRunLengthCapacity),
                       tf_last_chunk := LastChunk_AddMissingPackets partial_chunk (tf_last_chunk p),
                       tf_num_seq_no := of_nat new_num_seq_no\<rparr>))"

definition AddMissingPackets :: "nat \<Rightarrow> TransportFeedback \<Rightarrow> bool \<times> TransportFeedback" where
  "AddMissingPackets num_missing p =
     (let new_num_seq_no = unat (tf_num_seq_no p) + num_missing
      in if new_num_seq_no > kMaxReportedPackets then (False, p)
         else if LastChunk_Empty (tf_last_chunk p) then add_missing_chunks num_missing new_num_seq_no p
         else
           let (num_left, c) = fill_missing num_missing (tf_last_chunk p)
           in if num_left = 0 then (True, p\<lparr>tf_last_chunk := c, tf_num_seq_no := of_nat new_num_seq_no\<rparr>)
              else
                let (chunk, c') = LastChunk_Emit c
                in add_missing_chunks num_left new_num_seq_no
                     (p\<lparr>tf_encoded_chunks := tf_encoded_chunks p @ [chunk], tf_last_chunk := c'\<rparr>))"

text \<open>The delta of \<open>AddReceivedPacket\<close> in ticks; \<open>None\<close> when it does not fit \<open>int16_t\<close>.\<close>

definition delta_ticks_of :: "Timestamp \<Rightarrow> TransportFeedback \<Rightarrow> int option" where
  "delta_ticks_of timestamp p =
     (if tf_include_timestamps p then
        let timestamp' = (if tf_last_timestamp p > timestamp
              then Timestamp_plus timestamp (RoundUpTo (Timestamp_minus (tf_last_timestamp p) timestamp) kTimeWrapPeriod)
              else timestamp);
            delta_full = Timestamp_minus timestamp' (tf_last_timestamp p) smod kTimeWrapPeriod;
            delta_full' = (if delta_full > kTimeWrapPeriod sdiv 2
              then delta_full - kTimeWrapPeriod - kDeltaTick sdiv 2
              else delta_full + kDeltaTick sdiv 2) sdiv kDeltaTick;
            delta = sint (word_of_int delta_full' :: u16)
        in if delta \<noteq> delta_full' then None else Some delta
      else Some 0)"

definition delta_size_of :: "int \<Rightarrow> nat" where
  "delta_size_of delta = (if delta \<ge> 0 \<and> delta \<le> 0xff then 1 else 2)"

definition AddReceivedPacket :: "u16 \<Rightarrow> Timestamp \<Rightarrow> TransportFeedback \<Rightarrow> bool \<times> TransportFeedback" where
  "AddReceivedPacket sequence_number timestamp p =
     (case delta_ticks_of timestamp p of
        None \<Rightarrow> (False, p)
      | Some delta \<Rightarrow>
          let next_seq_no = tf_base_seq_no p + tf_num_seq_no p;
              (ok, p') =
                (if sequence_number \<noteq> next_seq_no then
                   if \<not> IsNewerSequenceNumber sequence_number (next_seq_no - 1) then (False, p)
                   else AddMissingPackets (unat (sequence_number - next_seq_no)) p
                 else (True, p))
          in if \<not> ok then (False, p')
             else
               let delta_size = delta_size_of delta;
                   (ok, p'') = AddDeltaSize delta_size p'
               in if \<not> ok then (False, p'')
                  else (True, p''\<lparr>tf_received_packets := tf_received_packets p'' @
                          [\<lparr>rcv_sequence_number = sequence_number, rcv_delta_ticks = delta\<rparr>],
                        tf_last_timestamp := Timestamp_plus (tf_last_timestamp p'') (unit_times kDeltaTick delta),
                        tf_size_bytes := tf_size_bytes p'' + (if tf_include_timestamps p'' then delta_size else 0)\<rparr>))"

text \<open>
  \<open>ForAllPackets\<close>: the sequence of calls of the handler. The loop runs while \<open>seq_num\<close> differs from
  \<open>base_seq_no_ + num_seq_no_\<close>, which is \<open>num_seq_no_\<close> times.
\<close>

fun for_all_packets :: "nat \<Rightarrow> u16 \<Rightarrow> TimeDelta \<Rightarrow> TfReceivedPacket list \<Rightarrow> (u16 \<times> TimeDelta) list" where
  "for_all_packets 0 seq_num delta_since_base it = []"
| "for_all_packets (Suc n) seq_num delta_since_base it =
     (case it of
        r # it' \<Rightarrow>
          if rcv_sequence_number r = seq_num then
            let d = unit_plus delta_since_base (unit_times kDeltaTick (rcv_delta_ticks r))
            in (seq_num, d) # for_all_packets n (seq_num + 1) d it'
          else (seq_num, PlusInfinity) # for_all_packets n (seq_num + 1) delta_since_base it
      | [] \<Rightarrow> (seq_num, PlusInfinity) # for_all_packets n (seq_num + 1) delta_since_base it)"

definition ForAllPackets :: "TransportFeedback \<Rightarrow> (u16 \<times> TimeDelta) list" where
  "ForAllPackets p = for_all_packets (unat (tf_num_seq_no p)) (tf_base_seq_no p) 0 (tf_received_packets p)"

section \<open>Parsing and writing\<close>

function tf_parse_chunks ::
    "bytes \<Rightarrow> nat \<Rightarrow> nat \<Rightarrow> u16 list \<Rightarrow> LastChunk \<Rightarrow> nat list \<Rightarrow> (nat \<times> u16 list \<times> LastChunk \<times> nat list) outcome option" where
  "tf_parse_chunks payload status_count index chunks c delta_sizes =
     (if length delta_sizes < status_count then
        if index + kChunkSizeBytes > length payload then Some Rejected
        else do {
          chunk \<leftarrow> rd16 payload index;
          let c' = LastChunk_Decode chunk (status_count - length delta_sizes);
          tf_parse_chunks payload status_count (index + kChunkSizeBytes) (chunks @ [chunk]) c'
            (LastChunk_AppendTo c' delta_sizes)
        }
      else Some (Accepted (index, chunks, c, delta_sizes)))"
  by pat_completeness auto
termination
  by (relation "measure (\<lambda>(payload, n, index, r). length payload + 1 - index)") (auto simp: kChunkSizeBytes_def)

declare tf_parse_chunks.simps [simp del]

fun tf_parse_deltas ::
    "bytes \<Rightarrow> nat \<Rightarrow> u16 \<Rightarrow> nat list \<Rightarrow> (nat \<times> TfReceivedPacket list) outcome option" where
  "tf_parse_deltas payload index seq_no [] = Some (Accepted (index, []))"
| "tf_parse_deltas payload index seq_no (delta_size # delta_sizes) =
     (if delta_size = 0 then tf_parse_deltas payload index (seq_no + 1) delta_sizes
      else if delta_size = 1 \<or> delta_size = 2 then do {
        delta \<leftarrow> (if delta_size = 1 then map_option uint (rd8 payload index) else rd_s16 payload index);
        r \<leftarrow> tf_parse_deltas payload (index + delta_size) (seq_no + 1) delta_sizes;
        case r of
          Rejected \<Rightarrow> Some Rejected
        | Accepted (index, ps) \<Rightarrow>
            Some (Accepted (index, \<lparr>rcv_sequence_number = seq_no, rcv_delta_ticks = delta\<rparr> # ps))
      }
      else Some Rejected)"

text \<open>Without deltas, every packet with a non-zero status is received with a delta of zero.\<close>

fun tf_no_deltas :: "u16 \<Rightarrow> nat list \<Rightarrow> TfReceivedPacket list" where
  "tf_no_deltas seq_no [] = []"
| "tf_no_deltas seq_no (delta_size # delta_sizes) =
     (if delta_size > 0 then [\<lparr>rcv_sequence_number = seq_no, rcv_delta_ticks = 0\<rparr>] else []) @
     tf_no_deltas (seq_no + 1) delta_sizes"

definition TransportFeedback_Clear :: "TransportFeedback \<Rightarrow> TransportFeedback" where
  "TransportFeedback_Clear p =
     p\<lparr>tf_num_seq_no := 0, tf_last_timestamp := BaseTime p, tf_received_packets := [], tf_encoded_chunks := [],
       tf_last_chunk := LastChunk_Clear, tf_size_bytes := kTransportFeedbackHeaderSizeBytes\<rparr>"

definition TransportFeedback_Parse :: "CommonHeader \<Rightarrow> TransportFeedback outcome option" where
  "TransportFeedback_Parse packet =
     (let payload = ch_payload packet
      in if payload_size packet < kMinPayloadSizeBytes then Some Rejected
         else do {
           fb \<leftarrow> Rtpfb_ParseCommonFeedback payload;
           base \<leftarrow> rd16 payload 8;
           status_count \<leftarrow> rd16 payload 10;
           ticks \<leftarrow> rd24 payload 12;
           seq \<leftarrow> rd8 payload 15;
           let p = TransportFeedback_Clear ((TransportFeedback_init True)\<lparr>sender_ssrc := sender_ssrc fb,
             media_ssrc := media_ssrc fb, tf_base_seq_no := base, tf_base_time_ticks := ticks, tf_feedback_seq := seq\<rparr>);
           if status_count = 0 then Some Rejected
           else do {
             r \<leftarrow> tf_parse_chunks payload (unat status_count) 16 [] LastChunk_Clear [];
             case r of
               Rejected \<Rightarrow> Some Rejected
             | Accepted (index, chunks, c, delta_sizes) \<Rightarrow>
                 let p' = p\<lparr>tf_encoded_chunks := butlast chunks, tf_last_chunk := c, tf_num_seq_no := status_count\<rparr>
                 in if payload_size packet \<ge> index + sum_list delta_sizes then do {
                      d \<leftarrow> tf_parse_deltas payload index base delta_sizes;
                      case d of
                        Rejected \<Rightarrow> Some Rejected
                      | Accepted (index, ps) \<Rightarrow>
                          Some (Accepted (p'\<lparr>tf_received_packets := ps,
                            tf_last_timestamp := fold (\<lambda>r t. Timestamp_plus t (unit_times kDeltaTick (rcv_delta_ticks r))) ps
                              (tf_last_timestamp p'),
                            tf_size_bytes := kHeaderSizeBytes + index\<rparr>))
                    }
                    else
                      Some (Accepted (p'\<lparr>tf_include_timestamps := False,
                        tf_received_packets := tf_no_deltas base delta_sizes,
                        tf_size_bytes := kHeaderSizeBytes + index\<rparr>))
           }
         })"

definition TransportFeedback_BlockLength :: "TransportFeedback \<Rightarrow> nat" where
  "TransportFeedback_BlockLength p = (tf_size_bytes p + 3) div 4 * 4"

definition PaddingLength :: "TransportFeedback \<Rightarrow> nat" where
  "PaddingLength p = TransportFeedback_BlockLength p - tf_size_bytes p"

definition delta_bytes :: "TfReceivedPacket \<Rightarrow> bytes" where
  "delta_bytes r =
     (let delta = rcv_delta_ticks r
      in if delta \<ge> 0 \<and> delta \<le> 0xFF then [word_of_int delta] else WriteBigEndian_signed 2 TYPE(16) delta)"

definition TransportFeedback_payload :: "TransportFeedback \<Rightarrow> bytes" where
  "TransportFeedback_payload p =
     Rtpfb_CreateCommonFeedback p @
     WriteBigEndian2 (tf_base_seq_no p) @
     WriteBigEndian2 (tf_num_seq_no p) @
     WriteBigEndian 3 (tf_base_time_ticks p) @
     [tf_feedback_seq p] @
     concat (map WriteBigEndian2 (tf_encoded_chunks p)) @
     (if LastChunk_Empty (tf_last_chunk p) then [] else WriteBigEndian2 (EncodeLast (tf_last_chunk p))) @
     (if tf_include_timestamps p then concat (map delta_bytes (tf_received_packets p)) else [])"

definition TransportFeedback_body :: "TransportFeedback \<Rightarrow> bytes" where
  "TransportFeedback_body p =
     (let padding_length = PaddingLength p
      in CreateHeader_padded Tf_kFeedbackMessageType Rtpfb_kPacketType (HeaderLength (TransportFeedback_BlockLength p))
           (padding_length > 0) @
         TransportFeedback_payload p @
         (if padding_length > 0 then replicate (padding_length - 1) 0 @ [of_nat padding_length] else []))"

definition TransportFeedback_Create :: "TransportFeedback \<Rightarrow> nat \<Rightarrow> wbuf \<Rightarrow> bool \<times> wbuf" where
  "TransportFeedback_Create p max_length w =
     (if tf_num_seq_no p = 0 then (False, w)
      else create_block (TransportFeedback_BlockLength p) (TransportFeedback_body p) max_length w)"

definition TransportFeedback_ParseFrom :: "bytes \<Rightarrow> TransportFeedback outcome option" where
  "TransportFeedback_ParseFrom buffer = do {
     r \<leftarrow> CommonHeader_Parse buffer;
     case r of
       Rejected \<Rightarrow> Some Rejected
     | Accepted header \<Rightarrow>
         if ch_packet_type header \<noteq> Rtpfb_kPacketType \<or> unat (ch_count_or_format header) \<noteq> Tf_kFeedbackMessageType
         then Some Rejected
         else TransportFeedback_Parse header
   }"

text \<open>\<open>IsConsistent\<close>; the loop over the statuses carries the remaining packets, the timestamp and the size.\<close>

fun consistent_loop :: "bool \<Rightarrow> u16 \<Rightarrow> nat list \<Rightarrow> TfReceivedPacket list \<Rightarrow> Timestamp \<Rightarrow> nat \<Rightarrow>
    (TfReceivedPacket list \<times> Timestamp \<times> nat) option" where
  "consistent_loop ts seq_no [] it timestamp pkt_size = Some (it, timestamp, pkt_size)"
| "consistent_loop ts seq_no (delta_size # delta_sizes) it timestamp pkt_size =
     (let pkt_size' = pkt_size + (if ts then delta_size else 0)
      in if delta_size > 0 then
           case it of
             [] \<Rightarrow> None
           | r # it' \<Rightarrow>
               if rcv_sequence_number r \<noteq> seq_no then None
               else if delta_size = 1 \<and> (rcv_delta_ticks r < 0 \<or> rcv_delta_ticks r > 0xff) then None
               else consistent_loop ts (seq_no + 1) delta_sizes it'
                      (Timestamp_plus timestamp (unit_times kDeltaTick (rcv_delta_ticks r))) pkt_size'
         else consistent_loop ts (seq_no + 1) delta_sizes it timestamp pkt_size')"

definition IsConsistent :: "TransportFeedback \<Rightarrow> bool" where
  "IsConsistent p =
     (let chunks = tf_encoded_chunks p;
          delta_sizes = fold (\<lambda>chunk ds. LastChunk_AppendTo (LastChunk_Decode chunk kMaxReportedPackets) ds) chunks [];
          pkt_size = kTransportFeedbackHeaderSizeBytes + kChunkSizeBytes * length chunks;
          (delta_sizes, pkt_size) =
            (if \<not> LastChunk_Empty (tf_last_chunk p)
             then (LastChunk_AppendTo (tf_last_chunk p) delta_sizes, pkt_size + kChunkSizeBytes)
             else (delta_sizes, pkt_size))
      in if unat (tf_num_seq_no p) \<noteq> length delta_sizes then False
         else case consistent_loop (tf_include_timestamps p) (tf_base_seq_no p) delta_sizes (tf_received_packets p)
                (BaseTime p) pkt_size of
             None \<Rightarrow> False
           | Some (it, timestamp, pkt_size) \<Rightarrow>
               it = [] \<and> timestamp = tf_last_timestamp p \<and> tf_size_bytes p = pkt_size)"

section \<open>The invariant\<close>

definition chunk_list :: "u16 \<Rightarrow> nat list" where
  "chunk_list w = contents (LastChunk_Decode w kMaxReportedPackets)"

definition tf_statuses :: "TransportFeedback \<Rightarrow> nat list" where
  "tf_statuses p = concat (map chunk_list (tf_encoded_chunks p)) @ contents (tf_last_chunk p)"

definition tf_chunk_bytes :: "TransportFeedback \<Rightarrow> nat" where
  "tf_chunk_bytes p = 2 * length (tf_encoded_chunks p) + (if LastChunk_Empty (tf_last_chunk p) then 0 else 2)"

definition chunks_ok :: "TransportFeedback \<Rightarrow> bool" where
  "chunks_ok p \<longleftrightarrow>
     chunk_ok (tf_last_chunk p) \<and> (LastChunk_Empty (tf_last_chunk p) \<longrightarrow> tf_last_chunk p = LastChunk_Clear) \<and>
     (\<forall>w \<in> set (tf_encoded_chunks p). encodes w (chunk_list w)) \<and>
     length (tf_statuses p) = unat (tf_num_seq_no p)"

text \<open>The packets listed are those with a non-zero status, in order, with deltas of that size.\<close>

fun matches :: "u16 \<Rightarrow> nat list \<Rightarrow> TfReceivedPacket list \<Rightarrow> bool" where
  "matches s [] rs \<longleftrightarrow> rs = []"
| "matches s (d # ds) rs \<longleftrightarrow>
     (if d = 0 then matches (s + 1) ds rs
      else case rs of
          [] \<Rightarrow> False
        | r # rs' \<Rightarrow>
            rcv_sequence_number r = s \<and> - 32768 \<le> rcv_delta_ticks r \<and> rcv_delta_ticks r \<le> 32767 \<and>
            d = delta_size_of (rcv_delta_ticks r) \<and> matches (s + 1) ds rs')"

definition advance :: "TfReceivedPacket \<Rightarrow> Timestamp \<Rightarrow> Timestamp" where
  "advance r t = Timestamp_plus t (unit_times kDeltaTick (rcv_delta_ticks r))"

definition tf_ok :: "TransportFeedback \<Rightarrow> bool" where
  "tf_ok p \<longleftrightarrow>
     chunks_ok p \<and> matches (tf_base_seq_no p) (tf_statuses p) (tf_received_packets p) \<and>
     (\<not> tf_include_timestamps p \<longrightarrow> (\<forall>r \<in> set (tf_received_packets p). rcv_delta_ticks r = 0)) \<and>
     tf_last_timestamp p = fold advance (tf_received_packets p) (BaseTime p) \<and>
     tf_size_bytes p = kTransportFeedbackHeaderSizeBytes + tf_chunk_bytes p +
       (if tf_include_timestamps p then sum_list (tf_statuses p) else 0) \<and>
     tf_size_bytes p \<le> kMaxSizeBytes"

definition tf_frame :: "TransportFeedback \<Rightarrow> TransportFeedback" where
  "tf_frame p = p\<lparr>tf_num_seq_no := 0, tf_encoded_chunks := [], tf_last_chunk := LastChunk_Clear, tf_size_bytes := 0\<rparr>"

lemma tf_frame_eq:
  "tf_frame p = tf_frame q \<longleftrightarrow>
     sender_ssrc p = sender_ssrc q \<and> media_ssrc p = media_ssrc q \<and> tf_base_seq_no p = tf_base_seq_no q \<and>
     tf_base_time_ticks p = tf_base_time_ticks q \<and> tf_feedback_seq p = tf_feedback_seq q \<and>
     tf_include_timestamps p = tf_include_timestamps q \<and> tf_last_timestamp p = tf_last_timestamp q \<and>
     tf_received_packets p = tf_received_packets q"
  unfolding tf_frame_def by (cases p; cases q) simp

section \<open>Adding statuses\<close>

lemma Empty_contents: "chunk_ok c \<Longrightarrow> LastChunk_Empty c \<longleftrightarrow> contents c = []"
  by (metis LastChunk_Empty_def contents_length length_0_conv)

lemma chunk_size_bound: "chunk_ok c \<Longrightarrow> lc_size c \<le> 0x1fff"
  by (auto simp: chunk_ok_def split: if_splits)

lemma chunk_list_encodes: "encodes w xs \<Longrightarrow> length xs \<le> 0x1fff \<Longrightarrow> chunk_list w = xs \<and> encodes w (chunk_list w)"
  by (auto simp: encodes_def chunk_list_def kMaxReportedPackets_def)

lemma not_CanAdd_not_Empty: "\<not> CanAdd d c \<Longrightarrow> \<not> LastChunk_Empty c"
  by (auto simp: CanAdd_def LastChunk_Empty_def chunk_consts)

lemma Add_not_Empty [simp]: "\<not> LastChunk_Empty (LastChunk_Add d c)"
  by (simp add: LastChunk_Add_def LastChunk_Empty_def Let_def)

lemma Emit_chunk:
  assumes ok: "chunk_ok c" and can: "\<not> CanAdd d c" and e: "LastChunk_Emit c = (w, c')"
  shows "chunk_ok c'" and "encodes w (chunk_list w)" and "contents c = chunk_list w @ contents c'"
    and "CanAdd d' c'" and "d \<noteq> 2 \<Longrightarrow> c' = LastChunk_Clear"
proof -
  obtain xs where xs: "chunk_ok c'" "encodes w xs" "contents c = xs @ contents c'" "lc_size c' < 7"
      "d \<noteq> 2 \<Longrightarrow> c' = LastChunk_Clear"
    using Emit_spec [OF ok can] e by (metis prod.inject)
  have "length xs \<le> 0x1fff"
    using arg_cong [OF xs(3), of length] contents_length [OF ok] chunk_size_bound [OF ok] by simp
  note w = chunk_list_encodes [OF xs(2) this]
  show "chunk_ok c'" "encodes w (chunk_list w)" "contents c = chunk_list w @ contents c'"
    "CanAdd d' c'" "d \<noteq> 2 \<Longrightarrow> c' = LastChunk_Clear"
    using xs w CanAdd_small by auto
qed

lemma AddDeltaSize_spec:
  assumes ok: "chunks_ok p" and d: "d \<le> 2" and a: "AddDeltaSize d p = (r, p')"
  shows "\<not> r \<Longrightarrow> p' = p"
    and "r \<Longrightarrow> chunks_ok p' \<and> tf_statuses p' = tf_statuses p @ [d] \<and> tf_frame p' = tf_frame p \<and>
           tf_size_bytes p' + tf_chunk_bytes p = tf_size_bytes p + tf_chunk_bytes p' \<and>
           tf_size_bytes p' + d \<le> kMaxSizeBytes"
proof -
  show "\<not> r \<Longrightarrow> p' = p"
    using a by (auto simp: AddDeltaSize_def Let_def split: if_splits prod.splits)
  assume r: r
  have c: "chunk_ok (tf_last_chunk p)" "length (tf_statuses p) = unat (tf_num_seq_no p)"
    "\<forall>w \<in> set (tf_encoded_chunks p). encodes w (chunk_list w)"
    using ok by (auto simp: chunks_ok_def)
  have n: "unat (tf_num_seq_no p) \<noteq> 65535"
    using a r by (auto simp: AddDeltaSize_def kMaxReportedPackets_def)
  then have n1: "unat (tf_num_seq_no p + 1) = unat (tf_num_seq_no p) + 1"
    using le_neq_implies_less [OF unat_u16_le] by (simp add: unat_word_ariths)
  show "chunks_ok p' \<and> tf_statuses p' = tf_statuses p @ [d] \<and> tf_frame p' = tf_frame p \<and>
     tf_size_bytes p' + tf_chunk_bytes p = tf_size_bytes p + tf_chunk_bytes p' \<and>
     tf_size_bytes p' + d \<le> kMaxSizeBytes"
  proof (cases "CanAdd d (tf_last_chunk p)")
    case True
    note add = Add_contents [OF c(1) d True]
    have p': "p' = p\<lparr>tf_size_bytes := tf_size_bytes p + (if LastChunk_Empty (tf_last_chunk p) then kChunkSizeBytes else 0),
        tf_last_chunk := LastChunk_Add d (tf_last_chunk p), tf_num_seq_no := tf_num_seq_no p + 1\<rparr>"
      and le: "tf_size_bytes p + d + (if LastChunk_Empty (tf_last_chunk p) then kChunkSizeBytes else 0) \<le> kMaxSizeBytes"
      using a r True by (auto simp: AddDeltaSize_def Let_def split: if_splits)
    have st: "tf_statuses p' = tf_statuses p @ [d]" using add(2) by (simp add: p' tf_statuses_def)
    then have "chunks_ok p'" using c n1 add(1) by (simp add: chunks_ok_def p')
    moreover have "tf_size_bytes p' + tf_chunk_bytes p = tf_size_bytes p + tf_chunk_bytes p'"
      by (simp add: p' tf_chunk_bytes_def kChunkSizeBytes_def)
    moreover have "tf_size_bytes p' + d \<le> kMaxSizeBytes" using le by (simp add: p')
    ultimately show ?thesis using st by (simp add: tf_frame_eq p')
  next
    case False
    obtain w c' where e: "LastChunk_Emit (tf_last_chunk p) = (w, c')" by fastforce
    note em = Emit_chunk [OF c(1) False e]
    note add = Add_contents [OF em(1) d em(4)]
    have p': "p' = p\<lparr>tf_encoded_chunks := tf_encoded_chunks p @ [w], tf_size_bytes := tf_size_bytes p + kChunkSizeBytes,
        tf_last_chunk := LastChunk_Add d c', tf_num_seq_no := tf_num_seq_no p + 1\<rparr>"
      and le: "tf_size_bytes p + d + kChunkSizeBytes \<le> kMaxSizeBytes"
      using a r False e by (auto simp: AddDeltaSize_def Let_def split: if_splits)
    have st: "tf_statuses p' = tf_statuses p @ [d]" using add(2) em(3) by (simp add: p' tf_statuses_def)
    then have "chunks_ok p'" using c n1 add(1) em(2) by (simp add: chunks_ok_def p')
    moreover have "tf_size_bytes p' + tf_chunk_bytes p = tf_size_bytes p + tf_chunk_bytes p'"
      using not_CanAdd_not_Empty [OF False] by (simp add: p' tf_chunk_bytes_def kChunkSizeBytes_def)
    moreover have "tf_size_bytes p' + d \<le> kMaxSizeBytes" using le by (simp add: p')
    ultimately show ?thesis using st by (simp add: tf_frame_eq p')
  qed
qed

lemma fill_missing_spec:
  assumes "chunk_ok c" and "fill_missing n c = (m, c')"
  shows "m \<le> n \<and> chunk_ok c' \<and> contents c' = contents c @ replicate (n - m) 0 \<and> (0 < m \<longrightarrow> \<not> CanAdd 0 c')"
  using assms
proof (induction n c arbitrary: m c' rule: fill_missing.induct)
  case (2 n c)
  show ?case
  proof (cases "CanAdd 0 c")
    case True
    note add = Add_contents [OF 2(2) _ True]
    have "m \<le> n \<and> chunk_ok c' \<and> contents c' = contents (LastChunk_Add 0 c) @ replicate (n - m) 0 \<and> (0 < m \<longrightarrow> \<not> CanAdd 0 c')"
      by (rule 2(1) [OF True]) (use add(1) 2(3) True in auto)
    then show ?thesis using add(2) by (auto simp: Suc_diff_le)
  qed (use 2 in auto)
qed auto

lemma concat_replicate_replicate: "concat (replicate k (replicate m x)) = replicate (k * m) x"
  by (induction k) (auto simp: replicate_add)

lemma full_chunk: "chunk_list (of_nat kMaxRunLengthCapacity) = replicate kMaxRunLengthCapacity 0"
  "encodes (of_nat kMaxRunLengthCapacity) (chunk_list (of_nat kMaxRunLengthCapacity))"
proof -
  let ?c = "LastChunk_AddMissingPackets kMaxRunLengthCapacity LastChunk_Clear"
  have ok: "chunk_ok ?c" "contents ?c = replicate kMaxRunLengthCapacity 0"
    using AddMissing_contents [of kMaxRunLengthCapacity] by (simp_all add: kMaxRunLengthCapacity_def)
  have s: "lc_all_same ?c" "lc_size ?c = kMaxRunLengthCapacity" "EncodeRunLength ?c = of_nat kMaxRunLengthCapacity"
    by (simp_all add: LastChunk_AddMissingPackets_def LastChunk_Clear_def EncodeRunLength_def chunk_consts)
  have "LastChunk_Decode (EncodeRunLength ?c) n = ?c" if "kMaxRunLengthCapacity \<le> n" for n
    by (rule Decode_RunLength [OF ok(1) s(1)]) (use that in \<open>simp_all only: s(2)\<close>, simp add: kMaxRunLengthCapacity_def)
  then have "encodes (of_nat kMaxRunLengthCapacity) (replicate kMaxRunLengthCapacity 0)"
    unfolding encodes_def s(3) using ok(2) by (simp add: kMaxRunLengthCapacity_def)
  note e = chunk_list_encodes [OF this]
  have "length (replicate kMaxRunLengthCapacity (0 :: nat)) \<le> 0x1fff" by (simp add: kMaxRunLengthCapacity_def)
  note e = e [OF this]
  from e show "chunk_list (of_nat kMaxRunLengthCapacity) = replicate kMaxRunLengthCapacity 0"
    and "encodes (of_nat kMaxRunLengthCapacity) (chunk_list (of_nat kMaxRunLengthCapacity))"
    by (rule conjunct1, rule conjunct2)
qed

lemma add_missing_chunks_spec:
  assumes ok: "\<forall>w \<in> set (tf_encoded_chunks p). encodes w (chunk_list w)" and last: "tf_last_chunk p = LastChunk_Clear"
    and len: "length (tf_statuses p) + n = new" "new \<le> 65535" and sz: "tf_size_bytes p \<le> kMaxSizeBytes"
    and a: "add_missing_chunks n new p = (r, p')"
  shows "chunks_ok p' \<and> tf_statuses p' = tf_statuses p @ (if r then replicate n 0 else []) \<and> tf_frame p' = tf_frame p \<and>
     tf_size_bytes p' + tf_chunk_bytes p = tf_size_bytes p + tf_chunk_bytes p' \<and> tf_size_bytes p' \<le> kMaxSizeBytes"
proof (cases r)
  case False
  then have p': "p' = p\<lparr>tf_num_seq_no := of_nat (new - n)\<rparr>"
    using a by (auto simp: add_missing_chunks_def Let_def split: if_splits)
  have st: "tf_statuses p' = tf_statuses p" by (simp add: p' tf_statuses_def)
  have "unat (of_nat (new - n) :: u16) = new - n" using len(2) by (intro unat_of_nat_u16) simp
  then have "chunks_ok p'" using ok len(1) st by (simp add: chunks_ok_def p' last chunk_ok_Clear)
  then show ?thesis using False st sz by (simp add: tf_frame_eq p' tf_chunk_bytes_def)
next
  case True
  define q m where "q = n div kMaxRunLengthCapacity" and "m = n mod kMaxRunLengthCapacity"
  have n: "n = q * kMaxRunLengthCapacity + m" unfolding q_def m_def by simp
  have m: "m \<le> 0x1fff" unfolding m_def kMaxRunLengthCapacity_def
    by (rule order.strict_implies_order) simp
  have p': "p' = p\<lparr>tf_size_bytes := tf_size_bytes p + kChunkSizeBytes * (q + (if m > 0 then 1 else 0)),
      tf_encoded_chunks := tf_encoded_chunks p @ replicate q (of_nat kMaxRunLengthCapacity),
      tf_last_chunk := LastChunk_AddMissingPackets m LastChunk_Clear, tf_num_seq_no := of_nat new\<rparr>"
    and le: "tf_size_bytes p + kChunkSizeBytes * (q + (if m > 0 then 1 else 0)) \<le> kMaxSizeBytes"
    using a True last unfolding add_missing_chunks_def q_def m_def Let_def by (auto split: if_splits)
  note add = AddMissing_contents [OF m]
  have st: "tf_statuses p' = tf_statuses p @ replicate n 0"
    unfolding tf_statuses_def p' using add(2)
    by (simp add: full_chunk(1) concat_replicate_replicate last chunk_ok_Clear n replicate_add)
  have "unat (of_nat new :: u16) = new" using len(2) by (intro unat_of_nat_u16) simp
  then have num: "length (tf_statuses p') = unat (tf_num_seq_no p')" using st len(1) by (simp add: p')
  have e: "LastChunk_Empty (LastChunk_AddMissingPackets m LastChunk_Clear) \<longleftrightarrow> m = 0"
    by (simp add: LastChunk_Empty_def LastChunk_AddMissingPackets_def)
  have "LastChunk_AddMissingPackets 0 LastChunk_Clear = LastChunk_Clear"
    by (simp add: LastChunk_AddMissingPackets_def LastChunk_Clear_def)
  then have "chunks_ok p'" unfolding chunks_ok_def using ok num add(1) full_chunk(2) e by (auto simp: p')
  moreover from e have "tf_size_bytes p' + tf_chunk_bytes p = tf_size_bytes p + tf_chunk_bytes p'"
    by (simp add: p' tf_chunk_bytes_def kChunkSizeBytes_def last LastChunk_Empty_def LastChunk_Clear_def)
  ultimately show ?thesis using True st le by (simp add: tf_frame_eq p')
qed

lemma AddMissingPackets_spec:
  assumes ok: "chunks_ok p" and sz: "tf_size_bytes p \<le> kMaxSizeBytes" and a: "AddMissingPackets n p = (r, p')"
  shows "\<exists>k. (r \<longrightarrow> k = n) \<and> chunks_ok p' \<and> tf_statuses p' = tf_statuses p @ replicate k 0 \<and> tf_frame p' = tf_frame p \<and>
     tf_size_bytes p' + tf_chunk_bytes p = tf_size_bytes p + tf_chunk_bytes p' \<and> tf_size_bytes p' \<le> kMaxSizeBytes"
proof -
  let ?new = "unat (tf_num_seq_no p) + n"
  have c: "chunk_ok (tf_last_chunk p)" "length (tf_statuses p) = unat (tf_num_seq_no p)"
    "\<forall>w \<in> set (tf_encoded_chunks p). encodes w (chunk_list w)"
    using ok by (auto simp: chunks_ok_def)
  show ?thesis
  proof (cases "?new > 65535")
    case True
    then have "\<not> r" "p' = p" using a by (auto simp: AddMissingPackets_def Let_def kMaxReportedPackets_def)
    then show ?thesis using ok sz by (intro exI [of _ 0]) simp
  next
    case new: False
    show ?thesis
    proof (cases "LastChunk_Empty (tf_last_chunk p)")
      case True
      then have l: "tf_last_chunk p = LastChunk_Clear" using ok by (simp add: chunks_ok_def)
      have "add_missing_chunks n ?new p = (r, p')"
        using a new True by (simp add: AddMissingPackets_def Let_def kMaxReportedPackets_def)
      from add_missing_chunks_spec [OF c(3) l _ _ sz this] show ?thesis
        using c(2) new by (intro exI [of _ "if r then n else 0"]) auto
    next
      case False
      obtain m d where f: "fill_missing n (tf_last_chunk p) = (m, d)" by fastforce
      note fm = fill_missing_spec [OF c(1) f]
      have ne: "\<not> LastChunk_Empty d" using False fm Empty_contents c(1) by auto
      show ?thesis
      proof (cases "m = 0")
        case True
        then have r: r and p': "p' = p\<lparr>tf_last_chunk := d, tf_num_seq_no := of_nat ?new\<rparr>"
          using a new False f by (auto simp: AddMissingPackets_def Let_def kMaxReportedPackets_def)
        have u: "unat (of_nat ?new :: u16) = ?new" using new by (intro unat_of_nat_u16) simp
        have st: "tf_statuses p' = tf_statuses p @ replicate n 0" using fm True by (simp add: tf_statuses_def p')
        have "chunks_ok p'" unfolding chunks_ok_def st using fm ne c u by (simp add: p' del: of_nat_add)
        then show ?thesis using r st sz False ne
          by (intro exI [of _ n]) (simp add: tf_frame_eq p' tf_chunk_bytes_def)
      next
        case m: False
        then have can: "\<not> CanAdd 0 d" using fm by simp
        obtain w c' where e: "LastChunk_Emit d = (w, c')" by fastforce
        have d: "chunk_ok d" using fm by blast
        note em = Emit_chunk [OF d can e]
        let ?p = "p\<lparr>tf_encoded_chunks := tf_encoded_chunks p @ [w], tf_last_chunk := c'\<rparr>"
        have a': "add_missing_chunks m ?new ?p = (r, p')"
          using a new False f m e by (simp add: AddMissingPackets_def Let_def kMaxReportedPackets_def)
        have st: "tf_statuses ?p = tf_statuses p @ replicate (n - m) 0"
          using em(3) fm by (simp add: tf_statuses_def)
        have l: "tf_last_chunk ?p = LastChunk_Clear" using em(5) by simp
        have "\<forall>w \<in> set (tf_encoded_chunks ?p). encodes w (chunk_list w)" using c(3) em(2) by auto
        from add_missing_chunks_spec [OF this l _ _ _ a'] st c(2) new fm sz
        have "chunks_ok p' \<and> tf_statuses p' = tf_statuses p @ replicate (n - m) 0 @ (if r then replicate m 0 else []) \<and>
            tf_frame p' = tf_frame ?p \<and> tf_size_bytes p' + tf_chunk_bytes ?p = tf_size_bytes ?p + tf_chunk_bytes p' \<and>
            tf_size_bytes p' \<le> kMaxSizeBytes"
          by simp
        moreover have "tf_frame ?p = tf_frame p" by (simp add: tf_frame_eq)
        moreover have "tf_chunk_bytes ?p = tf_chunk_bytes p" "tf_size_bytes ?p = tf_size_bytes p"
          using False l by (simp_all add: tf_chunk_bytes_def LastChunk_Empty_def LastChunk_Clear_def)
        moreover have "replicate (n - m) 0 @ (if r then replicate m 0 else []) = replicate (if r then n else n - m) (0 :: nat)"
          using fm by (simp flip: replicate_add)
        ultimately show ?thesis by (intro exI [of _ "if r then n else n - m"]) simp
      qed
    qed
  qed
qed

section \<open>Adding a received packet\<close>

lemma matches_missing: "matches s ds rs \<Longrightarrow> matches s (ds @ replicate k 0) rs"
proof (induction ds arbitrary: s rs)
  case Nil
  then show ?case by (induction k arbitrary: s) auto
qed (auto split: list.splits if_splits)

lemma matches_received:
  "matches s ds rs \<Longrightarrow> rcv_sequence_number r = s + of_nat (length ds) \<Longrightarrow>
   - 32768 \<le> rcv_delta_ticks r \<Longrightarrow> rcv_delta_ticks r \<le> 32767 \<Longrightarrow>
   matches s (ds @ [delta_size_of (rcv_delta_ticks r)]) (rs @ [r])"
proof (induction ds arbitrary: s rs)
  case Nil
  then show ?case by (auto simp: delta_size_of_def)
next
  case (Cons d ds)
  have e: "rcv_sequence_number r = (s + 1) + of_nat (length ds)" using Cons.prems(2) by simp
  from Cons.prems Cons.IH [OF _ e] show ?case by (auto split: list.splits if_splits)
qed

lemma matches_length: "matches s ds rs \<Longrightarrow> length rs \<le> length ds"
  by (induction s ds rs rule: matches.induct) (fastforce split: if_splits list.splits)+

lemma matches_range:
  "matches s ds rs \<Longrightarrow> r \<in> set rs \<Longrightarrow> - 32768 \<le> rcv_delta_ticks r \<and> rcv_delta_ticks r \<le> 32767"
  by (induction s ds rs rule: matches.induct) (auto split: if_splits list.splits)

lemma matches_seq: "matches s ds rs \<Longrightarrow> r \<in> set rs \<Longrightarrow> \<exists>i < length ds. rcv_sequence_number r = s + of_nat i"
proof (induction s ds rs rule: matches.induct)
  case (2 s d ds rs)
  have step: "\<exists>i < Suc (length ds). rcv_sequence_number r = s + of_nat i"
    if "\<exists>i < length ds. rcv_sequence_number r = s + 1 + of_nat i"
    using that by (metis Suc_less_eq add.assoc of_nat_Suc)
  show ?case
  proof (cases "d = 0")
    case True
    then show ?thesis using 2 step by simp
  next
    case False
    then obtain r' rs' where rs: "rs = r' # rs'" using 2(3) by (auto split: list.splits)
    show ?thesis
    proof (cases "r = r'")
      case True
      then show ?thesis using 2(3) False rs by (intro exI [of _ 0]) simp
    next
      case ne: False
      then show ?thesis using 2(2) [OF False rs] 2(3,4) False rs step by simp
    qed
  qed
qed simp

lemma sint_u16_range: "- 32768 \<le> sint (w :: u16)" "sint (w :: u16) \<le> 32767"
  using sint_range_size [of w] by (simp_all add: word_size)

lemma sint_eq_range: "sint (w :: u16) = d \<Longrightarrow> - 32768 \<le> d \<and> d \<le> 32767"
  using sint_u16_range by blast

lemma delta_ticks_range: "delta_ticks_of t p = Some d \<Longrightarrow> - 32768 \<le> d \<and> d \<le> 32767"
  by (auto simp: delta_ticks_of_def Let_def split: if_splits dest!: sint_eq_range)

lemma delta_size_le_2: "delta_size_of d \<le> 2"
  by (simp add: delta_size_of_def)

lemma BaseTime_frame: "tf_frame p = tf_frame q \<Longrightarrow> BaseTime p = BaseTime q"
  by (simp add: tf_frame_eq BaseTime_def)

lemma tf_ok_missing:
  assumes "tf_ok p" and "AddMissingPackets n p = (r, p')"
  obtains k where "tf_ok p'" "tf_frame p' = tf_frame p" "r \<Longrightarrow> k = n" "tf_statuses p' = tf_statuses p @ replicate k 0"
proof -
  have ok: "chunks_ok p" and sz: "tf_size_bytes p \<le> kMaxSizeBytes" using assms(1) by (auto simp: tf_ok_def)
  obtain k where k: "r \<longrightarrow> k = n" "chunks_ok p'" "tf_statuses p' = tf_statuses p @ replicate k 0"
      "tf_frame p' = tf_frame p" "tf_size_bytes p' + tf_chunk_bytes p = tf_size_bytes p + tf_chunk_bytes p'"
      "tf_size_bytes p' \<le> kMaxSizeBytes"
    using AddMissingPackets_spec [OF ok sz assms(2)] by blast
  have "tf_ok p'"
    using assms(1) k BaseTime_frame [OF k(4)] by (auto simp: tf_ok_def tf_frame_eq matches_missing sum_list_replicate)
  with k that show thesis by blast
qed

text \<open>What a successful and a failed \<open>AddReceivedPacket\<close> do to the statuses and to the packets.\<close>

lemma AddReceivedPacket_spec:
  assumes ok: "tf_ok p" and a: "AddReceivedPacket s t p = (r, p')"
  shows "tf_ok p'"
    and "sender_ssrc p' = sender_ssrc p" "media_ssrc p' = media_ssrc p" "tf_base_seq_no p' = tf_base_seq_no p"
      "tf_base_time_ticks p' = tf_base_time_ticks p" "tf_feedback_seq p' = tf_feedback_seq p"
      "tf_include_timestamps p' = tf_include_timestamps p"
    and "\<not> r \<Longrightarrow> tf_received_packets p' = tf_received_packets p \<and> tf_last_timestamp p' = tf_last_timestamp p"
    and "r \<Longrightarrow> \<exists>d. delta_ticks_of t p = Some d \<and>
           tf_received_packets p' = tf_received_packets p @ [\<lparr>rcv_sequence_number = s, rcv_delta_ticks = d\<rparr>] \<and>
           tf_last_timestamp p' = Timestamp_plus (tf_last_timestamp p) (unit_times kDeltaTick d) \<and>
           tf_statuses p' = tf_statuses p @
             replicate (unat (s - (tf_base_seq_no p + tf_num_seq_no p))) 0 @ [delta_size_of d]"
proof -
  let ?next = "tf_base_seq_no p + tf_num_seq_no p"
  have "tf_ok p' \<and> tf_base_seq_no p' = tf_base_seq_no p \<and> sender_ssrc p' = sender_ssrc p \<and> media_ssrc p' = media_ssrc p \<and>
      tf_base_time_ticks p' = tf_base_time_ticks p \<and> tf_feedback_seq p' = tf_feedback_seq p \<and>
      tf_include_timestamps p' = tf_include_timestamps p \<and>
      (if r then \<exists>d. delta_ticks_of t p = Some d \<and>
           tf_received_packets p' = tf_received_packets p @ [\<lparr>rcv_sequence_number = s, rcv_delta_ticks = d\<rparr>] \<and>
           tf_last_timestamp p' = Timestamp_plus (tf_last_timestamp p) (unit_times kDeltaTick d) \<and>
           tf_statuses p' = tf_statuses p @ replicate (unat (s - ?next)) 0 @ [delta_size_of d]
       else tf_received_packets p' = tf_received_packets p \<and> tf_last_timestamp p' = tf_last_timestamp p)"
  proof (cases "delta_ticks_of t p")
    case None
    then show ?thesis using a ok by (auto simp: AddReceivedPacket_def)
  next
    case (Some d)
    obtain r1 p1 where p1: "(if s \<noteq> ?next then
          if \<not> IsNewerSequenceNumber s (?next - 1) then (False, p) else AddMissingPackets (unat (s - ?next)) p
        else (True, p)) = (r1, p1)" by fastforce
    have q: "tf_ok p1 \<and> tf_frame p1 = tf_frame p \<and> (r1 \<longrightarrow> tf_statuses p1 = tf_statuses p @ replicate (unat (s - ?next)) 0)"
    proof (cases "s \<noteq> ?next \<and> IsNewerSequenceNumber s (?next - 1)")
      case True
      then have "AddMissingPackets (unat (s - ?next)) p = (r1, p1)" using p1 by simp
      from tf_ok_missing [OF ok this] show ?thesis by metis
    qed (use p1 ok in \<open>auto split: if_splits\<close>)
    show ?thesis
    proof (cases r1)
      case False
      then have "r = False" "p' = p1" using a Some p1 by (auto simp: AddReceivedPacket_def Let_def)
      then show ?thesis using q by (simp add: tf_frame_eq)
    next
      case True
      obtain r2 p2 where p2: "AddDeltaSize (delta_size_of d) p1 = (r2, p2)" by fastforce
      have c1: "chunks_ok p1" using q by (simp add: tf_ok_def)
      note ad = AddDeltaSize_spec [OF c1 delta_size_le_2 p2]
      show ?thesis
      proof (cases r2)
        case False
        then have "r = False" "p' = p2" using a Some p1 p2 True by (auto simp: AddReceivedPacket_def Let_def)
        then show ?thesis using q ad(1) False by (simp add: tf_frame_eq)
      next
        case r2: True
        let ?r = "\<lparr>rcv_sequence_number = s, rcv_delta_ticks = d\<rparr>"
        have r: "r = True" and p': "p' = p2\<lparr>tf_received_packets := tf_received_packets p2 @ [?r],
            tf_last_timestamp := Timestamp_plus (tf_last_timestamp p2) (unit_times kDeltaTick d),
            tf_size_bytes := tf_size_bytes p2 + (if tf_include_timestamps p2 then delta_size_of d else 0)\<rparr>"
          using a Some p1 p2 True r2 by (auto simp: AddReceivedPacket_def Let_def)
        note ad2 = ad(2) [OF r2]
        have fr: "tf_frame p2 = tf_frame p" "tf_frame p2 = tf_frame p1" using ad2 q by auto
        have st: "tf_statuses p' = tf_statuses p1 @ [delta_size_of d]" "tf_chunk_bytes p' = tf_chunk_bytes p2"
          using ad2 by (auto simp: tf_statuses_def tf_chunk_bytes_def p')
        have len: "length (tf_statuses p) = unat (tf_num_seq_no p)" using ok by (simp add: tf_ok_def chunks_ok_def)
        have "tf_base_seq_no p1 + of_nat (length (tf_statuses p1)) = s"
          using q True len by (simp add: tf_frame_eq algebra_simps)
        then have m: "matches (tf_base_seq_no p1) (tf_statuses p1 @ [delta_size_of d]) (tf_received_packets p1 @ [?r])"
          using matches_received [of "tf_base_seq_no p1" "tf_statuses p1" "tf_received_packets p1" ?r] q delta_ticks_range [OF Some]
          by (simp add: tf_ok_def)
        have b: "BaseTime p' = BaseTime p1" using fr by (simp add: BaseTime_def p' tf_frame_eq)
        have z: "\<not> tf_include_timestamps p \<Longrightarrow> d = 0" using Some by (simp add: delta_ticks_of_def)
        have c2: "chunks_ok p2" "tf_statuses p' = tf_statuses p2" using ad2 by (auto simp: tf_statuses_def p')
        have "chunks_ok p'" unfolding chunks_ok_def c2(2) using c2(1) by (simp add: chunks_ok_def p')
        then have "tf_ok p'"
          unfolding tf_ok_def st b using m q fr ad2 z
          by (auto simp: p' tf_frame_eq tf_ok_def advance_def split: if_splits)
        then show ?thesis using r st q True fr Some by (simp add: p' tf_frame_eq)
      qed
    qed
  qed
  then show "tf_ok p'"
    and "sender_ssrc p' = sender_ssrc p" "media_ssrc p' = media_ssrc p" "tf_base_seq_no p' = tf_base_seq_no p"
      "tf_base_time_ticks p' = tf_base_time_ticks p" "tf_feedback_seq p' = tf_feedback_seq p"
      "tf_include_timestamps p' = tf_include_timestamps p"
    and "\<not> r \<Longrightarrow> tf_received_packets p' = tf_received_packets p \<and> tf_last_timestamp p' = tf_last_timestamp p"
    and "r \<Longrightarrow> \<exists>d. delta_ticks_of t p = Some d \<and>
           tf_received_packets p' = tf_received_packets p @ [\<lparr>rcv_sequence_number = s, rcv_delta_ticks = d\<rparr>] \<and>
           tf_last_timestamp p' = Timestamp_plus (tf_last_timestamp p) (unit_times kDeltaTick d) \<and>
           tf_statuses p' = tf_statuses p @ replicate (unat (s - ?next)) 0 @ [delta_size_of d]"
    by (auto split: if_splits)
qed

section \<open>The invariant implies the class's own check\<close>

lemma consistent_loop_matches:
  "matches s ds rs \<Longrightarrow>
   consistent_loop ts s ds rs t n = Some ([], fold advance rs t, n + (if ts then sum_list ds else 0))"
proof (induction s ds rs arbitrary: t n rule: matches.induct)
  case (2 s d ds rs)
  then show ?case by (auto simp: advance_def delta_size_of_def Let_def split: if_splits list.splits)
qed auto

lemma fold_AppendTo:
  "fold (\<lambda>chunk ds. LastChunk_AppendTo (LastChunk_Decode chunk kMaxReportedPackets) ds) ws ds =
     ds @ concat (map chunk_list ws)"
  by (induction ws arbitrary: ds) (simp_all add: AppendTo_contents chunk_list_def)

lemma tf_ok_consistent:
  assumes "tf_ok p"
  shows "IsConsistent p"
proof -
  have c: "chunk_ok (tf_last_chunk p)" "length (tf_statuses p) = unat (tf_num_seq_no p)"
    using assms by (auto simp: tf_ok_def chunks_ok_def)
  have st: "(if \<not> LastChunk_Empty (tf_last_chunk p)
      then (LastChunk_AppendTo (tf_last_chunk p) (concat (map chunk_list (tf_encoded_chunks p))), n + kChunkSizeBytes)
      else (concat (map chunk_list (tf_encoded_chunks p)), n)) =
      (tf_statuses p, n + (if LastChunk_Empty (tf_last_chunk p) then 0 else 2))" for n
    using Empty_contents [OF c(1)] by (simp add: tf_statuses_def AppendTo_contents kChunkSizeBytes_def)
  have m: "matches (tf_base_seq_no p) (tf_statuses p) (tf_received_packets p)" using assms by (simp add: tf_ok_def)
  show ?thesis
    unfolding IsConsistent_def fold_AppendTo Let_def append_Nil st split_conv consistent_loop_matches [OF m]
    using assms c(2) by (simp add: tf_ok_def tf_chunk_bytes_def kChunkSizeBytes_def)
qed

lemma tf_ok_init: "tf_ok (SetBase b t (TransportFeedback_init ts))"
  by (auto simp: tf_ok_def SetBase_def TransportFeedback_init_def chunks_ok_def tf_statuses_def tf_chunk_bytes_def
      chunk_ok_Clear LastChunk_Empty_def kMaxSizeBytes_def kTransportFeedbackHeaderSizeBytes_def BaseTime_def)
    (simp_all add: LastChunk_Clear_def)

section \<open>The wire format\<close>

lemma tf_parse_chunks_safe: "safe (tf_parse_chunks p n i cs c ds)"
proof (induction p n i cs c ds rule: tf_parse_chunks.induct)
  case (1 p n i cs c ds)
  show ?case
  proof (cases "length ds < n \<and> \<not> i + kChunkSizeBytes > length p")
    case True
    then obtain w where w: "rd16 p i = Some w"
      using rd_in_bounds(2) [of i p] by (fastforce simp: kChunkSizeBytes_def)
    show ?thesis
      using 1 True w by (subst tf_parse_chunks.simps) (auto simp: Let_def)
  qed (subst tf_parse_chunks.simps, auto)
qed

lemma tf_parse_deltas_safe: "i + sum_list ds \<le> length p \<Longrightarrow> safe (tf_parse_deltas p i s ds)"
proof (induction p i s ds rule: tf_parse_deltas.induct)
  case (2 p i s d ds)
  have "safe (if d = 1 then map_option uint (rd8 p i) else rd_s16 p i)" if "d = 1 \<or> d = 2"
    using that 2(3) rd_in_bounds(1,5) [of i p] by (auto simp: safe_def)
  then show ?case
    using 2 by (auto intro!: safe_bind split: outcome.splits)
qed simp

lemma TransportFeedback_Parse_safe: "safe (TransportFeedback_Parse h)"
  unfolding TransportFeedback_Parse_def Let_def
  by (intro safe_intros safe_bind [OF tf_parse_chunks_safe] safe_bind [OF tf_parse_deltas_safe])
    (auto simp: payload_size_def kMinPayloadSizeBytes_def intro!: safe_intros safe_bind [OF tf_parse_deltas_safe] split: prod.splits)

lemma tf_parse_chunks_written:
  assumes "\<forall>w \<in> set ws. encodes w (chunk_list w)" and c: "chunk_ok c" "\<not> LastChunk_Empty c"
    and "n = length ds + length (concat (map chunk_list ws)) + lc_size c"
  shows "tf_parse_chunks (pre @ concat (map WriteBigEndian2 ws) @ WriteBigEndian2 (EncodeLast c) @ post) n (length pre) cs c0 ds =
    Some (Accepted (length pre + 2 * length ws + 2, cs @ ws @ [EncodeLast c], chunk_canon c,
      ds @ concat (map chunk_list ws) @ contents c))"
  using assms(1,4)
proof (induction ws arbitrary: pre cs c0 ds)
  case Nil
  have c0: "0 < lc_size c" using c(2) by (simp add: LastChunk_Empty_def)
  have n: "n = length ds + lc_size c" using Nil by simp
  have stop: "tf_parse_chunks p n i cs' (chunk_canon c) (ds @ contents c) =
      Some (Accepted (i, cs', chunk_canon c, ds @ contents c))" for p i cs'
    using n contents_length [OF c(1)] by (subst tf_parse_chunks.simps) simp
  show ?case
    using n c0 Decode_EncodeLast [OF c(1) c0] stop
    by (subst tf_parse_chunks.simps) (simp add: kChunkSizeBytes_def wire_simps AppendTo_contents)
next
  case (Cons w ws)
  have e: "encodes w (chunk_list w)" using Cons.prems by simp
  then have l: "contents (LastChunk_Decode w (n - length ds)) = chunk_list w"
    using Cons.prems(2) by (simp add: encodes_def)
  have lt: "length ds < n" using e Cons.prems(2) by (simp add: encodes_def)
  show ?case
    using lt l Cons.IH [of "ds @ chunk_list w" "pre @ WriteBigEndian2 w" "cs @ [w]"] Cons.prems
    by (subst tf_parse_chunks.simps) (simp add: kChunkSizeBytes_def wire_simps AppendTo_contents)
qed

lemma delta_bytes_length: "length (delta_bytes r) = delta_size_of (rcv_delta_ticks r)"
  by (simp add: delta_bytes_def delta_size_of_def Let_def)

lemma delta_bytes_not_Nil: "delta_bytes r \<noteq> []"
  using delta_bytes_length [of r] by (auto simp: delta_size_of_def split: if_splits)

lemma deltas_length: "matches s ds rs \<Longrightarrow> length (concat (map delta_bytes rs)) = sum_list ds"
  by (induction s ds rs rule: matches.induct) (auto simp: delta_bytes_length split: if_splits list.splits)

lemma tf_parse_deltas_written:
  "matches s ds rs \<Longrightarrow>
   tf_parse_deltas (pre @ concat (map delta_bytes rs) @ post) (length pre) s ds =
     Some (Accepted (length pre + sum_list ds, rs))"
proof (induction s ds rs arbitrary: pre rule: matches.induct)
  case (2 s d ds rs)
  show ?case
  proof (cases "d = 0")
    case True
    then show ?thesis using 2 by simp
  next
    case False
    then obtain r rs' where rs: "rs = r # rs'" using 2(3) by (auto split: list.splits)
    then have r: "rcv_sequence_number r = s" "- 32768 \<le> rcv_delta_ticks r" "rcv_delta_ticks r \<le> 32767"
        "d = delta_size_of (rcv_delta_ticks r)" "matches (s + 1) ds rs'"
      using 2(3) False by auto
    have len: "length pre + d = length (pre @ delta_bytes r)" by (simp add: delta_bytes_length r(4))
    have rec: "tf_parse_deltas (pre @ delta_bytes r @ concat (map delta_bytes rs') @ post) (length pre + d) (s + 1) ds =
        Some (Accepted (length pre + d + sum_list ds, rs'))"
      using 2(2) [OF False rs r(5), of "pre @ delta_bytes r"] unfolding len by simp
    have "(if d = 1 then map_option uint (rd8 (pre @ delta_bytes r @ tl) (length pre))
        else rd_s16 (pre @ delta_bytes r @ tl) (length pre)) = Some (rcv_delta_ticks r)" for tl
    proof (cases "0 \<le> rcv_delta_ticks r \<and> rcv_delta_ticks r \<le> 255")
      case True
      then have "uint (word_of_int (rcv_delta_ticks r) :: u8) = rcv_delta_ticks r"
        by (simp add: uint_word_of_int)
      then show ?thesis using True r(4) by (simp add: delta_bytes_def delta_size_of_def wire_simps)
    next
      case False
      then show ?thesis
        using r by (auto simp: delta_bytes_def delta_size_of_def Let_def wire_simps rd_s16_write)
    qed
    moreover have "d = 1 \<or> d = 2" using r(4) by (simp add: delta_size_of_def)
    ultimately show ?thesis using False rec r(1) by (simp add: rs)
  qed
qed simp

lemma tf_no_deltas_matches:
  "matches s ds rs \<Longrightarrow> \<forall>r \<in> set rs. rcv_delta_ticks r = 0 \<Longrightarrow> tf_no_deltas s ds = rs"
  by (induction s ds rs rule: matches.induct) (auto split: if_splits list.splits)

definition tf_valid :: "TransportFeedback \<Rightarrow> bool" where
  "tf_valid p \<longleftrightarrow>
     tf_ok p \<and> \<not> LastChunk_Empty (tf_last_chunk p) \<and> unat (tf_base_time_ticks p) < 2 ^ 24 \<and>
     (tf_include_timestamps p \<or> tf_received_packets p \<noteq> [])"

definition tf_canon :: "TransportFeedback \<Rightarrow> TransportFeedback" where
  "tf_canon p = p\<lparr>tf_last_chunk := chunk_canon (tf_last_chunk p)\<rparr>"

lemma advance_zero: "\<forall>r \<in> set rs. rcv_delta_ticks r = 0 \<Longrightarrow> fold advance rs t = t"
  by (induction rs) (auto simp: advance_def Timestamp_plus_def unit_times_def infinity_defs)

lemma tf_payload_length: "tf_valid p \<Longrightarrow> length (TransportFeedback_payload p) + 4 = tf_size_bytes p"
  using deltas_length [of "tf_base_seq_no p" "tf_statuses p" "tf_received_packets p"]
  by (auto simp: tf_valid_def tf_ok_def TransportFeedback_payload_def tf_chunk_bytes_def
      kTransportFeedbackHeaderSizeBytes_def length_concat comp_def sum_list_triv)

lemma TransportFeedback_Parse_payload:
  assumes v: "tf_valid p" and pl: "ch_payload h = TransportFeedback_payload p"
  shows "TransportFeedback_Parse h = Some (Accepted (tf_canon p))"
proof -
  let ?c = "tf_last_chunk p" and ?ws = "tf_encoded_chunks p" and ?ds = "tf_statuses p" and ?rs = "tf_received_packets p"
  let ?pre = "Rtpfb_CreateCommonFeedback p @ WriteBigEndian2 (tf_base_seq_no p) @ WriteBigEndian2 (tf_num_seq_no p) @
    WriteBigEndian 3 (tf_base_time_ticks p) @ [tf_feedback_seq p]"
  let ?post = "if tf_include_timestamps p then concat (map delta_bytes ?rs) else []"
  have ok: "chunk_ok ?c" "\<not> LastChunk_Empty ?c" "\<forall>w \<in> set ?ws. encodes w (chunk_list w)"
      "length ?ds = unat (tf_num_seq_no p)" "matches (tf_base_seq_no p) ?ds ?rs"
      "tf_include_timestamps p \<or> ?rs \<noteq> []"
    using v by (auto simp: tf_valid_def tf_ok_def chunks_ok_def)
  define idx where "idx = 16 + 2 * length ?ws + 2"
  have P: "TransportFeedback_payload p = ?pre @ concat (map WriteBigEndian2 ?ws) @ WriteBigEndian2 (EncodeLast ?c) @ ?post"
    using ok(2) by (simp add: TransportFeedback_payload_def)
  have n: "unat (tf_num_seq_no p) = length ([] :: nat list) + length (concat (map chunk_list ?ws)) + lc_size ?c"
    using ok(1,4) contents_length by (simp add: tf_statuses_def)
  have chunks: "tf_parse_chunks (TransportFeedback_payload p) (unat (tf_num_seq_no p)) 16 [] LastChunk_Clear [] =
      Some (Accepted (idx, ?ws @ [EncodeLast ?c], chunk_canon ?c, ?ds))"
    using tf_parse_chunks_written [OF ok(3,1,2) n, of ?pre ?post "[]"] unfolding P [symmetric]
    by (simp add: idx_def tf_statuses_def)
  have num: "tf_num_seq_no p \<noteq> 0" using n ok(2) by (auto simp: LastChunk_Empty_def)
  have t24: "take_bit 24 (tf_base_time_ticks p) = tf_base_time_ticks p"
    using v by (simp add: tf_valid_def word_unat_eq_iff unsigned_take_bit_eq take_bit_nat_eq_self)
  have rd: "Rtpfb_ParseCommonFeedback (TransportFeedback_payload p) =
        Some \<lparr>sender_ssrc = sender_ssrc p, media_ssrc = media_ssrc p\<rparr>"
      "rd16 (TransportFeedback_payload p) 8 = Some (tf_base_seq_no p)"
      "rd16 (TransportFeedback_payload p) 10 = Some (tf_num_seq_no p)"
      "rd24 (TransportFeedback_payload p) 12 = Some (tf_base_time_ticks p)"
      "rd8 (TransportFeedback_payload p) 15 = Some (tf_feedback_seq p)"
    unfolding P by (simp_all add: wire_simps t24)
  have len: "length (TransportFeedback_payload p) = idx + length ?post" "18 \<le> length (TransportFeedback_payload p)"
    unfolding P by (simp_all add: idx_def length_concat comp_def sum_list_triv)
  note dl = deltas_length [OF ok(5)]
  show ?thesis
  proof (cases "tf_include_timestamps p")
    case True
    let ?pre' = "?pre @ concat (map WriteBigEndian2 ?ws) @ WriteBigEndian2 (EncodeLast ?c)"
    have "length ?pre' = idx" by (simp add: idx_def length_concat comp_def sum_list_triv)
    with tf_parse_deltas_written [OF ok(5), of ?pre' "[]"] True
    have d: "tf_parse_deltas (TransportFeedback_payload p) idx (tf_base_seq_no p) ?ds = Some (Accepted (idx + sum_list ?ds, ?rs))"
      unfolding P by (simp del: length_append)
    have sz: "tf_size_bytes p = 4 + (idx + sum_list ?ds)"
      using v True by (simp add: tf_valid_def tf_ok_def tf_chunk_bytes_def idx_def kTransportFeedbackHeaderSizeBytes_def)
    show ?thesis
      unfolding TransportFeedback_Parse_def pl payload_size_def Let_def
      using len dl num rd chunks d v True sz
      by (cases p) (auto simp: kMinPayloadSizeBytes_def TransportFeedback_init_def TransportFeedback_Clear_def BaseTime_def tf_valid_def tf_ok_def
          tf_canon_def kHeaderSizeBytes_def advance_def [abs_def])
  next
    case False
    then have z: "\<forall>r \<in> set ?rs. rcv_delta_ticks r = 0" using v by (simp add: tf_valid_def tf_ok_def)
    have "concat (map delta_bytes ?rs) \<noteq> []"
      using False ok(6) delta_bytes_not_Nil by (cases ?rs) auto
    then have pos: "0 < sum_list ?ds" unfolding dl [symmetric] by blast
    have sz: "tf_size_bytes p = 4 + idx"
      using v False by (simp add: tf_valid_def tf_ok_def tf_chunk_bytes_def idx_def kTransportFeedbackHeaderSizeBytes_def)
    show ?thesis
      unfolding TransportFeedback_Parse_def pl payload_size_def Let_def
      using len num rd chunks v False sz pos tf_no_deltas_matches [OF ok(5) z] advance_zero [OF z]
      by (cases p) (auto simp: kMinPayloadSizeBytes_def TransportFeedback_init_def TransportFeedback_Clear_def BaseTime_def tf_valid_def tf_ok_def
          tf_canon_def kHeaderSizeBytes_def simp del: sum_list_eq_0_iff)
  qed
qed

lemma tf_padding:
  assumes "tf_valid p"
  shows "TransportFeedback_BlockLength p = tf_size_bytes p + PaddingLength p" and "PaddingLength p < 4"
    and "TransportFeedback_BlockLength p = 4 + 4 * HeaderLength (TransportFeedback_BlockLength p)"
    and "HeaderLength (TransportFeedback_BlockLength p) < 65536"
proof -
  let ?s = "tf_size_bytes p"
  have s: "20 \<le> ?s" "?s \<le> 262144"
    using assms by (auto simp: tf_valid_def tf_ok_def kMaxSizeBytes_def kTransportFeedbackHeaderSizeBytes_def)
  define q where "q = (?s + 3) div 4"
  have q: "4 * q \<le> ?s + 3" "?s \<le> 4 * q" unfolding q_def by presburger+
  then have "5 \<le> q" "q \<le> 65536" using s by linarith+
  with q show "TransportFeedback_BlockLength p = ?s + PaddingLength p" "PaddingLength p < 4"
    "TransportFeedback_BlockLength p = 4 + 4 * HeaderLength (TransportFeedback_BlockLength p)"
    "HeaderLength (TransportFeedback_BlockLength p) < 65536"
    by (auto simp: TransportFeedback_BlockLength_def PaddingLength_def HeaderLength_def kHeaderSizeBytes_def
        q_def [symmetric])
qed

interpretation tfb: rtcp_codec TransportFeedback_BlockLength TransportFeedback_body TransportFeedback_Parse
  Rtpfb_kPacketType tf_valid tf_canon
proof
  fix p :: TransportFeedback and rest
  assume v: "tf_valid p"
  note pad = tf_padding [OF v] and len = tf_payload_length [OF v]
  define padding where "padding = (if PaddingLength p > 0 then replicate (PaddingLength p - 1) 0 @ [of_nat (PaddingLength p) :: u8] else [])"
  have pl: "length padding = PaddingLength p" by (simp add: padding_def)
  have body: "TransportFeedback_body p = CreateHeader_padded Tf_kFeedbackMessageType Rtpfb_kPacketType
      (HeaderLength (TransportFeedback_BlockLength p)) (PaddingLength p > 0) @ TransportFeedback_payload p @ padding"
    by (simp only: TransportFeedback_body_def Let_def padding_def)
  show "length (TransportFeedback_body p) = TransportFeedback_BlockLength p"
    unfolding body using len pad(1) pl by simp
  let ?b = "TransportFeedback_payload p @ padding"
  have last: "PaddingLength p > 0 \<Longrightarrow> last ?b = of_nat (PaddingLength p)" by (simp add: padding_def)
  have u: "unat (of_nat (PaddingLength p) :: u8) = PaddingLength p" using pad(2) by (simp add: unat_of_nat)
  have nz: "PaddingLength p > 0 \<Longrightarrow> (of_nat (PaddingLength p) :: u8) \<noteq> 0" using u by fastforce
  define h where "h = \<lparr>ch_packet_type = Rtpfb_kPacketType, ch_count_or_format = of_nat Tf_kFeedbackMessageType,
       ch_padding_size = (if PaddingLength p > 0 then last ?b else 0),
       ch_payload = (if PaddingLength p > 0 then take (length ?b - unat (last ?b)) ?b else ?b), ch_next = rest\<rparr>"
  have "CommonHeader_Parse ((TransportFeedback_body p) @ rest) = Some (Accepted h)"
    unfolding body append_assoc h_def
    by (rule CommonHeader_Parse_padded [where body = ?b, unfolded append_assoc])
      (use len pad pl last u nz in \<open>auto simp: Tf_kFeedbackMessageType_def\<close>)
  moreover have "ch_payload h = TransportFeedback_payload p"
    using last u pl by (auto simp: h_def)
  ultimately show "\<exists>h. CommonHeader_Parse (TransportFeedback_body p @ rest) = Some (Accepted h) \<and>
      ch_packet_type h = Rtpfb_kPacketType \<and> ch_next h = rest \<and>
      TransportFeedback_Parse h = Some (Accepted (tf_canon p))"
    using TransportFeedback_Parse_payload [OF v] by (auto simp: h_def)
qed (rule TransportFeedback_Parse_safe)

section \<open>Reported arrival times\<close>

fun tf_times :: "Timestamp \<Rightarrow> TfReceivedPacket list \<Rightarrow> (u16 \<times> Timestamp) list" where
  "tf_times t [] = []"
| "tf_times t (r # rs) = (rcv_sequence_number r, advance r t) # tf_times (advance r t) rs"

lemma tf_times_append: "tf_times t (rs @ [r]) = tf_times t rs @ [(rcv_sequence_number r, advance r (fold advance rs t))]"
  by (induction rs arbitrary: t) simp_all

text \<open>The time a packet is reported at, up to whole wrap periods of the 24-bit reference time.\<close>

definition same_time :: "Timestamp \<Rightarrow> Timestamp \<Rightarrow> bool" where
  "same_time t t' \<longleftrightarrow> (\<exists>k. \<bar>t' - t - k * kTimeWrapPeriod\<bar> \<le> 125)"

lemma wrap_period: "kTimeWrapPeriod = 1073741824000" "kDeltaTick = 250"
  by (simp_all add: tf_consts)

lemma finite_bound: "\<bar>x\<bar> < 2 ^ 62 \<Longrightarrow> IsFinite x"
  by (auto simp: infinity_defs)

lemma sint_word_of_int_u16: "- 32768 \<le> x \<Longrightarrow> x \<le> 32767 \<Longrightarrow> sint (word_of_int x :: u16) = x"
  by (simp add: sint_sbintrunc' signed_take_bit_int_eq_self)

text \<open>Arrivals within 8.19 seconds of the one before always fit, later or earlier.\<close>

lemma delta_ticks_later:
  assumes p: "tf_include_timestamps p" "\<bar>tf_last_timestamp p\<bar> < 2 ^ 61"
    and t: "tf_last_timestamp p \<le> t" "t < tf_last_timestamp p + 8191875"
  shows "delta_ticks_of t p = Some ((t - tf_last_timestamp p + 125) div 250)"
proof -
  define x where "x = t - tf_last_timestamp p"
  have x: "0 \<le> x" "x < 8191875" using t by (simp_all add: x_def)
  have "IsFinite t" "IsFinite (tf_last_timestamp p)" using p t by (auto intro!: finite_bound)
  then have m: "Timestamp_minus t (tf_last_timestamp p) = x" by (simp add: Timestamp_minus_finite x_def)
  have sm: "x smod 1073741824000 = x" "(x + 125) sdiv 250 = (x + 125) div 250"
    using x by (simp_all add: smod_nonneg sdiv_nonneg)
  have "0 \<le> (x + 125) div 250" "(x + 125) div 250 \<le> 32767" using x by (auto simp: pos_imp_zdiv_nonneg_iff)
  then have "sint (word_of_int ((x + 125) div 250) :: u16) = (x + 125) div 250" by (intro sint_word_of_int_u16) auto
  moreover have "\<not> x > 1073741824000 sdiv 2" "(250 :: int) sdiv 2 = 125" using x by (simp_all add: sdiv_nonneg)
  ultimately show ?thesis
    using p(1) t(1) by (simp add: delta_ticks_of_def Let_def wrap_period m sm x_def [symmetric])
qed

lemma delta_ticks_earlier:
  assumes p: "tf_include_timestamps p" "\<bar>tf_last_timestamp p\<bar> < 2 ^ 61"
    and t: "t < tf_last_timestamp p" "tf_last_timestamp p - 8191875 \<le> t"
  shows "delta_ticks_of t p = Some (- ((tf_last_timestamp p - t + 125) div 250))"
proof -
  let ?W = "1073741824000 :: int"
  define x where "x = tf_last_timestamp p - t"
  have x: "0 < x" "x \<le> 8191875" using t by (simp_all add: x_def)
  have fin: "IsFinite t" "IsFinite (tf_last_timestamp p)" "IsFinite ?W" "IsFinite (t + ?W)"
    using p t by (auto intro!: finite_bound)
  have r: "RoundUpTo x ?W = ?W"
    using x div_eq_if_between [of ?W 1 "x + ?W - 1"] by (simp add: RoundUpTo_def sdiv_nonneg)
  have m: "Timestamp_minus (tf_last_timestamp p) t = x" "Timestamp_plus t ?W = t + ?W"
      "Timestamp_minus (t + ?W) (tf_last_timestamp p) = ?W - x"
    using fin by (simp_all add: Timestamp_minus_finite Timestamp_plus_finite x_def)
  have "(?W - x) mod ?W = ?W - x" using x by (intro mod_pos_pos_trivial) auto
  then have sm: "(?W - x) smod ?W = ?W - x" "(- x - 125) sdiv 250 = - ((x + 125) div 250)"
    using x by (simp_all only: smod_nonneg) (simp_all add: sdiv_neg add.commute)
  have "0 \<le> (x + 125) div 250" "(x + 125) div 250 \<le> 32768" using x by (auto simp: pos_imp_zdiv_nonneg_iff)
  then have "sint (word_of_int (- ((x + 125) div 250)) :: u16) = - ((x + 125) div 250)" by (intro sint_word_of_int_u16) auto
  moreover have "?W - x > ?W sdiv 2" "(250 :: int) sdiv 2 = 125" using x by (simp_all add: sdiv_nonneg)
  ultimately show ?thesis
    using p(1) t(1) by (simp add: delta_ticks_of_def Let_def wrap_period m sm r x_def [symmetric])
qed

lemma div_250: "250 * (y div 250) \<le> (y :: int)" "y < 250 * (y div 250) + 250"
  by presburger+

lemma delta_ticks_close:
  assumes "delta_ticks_of t p = Some d" and "tf_include_timestamps p"
    and t: "0 \<le> t" "t < 2 ^ 62" and l: "\<bar>tf_last_timestamp p\<bar> < 2 ^ 61"
  shows "same_time t (tf_last_timestamp p + 250 * d)"
proof -
  let ?W = "1073741824000 :: int" and ?l = "tf_last_timestamp p"
  define t' where "t' = (if ?l > t then Timestamp_plus t (RoundUpTo (Timestamp_minus ?l t) kTimeWrapPeriod) else t)"
  have fin: "IsFinite t" "IsFinite ?l" using t l by (auto simp: infinity_defs)
  obtain j where j: "t' = t + j * ?W" "?l \<le> t'" "t' < 2 ^ 62 + ?W"
  proof (cases "?l > t")
    case True
    have m: "Timestamp_minus ?l t = ?l - t" using fin by (simp add: Timestamp_minus_finite)
    note r = RoundUpTo_ceiling [of "?l - t" ?W]
    have "IsFinite (RoundUpTo (?l - t) ?W)" using r True t l by (auto simp: infinity_defs)
    then have "t' = t + RoundUpTo (?l - t) ?W"
      using True fin by (simp add: t'_def m wrap_period Timestamp_plus_finite)
    moreover obtain j where "RoundUpTo (?l - t) ?W = j * ?W" using r(3) True by (auto elim: dvdE)
    ultimately show ?thesis using that [of j] r(1,2) True l by auto
  next
    case False
    then show ?thesis using that [of 0] t by (simp add: t'_def)
  qed
  have m: "Timestamp_minus t' ?l = t' - ?l"
    using fin j l t by (intro Timestamp_minus_finite) (auto simp: infinity_defs)
  define f where "f = (t' - ?l) mod ?W"
  obtain q where q: "t' - ?l = q * ?W + f" "0 \<le> f" "f < ?W"
    using div_mult_mod_eq [of "t' - ?l" ?W] by (metis f_def pos_mod_bound pos_mod_sign zero_less_numeral)
  have sm: "Timestamp_minus t' ?l smod kTimeWrapPeriod = f"
    using j(2) by (simp add: m wrap_period smod_nonneg f_def)
  have d: "d = (if f > ?W div 2 then f - ?W - 125 else f + 125) sdiv 250"
    using assms(1,2) sm
    by (auto simp: delta_ticks_of_def Let_def t'_def [symmetric] wrap_period sdiv_nonneg split: if_splits)
  show ?thesis
  proof (cases "f > ?W div 2")
    case True
    then have "d = - ((?W + 125 - f) div 250)" using q by (simp add: d sdiv_neg)
    then have "\<bar>250 * d - (f - ?W)\<bar> \<le> 125" using div_250 [of "?W + 125 - f"] by linarith
    then show ?thesis using q j(1) unfolding same_time_def wrap_period
      by (intro exI [of _ "j - q - 1"]) (auto simp: algebra_simps)
  next
    case False
    then have "d = (f + 125) div 250" using q by (simp add: d sdiv_nonneg)
    then have "\<bar>250 * d - f\<bar> \<le> 125" using div_250 [of "f + 125"] by linarith
    then show ?thesis using q j(1) unfolding same_time_def wrap_period
      by (intro exI [of _ "j - q"]) (auto simp: algebra_simps)
  qed
qed

lemma advance_finite:
  assumes "- 32768 \<le> rcv_delta_ticks r" and "rcv_delta_ticks r \<le> 32767" and "\<bar>t\<bar> < 2 ^ 62"
  shows "advance r t = t + 250 * rcv_delta_ticks r"
proof -
  have "IsFinite t" "IsFinite (250 * rcv_delta_ticks r)" using assms by (auto simp: infinity_defs)
  then show ?thesis by (simp add: advance_def wrap_period unit_times_def Timestamp_plus_finite)
qed

lemma fold_advance_bound:
  assumes "\<forall>r \<in> set rs. - 32768 \<le> rcv_delta_ticks r \<and> rcv_delta_ticks r \<le> 32767"
    and "\<bar>t\<bar> + 8192000 * int (length rs) < 2 ^ 62"
  shows "\<bar>fold advance rs t\<bar> \<le> \<bar>t\<bar> + 8192000 * int (length rs)"
  using assms
proof (induction rs arbitrary: t)
  case (Cons r rs)
  have r: "- 32768 \<le> rcv_delta_ticks r" "rcv_delta_ticks r \<le> 32767" using Cons.prems(1) by auto
  have a: "advance r t = t + 250 * rcv_delta_ticks r"
    using Cons.prems(2) by (intro advance_finite r) simp
  then have "\<bar>advance r t\<bar> \<le> \<bar>t\<bar> + 8192000" using r by linarith
  then show ?case using Cons.IH [of "advance r t"] Cons.prems by simp
qed simp

lemma BaseTime_eq: "BaseTime p = 1073741824000 + 64000 * uint (tf_base_time_ticks p)"
proof -
  have u: "0 \<le> uint (tf_base_time_ticks p)" "uint (tf_base_time_ticks p) < 2 ^ 32"
    using uint_u32_bounds [of "tf_base_time_ticks p"] by simp_all
  have "IsFinite (0 :: int)" "IsFinite (1073741824000 :: int)" "IsFinite (64000 * uint (tf_base_time_ticks p))"
    using u by (auto intro!: finite_bound)
  then show ?thesis
    unfolding BaseTime_def by (simp add: wrap_period kBaseTimeTick_def unit_times_def Timestamp_plus_finite)
qed

lemma tf_ok_packet_bounds:
  assumes "tf_ok p"
  shows "\<forall>r \<in> set (tf_received_packets p). - 32768 \<le> rcv_delta_ticks r \<and> rcv_delta_ticks r \<le> 32767"
    and "length (tf_received_packets p) \<le> 65535"
    and "\<bar>tf_last_timestamp p\<bar> < 2 ^ 61"
proof -
  have m: "matches (tf_base_seq_no p) (tf_statuses p) (tf_received_packets p)"
    and l: "length (tf_statuses p) = unat (tf_num_seq_no p)"
    and t: "tf_last_timestamp p = fold advance (tf_received_packets p) (BaseTime p)"
    using assms by (auto simp: tf_ok_def chunks_ok_def)
  show r: "\<forall>r \<in> set (tf_received_packets p). - 32768 \<le> rcv_delta_ticks r \<and> rcv_delta_ticks r \<le> 32767"
    using matches_range [OF m] by blast
  show n: "length (tf_received_packets p) \<le> 65535"
    using matches_length [OF m] unat_u16_le [of "tf_num_seq_no p"] unfolding l by linarith
  have "uint (tf_base_time_ticks p) < 2 ^ 32" "0 \<le> uint (tf_base_time_ticks p)"
    using uint_u32_bounds [of "tf_base_time_ticks p"] by simp_all
  then have b: "\<bar>BaseTime p\<bar> < 1073741824000 + 64000 * 2 ^ 32" unfolding BaseTime_eq by linarith
  have s: "\<bar>BaseTime p\<bar> + 8192000 * int (length (tf_received_packets p)) < 2 ^ 61" using b n by simp
  then have "\<bar>BaseTime p\<bar> + 8192000 * int (length (tf_received_packets p)) < 2 ^ 62" by simp
  from fold_advance_bound [OF r this] s show "\<bar>tf_last_timestamp p\<bar> < 2 ^ 61"
    unfolding t by linarith
qed

text \<open>A feedback that was filled by successful \<open>AddReceivedPacket\<close> calls.\<close>

fun tf_add_all :: "(u16 \<times> Timestamp) list \<Rightarrow> TransportFeedback \<Rightarrow> TransportFeedback option" where
  "tf_add_all [] p = Some p"
| "tf_add_all ((s, t) # ps) p =
     (case AddReceivedPacket s t p of (ok, p') \<Rightarrow> if ok then tf_add_all ps p' else None)"

definition reported_as :: "u16 \<times> Timestamp \<Rightarrow> u16 \<times> Timestamp \<Rightarrow> bool" where
  "reported_as a b \<longleftrightarrow> fst a = fst b \<and> same_time (snd a) (snd b)"

definition arrival_ok :: "u16 \<times> Timestamp \<Rightarrow> bool" where
  "arrival_ok a \<longleftrightarrow> 0 \<le> snd a \<and> snd a < 2 ^ 62"

definition tf_reports :: "TransportFeedback \<Rightarrow> (u16 \<times> Timestamp) list" where
  "tf_reports p = tf_times (BaseTime p) (tf_received_packets p)"

lemma AddReceivedPacket_reported:
  assumes ok: "tf_ok p" "tf_include_timestamps p" and t: "arrival_ok (s, t)" and a: "AddReceivedPacket s t p = (True, p')"
  shows "\<exists>t'. tf_reports p' = tf_reports p @ [(s, t')] \<and> reported_as (s, t) (s, t')"
proof -
  note sp = AddReceivedPacket_spec [OF ok(1) a]
  obtain d where d: "delta_ticks_of t p = Some d"
      "tf_received_packets p' = tf_received_packets p @ [\<lparr>rcv_sequence_number = s, rcv_delta_ticks = d\<rparr>]"
    using sp(9) by auto
  let ?r = "\<lparr>rcv_sequence_number = s, rcv_delta_ticks = d\<rparr>"
  note b = tf_ok_packet_bounds [OF ok(1)]
  have l: "tf_last_timestamp p = fold advance (tf_received_packets p) (BaseTime p)" using ok(1) by (simp add: tf_ok_def)
  have "advance ?r (tf_last_timestamp p) = tf_last_timestamp p + 250 * d"
    using delta_ticks_range [OF d(1)] b(3) by (subst advance_finite) auto
  moreover have "same_time t (tf_last_timestamp p + 250 * d)"
    using delta_ticks_close [OF d(1) ok(2)] t b(3) by (simp add: arrival_ok_def)
  moreover have "BaseTime p' = BaseTime p" using sp(5) by (simp add: BaseTime_def)
  ultimately show ?thesis
    using d(2) l by (auto simp: tf_reports_def tf_times_append reported_as_def)
qed

lemma tf_add_all_spec:
  assumes "tf_add_all ps p = Some p'" and "tf_ok p" and "tf_include_timestamps p" and "list_all arrival_ok ps"
  shows "tf_ok p' \<and> tf_include_timestamps p' \<and> tf_base_time_ticks p' = tf_base_time_ticks p \<and>
    (\<exists>qs. tf_reports p' = tf_reports p @ qs \<and> list_all2 reported_as ps qs) \<and>
    (ps \<noteq> [] \<longrightarrow> \<not> LastChunk_Empty (tf_last_chunk p'))"
  using assms
proof (induction ps arbitrary: p)
  case (Cons x ps)
  obtain s t where x: "x = (s, t)" by force
  obtain q where q: "AddReceivedPacket s t p = (True, q)" "tf_add_all ps q = Some p'"
    using Cons.prems(1) by (auto simp: x split: prod.splits if_splits)
  note sp = AddReceivedPacket_spec [OF Cons.prems(2) q(1)]
  obtain t' where t': "tf_reports q = tf_reports p @ [(s, t')]" "reported_as (s, t) (s, t')"
    using AddReceivedPacket_reported [OF Cons.prems(2,3) _ q(1)] Cons.prems(4) by (auto simp: x)
  have ih: "tf_ok p' \<and> tf_include_timestamps p' \<and> tf_base_time_ticks p' = tf_base_time_ticks q \<and>
    (\<exists>qs. tf_reports p' = tf_reports q @ qs \<and> list_all2 reported_as ps qs) \<and>
    (ps \<noteq> [] \<longrightarrow> \<not> LastChunk_Empty (tf_last_chunk p'))"
    by (rule Cons.IH [OF q(2) sp(1)]) (use sp(7) Cons.prems in auto)
  have "\<not> LastChunk_Empty (tf_last_chunk q)"
    using q(1) by (auto simp: AddReceivedPacket_def AddDeltaSize_def Let_def split: option.splits if_splits prod.splits)
  then have "\<not> LastChunk_Empty (tf_last_chunk p')" using ih q(2) by (cases ps) auto
  then show ?case using ih t' sp(5) by (auto simp: x)
qed auto

lemma IsConsistent_canon: "IsConsistent (tf_canon p) \<longleftrightarrow> IsConsistent p"
proof -
  have "LastChunk_AppendTo (chunk_canon c) ds = LastChunk_AppendTo c ds" "LastChunk_Empty (chunk_canon c) = LastChunk_Empty c"
    for c ds by (simp_all add: LastChunk_AppendTo_def LastChunk_Empty_def chunk_canon_def)
  moreover have "BaseTime (tf_canon p) = BaseTime p" "tf_encoded_chunks (tf_canon p) = tf_encoded_chunks p"
      "tf_num_seq_no (tf_canon p) = tf_num_seq_no p" "tf_include_timestamps (tf_canon p) = tf_include_timestamps p"
      "tf_base_seq_no (tf_canon p) = tf_base_seq_no p" "tf_received_packets (tf_canon p) = tf_received_packets p"
      "tf_last_timestamp (tf_canon p) = tf_last_timestamp p" "tf_size_bytes (tf_canon p) = tf_size_bytes p"
      "tf_last_chunk (tf_canon p) = chunk_canon (tf_last_chunk p)"
    by (simp_all add: tf_canon_def BaseTime_def)
  ultimately show ?thesis unfolding IsConsistent_def by (simp only:)
qed

section \<open>What the handler of \<open>ForAllPackets\<close> sees\<close>

lemma for_all_packets_matches:
  assumes "matches s ds rs" and "length ds < 2 ^ 16" and "\<bar>t\<bar> + 8192000 * int (length rs) < 2 ^ 62"
  shows "map fst (for_all_packets (length ds) s t rs) = map (\<lambda>i. s + of_nat i) [0..<length ds] \<and>
    filter (\<lambda>x. IsFinite (snd x)) (for_all_packets (length ds) s t rs) = tf_times t rs"
  using assms
proof (induction s ds rs arbitrary: t rule: matches.induct)
  case (2 s d ds rs)
  have up: "map (\<lambda>i. s + of_nat i) [0..<Suc n] = s # map (\<lambda>i. (s + 1) + of_nat i) [0..<n]" for n
    by (simp only: upt_conv_Cons zero_less_Suc map_Suc_upt [symmetric] list.map map_map comp_def of_nat_Suc)
      (simp add: add.assoc)
  have inf: "\<not> IsFinite PlusInfinity" by (simp add: infinity_defs)
  show ?case
  proof (cases "d = 0")
    case True
    then have m: "matches (s + 1) ds rs" using 2(3) by simp
    have ne: "rcv_sequence_number r \<noteq> s" if r: "r \<in> set rs" for r
    proof
      assume e: "rcv_sequence_number r = s"
      obtain i where i: "i < length ds" "rcv_sequence_number r = s + 1 + of_nat i" using matches_seq [OF m r] by blast
      then have "(of_nat (i + 1) :: u16) = 0" using e by (simp add: add.assoc)
      then have "unat (of_nat (i + 1) :: u16) = 0" by (simp only: unat_0)
      moreover have "unat (of_nat (i + 1) :: u16) = i + 1" using i(1) 2(4) by (intro unat_of_nat_u16) simp
      ultimately show False by simp
    qed
    have "for_all_packets (length (d # ds)) s t rs = (s, PlusInfinity) # for_all_packets (length ds) (s + 1) t rs"
      using ne by (cases rs) auto
    then show ?thesis using 2(1) [OF True m, of t] 2(4,5) inf by (simp add: up del: upt_Suc)
  next
    case False
    then obtain r rs' where rs: "rs = r # rs'" using 2(3) by (auto split: list.splits)
    then have r: "rcv_sequence_number r = s" "- 32768 \<le> rcv_delta_ticks r" "rcv_delta_ticks r \<le> 32767" "matches (s + 1) ds rs'"
      using 2(3) False by auto
    have "\<bar>t\<bar> < 2 ^ 62" using 2(5) by simp
    note a = advance_finite [OF r(2,3) this]
    have "\<bar>advance r t\<bar> + 8192000 * int (length rs') < 2 ^ 62" using 2(5) r(2,3) unfolding a rs by simp
    note ih = 2(2) [OF False rs r(4) _ this] and fin = finite_bound [of "advance r t"]
    have "for_all_packets (length (d # ds)) s t rs = (s, advance r t) # for_all_packets (length ds) (s + 1) (advance r t) rs'"
      using r(1) by (simp add: rs advance_def unit_plus_def Timestamp_plus_def Let_def)
    moreover have "\<bar>advance r t\<bar> < 2 ^ 62" using \<open>\<bar>advance r t\<bar> + _ < _\<close> by simp
    ultimately show ?thesis using ih fin 2(4) r(1) by (simp add: up rs del: upt_Suc)
  qed
qed simp

lemma tf_times_shift:
  assumes "\<forall>r \<in> set rs. - 32768 \<le> rcv_delta_ticks r \<and> rcv_delta_ticks r \<le> 32767"
    and "\<bar>t\<bar> + 8192000 * int (length rs) < 2 ^ 61" and "\<bar>b\<bar> < 2 ^ 61"
  shows "tf_times (b + t) rs = map (\<lambda>(s, d). (s, b + d)) (tf_times t rs)"
  using assms(1,2)
proof (induction rs arbitrary: t)
  case (Cons r rs)
  have r: "- 32768 \<le> rcv_delta_ticks r" "rcv_delta_ticks r \<le> 32767" using Cons.prems(1) by auto
  have a: "advance r t = t + 250 * rcv_delta_ticks r" "advance r (b + t) = b + (t + 250 * rcv_delta_ticks r)"
    using Cons.prems(2) assms(3) by (subst advance_finite [OF r]; simp)+
  have "\<bar>t + 250 * rcv_delta_ticks r\<bar> + 8192000 * int (length rs) < 2 ^ 61" using Cons.prems(2) r by simp
  from Cons.IH [OF _ this] Cons.prems(1) show ?case by (simp add: a)
qed simp

lemma ForAllPackets_reports:
  assumes ok: "tf_ok p"
  shows "map (\<lambda>(s, d). (s, BaseTime p + d)) (filter (\<lambda>x. IsFinite (snd x)) (ForAllPackets p)) = tf_reports p"
    and "map fst (ForAllPackets p) = map (\<lambda>i. tf_base_seq_no p + of_nat i) [0..<unat (tf_num_seq_no p)]"
proof -
  have m: "matches (tf_base_seq_no p) (tf_statuses p) (tf_received_packets p)"
    and l: "length (tf_statuses p) = unat (tf_num_seq_no p)"
    using ok by (auto simp: tf_ok_def chunks_ok_def)
  note b = tf_ok_packet_bounds [OF ok]
  have n: "length (tf_statuses p) < 2 ^ 16" unfolding l by simp
  have s: "\<bar>0 :: int\<bar> + 8192000 * int (length (tf_received_packets p)) < 2 ^ 61" using b(2) by simp
  then have s': "\<bar>0 :: int\<bar> + 8192000 * int (length (tf_received_packets p)) < 2 ^ 62" by simp
  have "\<bar>BaseTime p\<bar> < 2 ^ 61" unfolding BaseTime_eq using uint_u32_bounds [of "tf_base_time_ticks p"] by simp
  note sh = tf_times_shift [OF b(1) s this]
  note fa = for_all_packets_matches [OF m n s', unfolded l]
  show "map (\<lambda>(s, d). (s, BaseTime p + d)) (filter (\<lambda>x. IsFinite (snd x)) (ForAllPackets p)) = tf_reports p"
    unfolding ForAllPackets_def tf_reports_def using fa sh by simp
  show "map fst (ForAllPackets p) = map (\<lambda>i. tf_base_seq_no p + of_nat i) [0..<unat (tf_num_seq_no p)]"
    unfolding ForAllPackets_def using fa by blast
qed

section \<open>Main properties\<close>

lemma SetBase_init:
  "tf_include_timestamps (SetBase b t (TransportFeedback_init ts)) = ts"
  "tf_reports (SetBase b t (TransportFeedback_init ts)) = []"
  by (simp_all add: SetBase_def TransportFeedback_init_def tf_reports_def Let_def)

lemma SetBase_ticks_eq:
  assumes "0 \<le> t"
  shows "uint (tf_base_time_ticks (SetBase b t p)) = t mod 1073741824000 div 64000"
    and "t mod 1073741824000 div 64000 < 16777216"
proof -
  have tick: "kBaseTimeTick = 64000" by (simp add: tf_consts)
  define x where "x = t mod 1073741824000 div 64000"
  have "0 \<le> t mod 1073741824000" "t mod 1073741824000 < 1073741824000" by simp_all
  then have x: "0 \<le> x" "x < 16777216" unfolding x_def by (auto simp: div_less_iff_less_mult)
  have "tf_base_time_ticks (SetBase b t p) = word_of_int x"
    using assms by (simp add: SetBase_def Let_def x_def wrap_period tick smod_nonneg sdiv_nonneg)
  moreover have "uint (word_of_int x :: u32) = x" using x by (simp add: uint_word_of_int)
  ultimately show "uint (tf_base_time_ticks (SetBase b t p)) = t mod 1073741824000 div 64000"
    "t mod 1073741824000 div 64000 < 16777216"
    using x by (simp_all add: x_def)
qed

lemma SetBase_ticks: "0 \<le> t \<Longrightarrow> unat (tf_base_time_ticks (SetBase b t p)) < 2 ^ 24"
  using SetBase_ticks_eq(1) [of t b p] SetBase_ticks_eq(2) [of t] by (simp add: unat_eq_nat_uint)

lemma SetBase_BaseTime:
  fixes W :: int
  assumes "0 \<le> t"
  defines "W \<equiv> 1073741824000"
  shows "\<exists>k r. BaseTime (SetBase s t p) = t - r + k * W \<and> 0 \<le> r \<and> r < 64000 \<and>
      W \<le> BaseTime (SetBase s t p) \<and> BaseTime (SetBase s t p) < 2 * W"
proof -
  define x r where "x = t mod W div 64000" and "r = t mod W mod 64000"
  have b: "BaseTime (SetBase s t p) = W + 64000 * x" and x: "0 \<le> x" "x < 16777216"
    unfolding BaseTime_eq using SetBase_ticks_eq(1) [OF assms(1), of s p] SetBase_ticks_eq(2) [OF assms(1)]
    by (simp_all add: x_def W_def)
  have "t = t div W * W + t mod W" "t mod W = 64000 * x + r" unfolding x_def r_def by simp_all
  then have "W + 64000 * x = t - r + (1 - t div W) * W" by (simp add: algebra_simps)
  moreover have "0 \<le> r" "r < 64000" unfolding r_def by simp_all
  ultimately show ?thesis unfolding b using x by (intro exI [of _ "1 - t div W"] exI [of _ r]) (simp add: W_def)
qed

lemma tf_ok_size: "tf_ok p \<Longrightarrow> tf_size_bytes p \<le> kMaxSizeBytes"
  by (simp add: tf_ok_def)

text \<open>
  C17: A transport feedback filled with successfully added packets, whatever gaps, reordered arrival times
  and wrapped sequence numbers they have, is accepted by the receiver of the feedback. The packet it parses is
  consistent, its handler is called for every sequence number from the base on in order, and the calls with a
  finite time are for exactly the added packets, each at its arrival time to within half a tick of 250
  microseconds (and up to wraps of the 24-bit reference time). Rounding errors do not accumulate.
\<close>

theorem transport_feedback_delivers:
  assumes add: "tf_add_all pkts (SetBase base t0 (TransportFeedback_init True)) = Some p" and ne: "pkts \<noteq> []"
    and t: "list_all arrival_ok pkts" "0 \<le> t0"
  shows "\<exists>q. parse_block TransportFeedback_Parse (Build (TransportFeedback_BlockLength p) (TransportFeedback_Create p)) =
      Some (Accepted (q, [])) \<and> IsConsistent q \<and>
    map fst (ForAllPackets q) = map (\<lambda>i. tf_base_seq_no q + of_nat i) [0..<unat (tf_num_seq_no q)] \<and>
    list_all2 reported_as pkts
      (map (\<lambda>(s, d). (s, BaseTime q + d)) (filter (\<lambda>x. IsFinite (snd x)) (ForAllPackets q)))"
proof -
  note sp = tf_add_all_spec [OF add tf_ok_init _ t(1), unfolded SetBase_init, OF TrueI]
  have ok: "tf_ok p" and inc: "tf_include_timestamps p" and ne': "\<not> LastChunk_Empty (tf_last_chunk p)"
    using sp ne by auto
  have ticks: "unat (tf_base_time_ticks p) < 2 ^ 24" using sp SetBase_ticks [OF t(2)] by metis
  have v: "tf_valid p" unfolding tf_valid_def using ok inc ne' ticks by blast
  have num: "tf_num_seq_no p \<noteq> 0"
    using ok ne' Empty_contents [of "tf_last_chunk p"] by (auto simp: tf_ok_def chunks_ok_def tf_statuses_def)
  then have create: "TransportFeedback_Create p = create_block (TransportFeedback_BlockLength p) (TransportFeedback_body p)"
    by (simp add: TransportFeedback_Create_def fun_eq_iff)
  have same: "ForAllPackets (tf_canon p) = ForAllPackets p" "BaseTime (tf_canon p) = BaseTime p"
      "tf_base_seq_no (tf_canon p) = tf_base_seq_no p" "tf_num_seq_no (tf_canon p) = tf_num_seq_no p"
    by (simp_all add: tf_canon_def ForAllPackets_def BaseTime_def)
  show ?thesis
    by (rule exI [of _ "tf_canon p"])
      (use tfb.Build_roundtrip(2) [OF v] create tf_ok_consistent [OF ok] ForAllPackets_reports [OF ok] sp
       in \<open>auto simp: IsConsistent_canon same\<close>)
qed

theorem transport_feedback_delivers_witness:
  "\<exists>p q. tf_add_all [(65534, 1073741900000), (65535, 1073741900300), (3, 1073741880000)]
       (SetBase 65534 1073741900000 (TransportFeedback_init True)) = Some p \<and>
     parse_block TransportFeedback_Parse (Build (TransportFeedback_BlockLength p) (TransportFeedback_Create p)) =
       Some (Accepted (q, [])) \<and> IsConsistent q"
proof -
  let ?pkts = "[(65534, 1073741900000), (65535, 1073741900300), (3, 1073741880000)] :: (u16 \<times> Timestamp) list"
  let ?p = "SetBase 65534 1073741900000 (TransportFeedback_init True)"
  let ?q = "\<lambda>n t rs c sz. \<lparr>sender_ssrc = 0, media_ssrc = 0, tf_base_seq_no = 65534, tf_num_seq_no = n, tf_base_time_ticks = 1,
    tf_feedback_seq = 0, tf_include_timestamps = True, tf_last_timestamp = t, tf_received_packets = rs,
    tf_encoded_chunks = [], tf_last_chunk = c, tf_size_bytes = sz\<rparr>"
  let ?c1 = "\<lparr>lc_delta_sizes = [1], lc_size = 1, lc_all_same = True, lc_has_large_delta = False\<rparr>"
  let ?c2 = "\<lparr>lc_delta_sizes = [1, 1], lc_size = 2, lc_all_same = True, lc_has_large_delta = False\<rparr>"
  have b: "?p = ?q 0 1073741888000 [] LastChunk_Clear 20"
    by (simp add: SetBase_def TransportFeedback_init_def Let_def tf_consts BaseTime_eq signed_divide_int_def signed_modulo_int_def)
  note ev = AddReceivedPacket_def Let_def tf_consts Timestamp_plus_def infinity_defs AddDeltaSize_def LastChunk_Clear_def
    LastChunk_Empty_def CanAdd_def chunk_consts delta_size_of_def LastChunk_Add_def
  have d: "delta_ticks_of 1073741900000 (?q 0 1073741888000 [] LastChunk_Clear 20) = Some 48"
      "delta_ticks_of 1073741900300 (?q 1 1073741900000 rs ?c1 23) = Some 1"
      "delta_ticks_of 1073741880000 (?q 2 1073741900250 rs ?c2 24) = Some (- 81)" for rs
    by (simp_all add: delta_ticks_later delta_ticks_earlier)
  have 1: "AddReceivedPacket 65534 1073741900000 (?q 0 1073741888000 [] LastChunk_Clear 20) =
      (True, ?q 1 1073741900000 [\<lparr>rcv_sequence_number = 65534, rcv_delta_ticks = 48\<rparr>] ?c1 23)"
    unfolding AddReceivedPacket_def d by (simp add: ev)
  have 2: "AddReceivedPacket 65535 1073741900300 (?q 1 1073741900000 rs ?c1 23) =
      (True, ?q 2 1073741900250 (rs @ [\<lparr>rcv_sequence_number = 65535, rcv_delta_ticks = 1\<rparr>]) ?c2 24)" for rs
    unfolding AddReceivedPacket_def d by (simp add: ev)
  have 3: "AddMissingPackets 3 (?q 2 1073741900250 rs ?c2 24) =
      (True, ?q 5 1073741900250 rs \<lparr>lc_delta_sizes = [1, 1, 0, 0, 0], lc_size = 5, lc_all_same = False,
        lc_has_large_delta = False\<rparr> 24)" for rs
    by (simp add: AddMissingPackets_def ev numeral_3_eq_3)
  have n: "IsNewerSequenceNumber (3 :: u16) 65535" by code_simp
  have 4: "\<exists>p. AddReceivedPacket 3 1073741880000 (?q 2 1073741900250 rs ?c2 24) = (True, p)" for rs
    unfolding AddReceivedPacket_def d by (simp add: ev 3 [unfolded One_nat_def] n)
  let ?rs = "[\<lparr>rcv_sequence_number = 65534, rcv_delta_ticks = 48\<rparr>, \<lparr>rcv_sequence_number = 65535, rcv_delta_ticks = 1\<rparr>]"
  obtain p where p: "AddReceivedPacket 3 1073741880000 (?q 2 1073741900250 ?rs ?c2 24) = (True, p)" using 4 by blast
  then have "tf_add_all ?pkts ?p = Some p"
    unfolding b by (simp only: tf_add_all.simps 1 2 append.simps prod.case if_True)
  with transport_feedback_delivers [OF this] show ?thesis by (auto simp: arrival_ok_def)
qed

text \<open>
  C31: However the packet is filled, with successful and failed attempts to add packets in any order, its own
  consistency check holds after every call: the chunks count one status per sequence number, the received
  packets are those with a delta, the running timestamp is the sum of the deltas, and the size is the number of
  bytes that will be written and never exceeds what the length field of the header can express.
\<close>

theorem transport_feedback_consistent:
  "let p = fold (\<lambda>(s, t) p. snd (AddReceivedPacket s t p)) calls (SetBase base t0 (TransportFeedback_init ts))
   in IsConsistent p \<and> tf_size_bytes p \<le> kMaxSizeBytes"
proof -
  have "tf_ok (fold (\<lambda>(s, t) p. snd (AddReceivedPacket s t p)) calls p)" if "tf_ok p" for p
    using that
  proof (induction calls arbitrary: p)
    case (Cons c calls)
    obtain s t where c: "c = (s, t)" by force
    have "tf_ok (snd (AddReceivedPacket s t p))"
      using AddReceivedPacket_spec(1) [OF Cons.prems] by (metis surjective_pairing)
    then show ?case using Cons.IH by (simp add: c)
  qed simp
  from this [OF tf_ok_init] show ?thesis unfolding Let_def using tf_ok_consistent tf_ok_size by blast
qed

text \<open>
  C32: The sender recovers how far two feedback packets are apart: when their reference times were taken from
  clock readings less than half a wrap period apart, \<open>GetBaseDelta\<close> gives the difference of the two
  readings to within one 64 millisecond tick, also when the 24-bit reference time wrapped in between.
\<close>

theorem base_delta_recovers_time:
  assumes "0 \<le> t1" and "0 \<le> t2" and "2 * \<bar>t2 - t1\<bar> < kTimeWrapPeriod - 2 * kBaseTimeTick"
  shows "\<bar>GetBaseDelta (BaseTime (SetBase s1 t1 p1)) (SetBase s2 t2 p2) - (t2 - t1)\<bar> < kBaseTimeTick"
proof -
  define W :: int where "W = 1073741824000"
  define b1 b2 where "b1 = BaseTime (SetBase s1 t1 p1)" and "b2 = BaseTime (SetBase s2 t2 p2)"
  have tick: "kBaseTimeTick = 64000" by (simp add: tf_consts)
  obtain k1 r1 where 1: "b1 = t1 - r1 + k1 * W" "0 \<le> r1" "r1 < 64000" "W \<le> b1" "b1 < 2 * W"
    using SetBase_BaseTime [OF assms(1), of s1 p1] unfolding b1_def W_def by blast
  obtain k2 r2 where 2: "b2 = t2 - r2 + k2 * W" "0 \<le> r2" "r2 < 64000" "W \<le> b2" "b2 < 2 * W"
    using SetBase_BaseTime [OF assms(2), of s2 p2] unfolding b2_def W_def by blast
  define k where "k = k2 - k1"
  have d: "b2 - b1 = t2 - t1 - (r2 - r1) + k * W" using 1(1) 2(1) by (simp add: k_def algebra_simps)
  have c: "2 * t2 - 2 * t1 < W - 128000" "2 * t1 - 2 * t2 < W - 128000" and W: "W > 1000000"
    using assms(3) by (auto simp: wrap_period tick W_def)
  have "k * W < 2 * W" "(- 2) * W < k * W" using d c W 1(2-5) 2(2-5) by linarith+
  then have "k < 2" "- 2 < k" using W mult_less_cancel_right_pos [of W "- 2" k] by auto
  then have k: "k = - 1 \<or> k = 0 \<or> k = 1" by auto
  have fin: "IsFinite b1" "IsFinite b2" "IsFinite (b2 - b1)" "IsFinite W"
    using 1(4,5) 2(4,5) by (auto intro!: finite_bound simp: W_def)
  have wrap: "kTimeWrapPeriod = W" by (simp add: wrap_period W_def)
  have ab: "TimeDelta_Abs v = \<bar>v\<bar>" for v by (simp add: TimeDelta_Abs_def TimeDelta_Micros_def)
  have "GetBaseDelta b1 (SetBase s2 t2 p2) =
      (if \<bar>b2 - b1 - W\<bar> < \<bar>b2 - b1\<bar> then b2 - b1 - W else if \<bar>b2 - b1 + W\<bar> < \<bar>b2 - b1\<bar> then b2 - b1 + W else b2 - b1)"
    using fin
    by (simp add: GetBaseDelta_def Let_def b2_def [symmetric] Timestamp_minus_finite unit_minus_finite unit_plus_finite
        wrap ab)
  also have "\<dots> = t2 - t1 - (r2 - r1)"
    using k d c W 1(2,3) 2(2,3) by (elim disjE) (simp_all add: abs_if)
  finally show ?thesis using 1(2,3) 2(2,3) unfolding b1_def tick by linarith
qed

theorem base_delta_recovers_time_witness:
  "\<bar>GetBaseDelta (BaseTime (SetBase 1 1073741800000 (TransportFeedback_init True)))
      (SetBase 9 1073741950000 (TransportFeedback_init True)) - 150000\<bar> < kBaseTimeTick"
  using base_delta_recovers_time [of 1073741800000 1073741950000 1 "TransportFeedback_init True" 9 "TransportFeedback_init True"]
  by (simp add: tf_consts)

end
