(* ===== verification/Feedback_Adapter.thy ===== *)
theory Feedback_Adapter
  imports Transport_Feedback Ccfb Ccfb_Generator Ntp_Util Std_Map "HOL-Library.Product_Lexorder"
begin

text \<open>
  \<open>modules/congestion_controller/rtp/transport_feedback_adapter.cc\<close>: the sender's history of packets
  and its translation of both kinds of RTCP feedback into per-packet results for the congestion
  controller.

  The history is a \<open>std::map\<close> from unwrapped transport sequence numbers. The map of in-flight bytes is
  ordered by a comparator that ignores some members of a route, so its keys are the compared members,
  \<open>route_key\<close>. \<open>adapter_ok\<close> is the invariant of the class: the in-flight bytes of a route are the sizes
  of exactly the sent packets in the history after the last acknowledged one, and every entry of the
  map from RTP to transport sequence numbers leads to its own packet.
\<close>

section \<open>Routes and packets\<close>

datatype AdapterType =
    ADAPTER_TYPE_UNKNOWN | ADAPTER_TYPE_ETHERNET | ADAPTER_TYPE_WIFI | ADAPTER_TYPE_CELLULAR | ADAPTER_TYPE_VPN
  | ADAPTER_TYPE_LOOPBACK | ADAPTER_TYPE_ANY | ADAPTER_TYPE_CELLULAR_2G | ADAPTER_TYPE_CELLULAR_3G
  | ADAPTER_TYPE_CELLULAR_4G | ADAPTER_TYPE_CELLULAR_5G

record RouteEndpoint =
  re_adapter_type :: AdapterType
  re_adapter_id :: u16
  re_network_id :: u16
  re_uses_turn :: bool

definition RouteEndpoint_init :: RouteEndpoint where
  "RouteEndpoint_init =
     \<lparr>re_adapter_type = ADAPTER_TYPE_UNKNOWN, re_adapter_id = 0, re_network_id = 0, re_uses_turn = False\<rparr>"

record NetworkRoute =
  nr_connected :: bool
  nr_local :: RouteEndpoint
  nr_remote :: RouteEndpoint
  nr_last_sent_packet_id :: int
  nr_packet_overhead :: int

definition NetworkRoute_init :: NetworkRoute where
  "NetworkRoute_init =
     \<lparr>nr_connected = False, nr_local = RouteEndpoint_init, nr_remote = RouteEndpoint_init,
      nr_last_sent_packet_id = - 1, nr_packet_overhead = 0\<rparr>"

record PacedPacketInfo =
  ppi_send_bitrate :: DataRate
  ppi_probe_cluster_id :: int
  ppi_probe_cluster_min_probes :: int
  ppi_probe_cluster_min_bytes :: int
  ppi_probe_cluster_bytes_sent :: int

record SentPacket =
  sp_send_time :: Timestamp
  sp_size :: DataSize
  sp_prior_unacked_data :: DataSize
  sp_pacing_info :: PacedPacketInfo
  sp_audio :: bool
  sp_sequence_number :: int
  sp_data_in_flight :: DataSize

record PacketFeedback =
  pf_creation_time :: Timestamp
  pf_sent :: SentPacket
  pf_receive_time :: Timestamp
  pf_network_route :: NetworkRoute
  pf_ssrc :: u32
  pf_rtp_sequence_number :: u16

record PacketResult =
  pr_sent_packet :: SentPacket
  pr_receive_time :: Timestamp
  pr_ecn :: EcnMarking

definition IsReceived :: "PacketResult \<Rightarrow> bool" where
  "IsReceived r \<longleftrightarrow> \<not> IsPlusInfinity (pr_receive_time r)"

record TransportPacketsFeedback =
  tpf_feedback_time :: Timestamp
  tpf_data_in_flight :: DataSize
  tpf_transport_supports_ecn :: bool
  tpf_packet_feedbacks :: "PacketResult list"

datatype RtpPacketMediaType = kAudio | kVideo | kRetransmission | kForwardErrorCorrection | kPadding

record RtpPacketToSend =
  pts_transport_sequence_number :: "int option"
  pts_size :: nat
  pts_packet_type :: "RtpPacketMediaType option"
  pts_Ssrc :: u32
  pts_SequenceNumber :: u16

record SentPacketInfo =
  spi_packet_id :: int
  spi_send_time_ms :: int
  spi_included_in_feedback :: bool
  spi_included_in_allocation :: bool
  spi_packet_size_bytes :: nat

section \<open>InFlightBytesTracker\<close>

text \<open>The members of a route that \<open>NetworkRouteComparator\<close> compares, in its order.\<close>

type_synonym route_key = "u16 \<times> u16 \<times> u16 \<times> u16 \<times> bool \<times> bool \<times> bool"

definition route_key :: "NetworkRoute \<Rightarrow> route_key" where
  "route_key a =
     (re_network_id (nr_local a), re_network_id (nr_remote a), re_adapter_id (nr_local a), re_adapter_id (nr_remote a),
      re_uses_turn (nr_local a), re_uses_turn (nr_remote a), nr_connected a)"

type_synonym in_flight_map = "(route_key, DataSize) smap"

definition AddInFlightPacketBytes :: "PacketFeedback \<Rightarrow> in_flight_map \<Rightarrow> in_flight_map" where
  "AddInFlightPacketBytes packet m =
     (let k = route_key (pf_network_route packet)
      in case smap_find m k of
           Some v \<Rightarrow> smap_set k (unit_plus v (sp_size (pf_sent packet))) m
         | None \<Rightarrow> smap_set k (sp_size (pf_sent packet)) m)"

definition RemoveInFlightPacketBytes :: "PacketFeedback \<Rightarrow> in_flight_map \<Rightarrow> in_flight_map" where
  "RemoveInFlightPacketBytes packet m =
     (if IsInfinite (sp_send_time (pf_sent packet)) then m
      else
        let k = route_key (pf_network_route packet)
        in case smap_find m k of
             None \<Rightarrow> m
           | Some v \<Rightarrow>
               let v' = unit_minus v (sp_size (pf_sent packet))
               in if IsZero v' then smap_erase k m else smap_set k v' m)"

definition Tracker_GetOutstandingData :: "NetworkRoute \<Rightarrow> in_flight_map \<Rightarrow> DataSize" where
  "Tracker_GetOutstandingData network_route m =
     (case smap_find m (route_key network_route) of Some v \<Rightarrow> v | None \<Rightarrow> 0)"

section \<open>TransportFeedbackAdapter\<close>

type_synonym rtp_key = "u32 \<times> u16"

record TransportFeedbackAdapter =
  tfa_pending_untracked_size :: DataSize
  tfa_last_send_time :: Timestamp
  tfa_last_untracked_send_time :: Timestamp
  tfa_seq_num_unwrapper :: "u16 SeqNumUnwrapper"
  tfa_last_ack_seq_num :: int
  tfa_in_flight :: in_flight_map
  tfa_network_route :: NetworkRoute
  tfa_current_offset :: Timestamp
  tfa_last_transport_feedback_base_time :: Timestamp
  tfa_last_feedback_compact_ntp_time :: "u32 option"
  tfa_rtp_to_transport :: "(rtp_key, int) smap"
  tfa_history :: "(int, PacketFeedback) smap"

definition TransportFeedbackAdapter_init :: TransportFeedbackAdapter where
  "TransportFeedbackAdapter_init =
     \<lparr>tfa_pending_untracked_size = 0, tfa_last_send_time = MinusInfinity, tfa_last_untracked_send_time = MinusInfinity,
      tfa_seq_num_unwrapper = SeqNumUnwrapper_init, tfa_last_ack_seq_num = - 1, tfa_in_flight = [],
      tfa_network_route = NetworkRoute_init, tfa_current_offset = MinusInfinity,
      tfa_last_transport_feedback_base_time = MinusInfinity, tfa_last_feedback_compact_ntp_time = None,
      tfa_rtp_to_transport = [], tfa_history = []\<rparr>"

definition kSendTimeHistoryWindow :: TimeDelta where
  "kSendTimeHistoryWindow = TimeDelta_Seconds 60"

definition pf_key :: "PacketFeedback \<Rightarrow> rtp_key" where
  "pf_key p = (pf_ssrc p, pf_rtp_sequence_number p)"

text \<open>The loop of \<open>AddPacket\<close> that drops packets older than the window from the front of the history.\<close>

fun erase_old :: "Timestamp \<Rightarrow> int \<Rightarrow> (int, PacketFeedback) smap \<Rightarrow> (rtp_key, int) smap \<Rightarrow> in_flight_map \<Rightarrow>
    (int, PacketFeedback) smap \<times> (rtp_key, int) smap \<times> in_flight_map" where
  "erase_old creation_time last_ack [] rtp_map in_flight = ([], rtp_map, in_flight)"
| "erase_old creation_time last_ack ((s, packet) # history) rtp_map in_flight =
     (if Timestamp_minus creation_time (pf_creation_time packet) > kSendTimeHistoryWindow then
        erase_old creation_time last_ack history (smap_erase (pf_key packet) rtp_map)
          (if sp_sequence_number (pf_sent packet) > last_ack then RemoveInFlightPacketBytes packet in_flight else in_flight)
      else ((s, packet) # history, rtp_map, in_flight))"

definition packet_to_add :: "RtpPacketToSend \<Rightarrow> PacedPacketInfo \<Rightarrow> nat \<Rightarrow> Timestamp \<Rightarrow> int \<Rightarrow> NetworkRoute \<Rightarrow> PacketFeedback" where
  "packet_to_add packet_to_send pacing_info overhead_bytes creation_time seq route =
     \<lparr>pf_creation_time = creation_time,
      pf_sent = \<lparr>sp_send_time = PlusInfinity, sp_size = int (pts_size packet_to_send + overhead_bytes),
        sp_prior_unacked_data = 0, sp_pacing_info = pacing_info,
        sp_audio = (pts_packet_type packet_to_send = Some kAudio), sp_sequence_number = seq, sp_data_in_flight = 0\<rparr>,
      pf_receive_time = PlusInfinity, pf_network_route = route, pf_ssrc = pts_Ssrc packet_to_send,
      pf_rtp_sequence_number = pts_SequenceNumber packet_to_send\<rparr>"

definition AddPacket ::
    "RtpPacketToSend \<Rightarrow> PacedPacketInfo \<Rightarrow> nat \<Rightarrow> Timestamp \<Rightarrow> TransportFeedbackAdapter \<Rightarrow> TransportFeedbackAdapter" where
  "AddPacket packet_to_send pacing_info overhead_bytes creation_time a =
     (let (seq, unwrapper) = Unwrap 0 (word_of_int (case pts_transport_sequence_number packet_to_send of None \<Rightarrow> 0 | Some s \<Rightarrow> s))
            (tfa_seq_num_unwrapper a);
          feedback = packet_to_add packet_to_send pacing_info overhead_bytes creation_time seq (tfa_network_route a);
          (history, rtp_map, in_flight) =
            erase_old creation_time (tfa_last_ack_seq_num a) (tfa_history a) (tfa_rtp_to_transport a) (tfa_in_flight a)
      in a\<lparr>tfa_seq_num_unwrapper := unwrapper, tfa_in_flight := in_flight,
           tfa_rtp_to_transport := smap_emplace (pf_key feedback) seq rtp_map,
           tfa_history := smap_emplace seq feedback history\<rparr>)"

definition GetOutstandingData :: "TransportFeedbackAdapter \<Rightarrow> DataSize" where
  "GetOutstandingData a = Tracker_GetOutstandingData (tfa_network_route a) (tfa_in_flight a)"

definition SetNetworkRoute :: "NetworkRoute \<Rightarrow> TransportFeedbackAdapter \<Rightarrow> TransportFeedbackAdapter" where
  "SetNetworkRoute network_route a = a\<lparr>tfa_network_route := network_route\<rparr>"

definition ProcessSentPacket :: "SentPacketInfo \<Rightarrow> TransportFeedbackAdapter \<Rightarrow> SentPacket option \<times> TransportFeedbackAdapter" where
  "ProcessSentPacket sent_packet a =
     (let send_time = TimeDelta_Millis (spi_send_time_ms sent_packet)
      in if spi_included_in_feedback sent_packet \<or> spi_packet_id sent_packet \<noteq> - 1 then
           let (seq, unwrapper) = Unwrap 0 (word_of_int (spi_packet_id sent_packet)) (tfa_seq_num_unwrapper a);
               a1 = a\<lparr>tfa_seq_num_unwrapper := unwrapper\<rparr>
           in case smap_find (tfa_history a) seq of
                None \<Rightarrow> (None, a1)
              | Some packet \<Rightarrow>
                  let packet_retransmit = IsFinite (sp_send_time (pf_sent packet));
                      sent = (pf_sent packet)\<lparr>sp_send_time := send_time\<rparr>;
                      a2 = a1\<lparr>tfa_last_send_time := max (tfa_last_send_time a) send_time\<rparr>;
                      (sent, a3) =
                        (if \<not> IsZero (tfa_pending_untracked_size a)
                         then (sent\<lparr>sp_prior_unacked_data :=
                                 unit_plus (sp_prior_unacked_data sent) (tfa_pending_untracked_size a)\<rparr>,
                               a2\<lparr>tfa_pending_untracked_size := 0\<rparr>)
                         else (sent, a2))
                  in if packet_retransmit
                     then (None, a3\<lparr>tfa_history := smap_set seq (packet\<lparr>pf_sent := sent\<rparr>) (tfa_history a)\<rparr>)
                     else
                       let in_flight = (if sp_sequence_number sent > tfa_last_ack_seq_num a
                             then AddInFlightPacketBytes (packet\<lparr>pf_sent := sent\<rparr>) (tfa_in_flight a)
                             else tfa_in_flight a);
                           sent = sent\<lparr>sp_data_in_flight := Tracker_GetOutstandingData (tfa_network_route a) in_flight\<rparr>
                       in (Some sent, a3\<lparr>tfa_in_flight := in_flight,
                             tfa_history := smap_set seq (packet\<lparr>pf_sent := sent\<rparr>) (tfa_history a)\<rparr>)
         else if spi_included_in_allocation sent_packet then
           (None, a\<lparr>tfa_pending_untracked_size :=
                      unit_plus (tfa_pending_untracked_size a) (int (spi_packet_size_bytes sent_packet)),
                    tfa_last_untracked_send_time := max (tfa_last_untracked_send_time a) send_time\<rparr>)
         else (None, a))"

definition RetrievePacketFeedback ::
    "int \<Rightarrow> bool \<Rightarrow> TransportFeedbackAdapter \<Rightarrow> PacketFeedback option \<times> TransportFeedbackAdapter" where
  "RetrievePacketFeedback transport_seq_num received a =
     (let a1 = (if transport_seq_num > tfa_last_ack_seq_num a
            then a\<lparr>tfa_in_flight := fold RemoveInFlightPacketBytes
                     (map snd (smap_between (tfa_last_ack_seq_num a) transport_seq_num (tfa_history a))) (tfa_in_flight a),
                   tfa_last_ack_seq_num := transport_seq_num\<rparr>
            else a)
      in case smap_find (tfa_history a1) transport_seq_num of
           None \<Rightarrow> (None, a1)
         | Some packet \<Rightarrow>
             if IsInfinite (sp_send_time (pf_sent packet)) then (None, a1)
             else if received then
               (Some packet, a1\<lparr>tfa_rtp_to_transport := smap_erase (pf_key packet) (tfa_rtp_to_transport a1),
                                tfa_history := smap_erase transport_seq_num (tfa_history a1)\<rparr>)
             else (Some packet, a1))"

definition RetrievePacketFeedback_key ::
    "rtp_key \<Rightarrow> bool \<Rightarrow> TransportFeedbackAdapter \<Rightarrow> PacketFeedback option \<times> TransportFeedbackAdapter" where
  "RetrievePacketFeedback_key key received a =
     (case smap_find (tfa_rtp_to_transport a) key of
        None \<Rightarrow> (None, a)
      | Some seq \<Rightarrow> RetrievePacketFeedback seq received a)"

definition ToTransportFeedback ::
    "PacketResult list \<Rightarrow> Timestamp \<Rightarrow> bool \<Rightarrow> TransportFeedbackAdapter \<Rightarrow> TransportPacketsFeedback option" where
  "ToTransportFeedback packet_results feedback_receive_time supports_ecn a =
     (if packet_results = [] then None
      else Some \<lparr>tpf_feedback_time = feedback_receive_time,
        tpf_data_in_flight = Tracker_GetOutstandingData (tfa_network_route a) (tfa_in_flight a),
        tpf_transport_supports_ecn = supports_ecn, tpf_packet_feedbacks = packet_results\<rparr>)"

text \<open>The handler that \<open>ProcessTransportFeedback\<close> passes to \<open>ForAllPackets\<close>, for one call.\<close>

definition transport_feedback_handler ::
    "u16 \<times> TimeDelta \<Rightarrow> PacketResult list \<times> TransportFeedbackAdapter \<Rightarrow> PacketResult list \<times> TransportFeedbackAdapter" where
  "transport_feedback_handler call st =
     (let (sequence_number, delta_since_base) = call; (results, a) = st;
          (seq_num, unwrapper) = Unwrap 0 sequence_number (tfa_seq_num_unwrapper a);
          (packet, a') = RetrievePacketFeedback seq_num (IsFinite delta_since_base) (a\<lparr>tfa_seq_num_unwrapper := unwrapper\<rparr>)
      in case packet of
           None \<Rightarrow> (results, a')
         | Some p \<Rightarrow>
             let receive_time = (if IsFinite delta_since_base
                   then Timestamp_plus (tfa_current_offset a') (RoundDownTo delta_since_base (TimeDelta_Millis 1))
                   else pf_receive_time p)
             in if pf_network_route p = tfa_network_route a'
                then (results @ [\<lparr>pr_sent_packet = pf_sent p, pr_receive_time = receive_time, pr_ecn = kNotEct\<rparr>], a')
                else (results, a'))"

definition ProcessTransportFeedback ::
    "TransportFeedback \<Rightarrow> Timestamp \<Rightarrow> TransportFeedbackAdapter \<Rightarrow> TransportPacketsFeedback option \<times> TransportFeedbackAdapter" where
  "ProcessTransportFeedback feedback feedback_receive_time a =
     (if tf_num_seq_no feedback = 0 then (None, a)
      else
        let offset =
              (if IsInfinite (tfa_last_transport_feedback_base_time a) then feedback_receive_time
               else
                 let delta = RoundDownTo (GetBaseDelta (tfa_last_transport_feedback_base_time a) feedback) (TimeDelta_Millis 1)
                 in if delta < Timestamp_minus 0 (tfa_current_offset a) then feedback_receive_time
                    else Timestamp_plus (tfa_current_offset a) delta);
            a1 = a\<lparr>tfa_current_offset := offset, tfa_last_transport_feedback_base_time := BaseTime feedback\<rparr>;
            (results, a2) = fold transport_feedback_handler (ForAllPackets feedback) ([], a1)
        in (ToTransportFeedback results feedback_receive_time False a2, a2))"

text \<open>One round of the loop of \<open>ProcessCongestionControlFeedback\<close>.\<close>

definition ccfb_packet_handler ::
    "PacketInfo \<Rightarrow> PacketResult list \<times> bool \<times> TransportFeedbackAdapter \<Rightarrow> PacketResult list \<times> bool \<times> TransportFeedbackAdapter" where
  "ccfb_packet_handler info st =
     (let (results, supports_ecn, a) = st;
          (packet, a') = RetrievePacketFeedback_key (pi_ssrc info, pi_sequence_number info)
            (IsFinite (pi_arrival_time_offset info)) a
      in case packet of
           None \<Rightarrow> (results, supports_ecn, a')
         | Some p \<Rightarrow>
             if pf_network_route p \<noteq> tfa_network_route a' then (results, supports_ecn, a')
             else
               (results @ [\<lparr>pr_sent_packet = pf_sent p,
                  pr_receive_time = (if IsFinite (pi_arrival_time_offset info)
                    then Timestamp_minus_delta (tfa_current_offset a') (pi_arrival_time_offset info) else PlusInfinity),
                  pr_ecn = pi_ecn info\<rparr>],
                supports_ecn \<and> (IsFinite (pi_arrival_time_offset info) \<longrightarrow> pi_ecn info \<noteq> kNotEct), a'))"

definition ProcessCongestionControlFeedback ::
    "Ccfb \<Rightarrow> Timestamp \<Rightarrow> TransportFeedbackAdapter \<Rightarrow> TransportPacketsFeedback option \<times> TransportFeedbackAdapter" where
  "ProcessCongestionControlFeedback feedback feedback_receive_time a =
     (if ccfb_packets feedback = [] then (None, a)
      else
        let offset = (if IsInfinite (tfa_current_offset a) then feedback_receive_time else tfa_current_offset a);
            feedback_delta = (case tfa_last_feedback_compact_ntp_time a of
                None \<Rightarrow> 0
              | Some previous \<Rightarrow> CompactNtpIntervalToTimeDelta (ccfb_report_timestamp feedback - previous));
            offset' = (if feedback_delta < 0 then feedback_receive_time else Timestamp_plus offset feedback_delta);
            a1 = a\<lparr>tfa_current_offset := offset',
                   tfa_last_feedback_compact_ntp_time := Some (ccfb_report_timestamp feedback)\<rparr>;
            (results, supports_ecn, a2) = fold ccfb_packet_handler (ccfb_packets feedback) ([], True, a1)
        in (ToTransportFeedback (sort_key (\<lambda>r. sp_sequence_number (pr_sent_packet r)) results)
              feedback_receive_time supports_ecn a2, a2))"

section \<open>In-flight bytes\<close>

definition outstanding :: "route_key \<Rightarrow> in_flight_map \<Rightarrow> DataSize" where
  "outstanding k m = (case smap_find m k of Some v \<Rightarrow> v | None \<Rightarrow> 0)"

text \<open>What a packet contributes to the bytes in flight on a route.\<close>

definition sent_bytes :: "route_key \<Rightarrow> PacketFeedback \<Rightarrow> DataSize" where
  "sent_bytes k p = (if IsFinite (sp_send_time (pf_sent p)) \<and> route_key (pf_network_route p) = k then sp_size (pf_sent p) else 0)"

definition flight_sum :: "route_key \<Rightarrow> int \<Rightarrow> (int, PacketFeedback) smap \<Rightarrow> DataSize" where
  "flight_sum k last_ack h = (\<Sum>e \<leftarrow> h. if fst e > last_ack then sent_bytes k (snd e) else 0)"

text \<open>Sizes are byte counts of packets: far below the infinite value of \<open>DataSize\<close> even in total.\<close>

definition packet_ok :: "int \<Rightarrow> PacketFeedback \<Rightarrow> bool" where
  "packet_ok s p \<longleftrightarrow> sp_sequence_number (pf_sent p) = s \<and> 0 \<le> sp_size (pf_sent p) \<and> sp_size (pf_sent p) \<le> 2 ^ 32"

definition hist_ok :: "(int, PacketFeedback) smap \<Rightarrow> bool" where
  "hist_ok h \<longleftrightarrow> smap_ok h \<and> (\<forall>e \<in> set h. packet_ok (fst e) (snd e))"

definition flight_ok :: "int \<Rightarrow> (int, PacketFeedback) smap \<Rightarrow> in_flight_map \<Rightarrow> bool" where
  "flight_ok last_ack h m \<longleftrightarrow> smap_ok m \<and> (\<forall>k. outstanding k m = flight_sum k last_ack h)"

definition map_ok :: "(int, PacketFeedback) smap \<Rightarrow> (rtp_key, int) smap \<Rightarrow> bool" where
  "map_ok h m \<longleftrightarrow> smap_ok m \<and> (\<forall>e \<in> set m. \<exists>p. smap_find h (snd e) = Some p \<and> pf_key p = fst e)"

definition adapter_ok :: "TransportFeedbackAdapter \<Rightarrow> bool" where
  "adapter_ok a \<longleftrightarrow>
     hist_ok (tfa_history a) \<and> flight_ok (tfa_last_ack_seq_num a) (tfa_history a) (tfa_in_flight a) \<and>
     map_ok (tfa_history a) (tfa_rtp_to_transport a)"

lemma Tracker_outstanding: "Tracker_GetOutstandingData r m = outstanding (route_key r) m"
  by (simp add: Tracker_GetOutstandingData_def outstanding_def)

lemma sent_bytes_bounds: "packet_ok s p \<Longrightarrow> 0 \<le> sent_bytes k p \<and> sent_bytes k p \<le> 2 ^ 32"
  by (simp add: packet_ok_def sent_bytes_def)

lemma flight_sum_Cons:
  "flight_sum k la ((s, p) # h) = (if s > la then sent_bytes k p else 0) + flight_sum k la h"
  by (simp add: flight_sum_def)

lemma flight_sum_bounds:
  assumes "\<forall>e \<in> set h. packet_ok (fst e) (snd e)"
  shows "0 \<le> flight_sum k la h" and "flight_sum k la h \<le> 2 ^ 32 * int (length h)"
proof -
  have "0 \<le> flight_sum k la h \<and> flight_sum k la h \<le> 2 ^ 32 * int (length h)"
    using assms
  proof (induction h)
    case (Cons e h)
    obtain s p where e: "e = (s, p)" by force
    have b: "0 \<le> sent_bytes k p" "sent_bytes k p \<le> 2 ^ 32" using Cons.prems sent_bytes_bounds [of s p k] by (auto simp: e)
    have ih: "0 \<le> flight_sum k la h" "flight_sum k la h \<le> 2 ^ 32 * int (length h)" using Cons by auto
    have n: "2 ^ 32 * int (length (e # h)) = 2 ^ 32 + 2 ^ 32 * int (length h)" by (simp add: algebra_simps)
    show ?case unfolding n unfolding e flight_sum_Cons using b ih by auto
  qed (simp add: flight_sum_def)
  then show "0 \<le> flight_sum k la h" "flight_sum k la h \<le> 2 ^ 32 * int (length h)" by auto
qed

text \<open>How the tracked bytes follow the packets.\<close>

lemma Add_outstanding:
  assumes "smap_ok m" and "0 \<le> outstanding (route_key (pf_network_route p)) m" "outstanding (route_key (pf_network_route p)) m < 2 ^ 62"
    and "0 \<le> sp_size (pf_sent p)" "sp_size (pf_sent p) \<le> 2 ^ 32"
  shows "smap_ok (AddInFlightPacketBytes p m)"
    and "outstanding k (AddInFlightPacketBytes p m) =
      outstanding k m + (if route_key (pf_network_route p) = k then sp_size (pf_sent p) else 0)"
proof -
  show "smap_ok (AddInFlightPacketBytes p m)"
    using assms(1) by (auto simp: AddInFlightPacketBytes_def Let_def split: option.splits)
  have "IsFinite (sp_size (pf_sent p))" using assms(4,5) by (intro finite_bound) auto
  moreover have "IsFinite v" if "smap_find m (route_key (pf_network_route p)) = Some v" for v
    using assms(2,3) that by (intro finite_bound) (auto simp: outstanding_def)
  ultimately show "outstanding k (AddInFlightPacketBytes p m) =
      outstanding k m + (if route_key (pf_network_route p) = k then sp_size (pf_sent p) else 0)"
    by (auto simp: AddInFlightPacketBytes_def Let_def outstanding_def smap_find_set unit_plus_finite split: option.splits)
qed

lemma Remove_outstanding:
  assumes "smap_ok m" and ok: "packet_ok s p"
    and "sent_bytes (route_key (pf_network_route p)) p \<le> outstanding (route_key (pf_network_route p)) m"
    and "outstanding (route_key (pf_network_route p)) m < 2 ^ 62"
  shows "smap_ok (RemoveInFlightPacketBytes p m)"
    and "outstanding k (RemoveInFlightPacketBytes p m) = outstanding k m - sent_bytes k p"
proof -
  let ?k = "route_key (pf_network_route p)"
  show "smap_ok (RemoveInFlightPacketBytes p m)"
    using assms(1) by (auto simp: RemoveInFlightPacketBytes_def Let_def split: option.splits)
  have size: "0 \<le> sp_size (pf_sent p)" "sp_size (pf_sent p) \<le> 2 ^ 32" using ok by (auto simp: packet_ok_def)
  show "outstanding k (RemoveInFlightPacketBytes p m) = outstanding k m - sent_bytes k p"
  proof (cases "IsFinite (sp_send_time (pf_sent p))")
    case False
    then show ?thesis by (simp add: RemoveInFlightPacketBytes_def sent_bytes_def IsFinite_def)
  next
    case True
    then have b: "sent_bytes j p = (if ?k = j then sp_size (pf_sent p) else 0)" for j by (simp add: sent_bytes_def)
    show ?thesis
    proof (cases "smap_find m ?k")
      case None
      then have "sp_size (pf_sent p) = 0" using assms(3) size by (simp add: b outstanding_def)
      then show ?thesis using True None by (simp add: RemoveInFlightPacketBytes_def IsFinite_def b)
    next
      case (Some v)
      then have "sp_size (pf_sent p) \<le> v" "v < 2 ^ 62" using assms(3,4) by (simp_all add: b outstanding_def)
      then have "unit_minus v (sp_size (pf_sent p)) = v - sp_size (pf_sent p)"
        using size by (intro unit_minus_finite finite_bound) auto
      then show ?thesis
        using True Some
        by (auto simp: RemoveInFlightPacketBytes_def IsFinite_def b Let_def outstanding_def smap_find_set smap_find_erase IsZero_def)
    qed
  qed
qed

lemma fold_Remove_outstanding:
  assumes "smap_ok m" and "\<forall>e \<in> set es. packet_ok (fst e) (snd e)"
    and "\<And>k. (\<Sum>e \<leftarrow> es. sent_bytes k (snd e)) \<le> outstanding k m" and "\<And>k. outstanding k m < 2 ^ 62"
  shows "smap_ok (fold RemoveInFlightPacketBytes (map snd es) m) \<and>
    outstanding k (fold RemoveInFlightPacketBytes (map snd es) m) = outstanding k m - (\<Sum>e \<leftarrow> es. sent_bytes k (snd e))"
  using assms
proof (induction es arbitrary: m)
  case (Cons e es)
  obtain s p where e: "e = (s, p)" by force
  have ok: "packet_ok s p" using Cons.prems(2) by (simp add: e)
  have nonneg: "0 \<le> (\<Sum>e \<leftarrow> es. sent_bytes j (snd e))" for j
    by (rule sum_list_nonneg) (use Cons.prems(2) sent_bytes_bounds [of _ _ j] in auto)
  have le: "sent_bytes j p + (\<Sum>e \<leftarrow> es. sent_bytes j (snd e)) \<le> outstanding j m" for j
    using Cons.prems(3) [of j] by (simp add: e)
  then have "sent_bytes (route_key (pf_network_route p)) p \<le> outstanding (route_key (pf_network_route p)) m"
    using nonneg [of "route_key (pf_network_route p)"] by (metis add_increasing2 le_add_same_cancel1 order_trans)
  note rm = Remove_outstanding [OF Cons.prems(1) ok this Cons.prems(4)]
  have b: "0 \<le> sent_bytes j p" for j using sent_bytes_bounds [OF ok] by blast
  have "smap_ok (fold RemoveInFlightPacketBytes (map snd es) (RemoveInFlightPacketBytes p m)) \<and>
      outstanding k (fold RemoveInFlightPacketBytes (map snd es) (RemoveInFlightPacketBytes p m)) =
      outstanding k (RemoveInFlightPacketBytes p m) - (\<Sum>e \<leftarrow> es. sent_bytes k (snd e))"
  proof (rule Cons.IH [OF rm(1)])
    show "(\<Sum>e \<leftarrow> es. sent_bytes j (snd e)) \<le> outstanding j (RemoveInFlightPacketBytes p m)" for j
      using le [of j] unfolding rm(2) by simp
    show "outstanding j (RemoveInFlightPacketBytes p m) < 2 ^ 62" for j
      using Cons.prems(4) [of j] b [of j] unfolding rm(2) by simp
  qed (use Cons.prems(2) in auto)
  then show ?case unfolding rm(2) by (simp add: e)
qed simp

lemma flight_sum_split:
  assumes "a \<le> b"
  shows "flight_sum k a h = flight_sum k b h + (\<Sum>e \<leftarrow> smap_between a b h. sent_bytes k (snd e))"
  using assms by (induction h) (auto simp: flight_sum_def smap_between_def)

lemma flight_okD: "flight_ok la h m \<Longrightarrow> outstanding k m = flight_sum k la h" "flight_ok la h m \<Longrightarrow> smap_ok m"
  unfolding flight_ok_def by blast+

lemma flight_okI: "smap_ok m \<Longrightarrow> (\<And>k. outstanding k m = flight_sum k la h) \<Longrightarrow> flight_ok la h m"
  unfolding flight_ok_def by blast

lemma flight_ok_bounds:
  assumes "hist_ok h" and "flight_ok la h m" and "length h \<le> 2 ^ 29"
  shows "0 \<le> outstanding k m" and "outstanding k m < 2 ^ 62"
proof -
  have p: "\<forall>e \<in> set h. packet_ok (fst e) (snd e)" using assms(1) by (simp add: hist_ok_def)
  have "(2 :: int) ^ 32 * int (length h) \<le> 2 ^ 32 * 2 ^ 29" using assms(3) by simp
  then show "0 \<le> outstanding k m" "outstanding k m < 2 ^ 62"
    using flight_sum_bounds [OF p, of k la] flight_okD(1) [OF assms(2), of k] by auto
qed

lemma flight_ok_remove:
  assumes h: "hist_ok h" and f: "flight_ok la h m" and n: "length h \<le> 2 ^ 29" and es: "set es \<subseteq> set h"
    and sum: "\<And>k. flight_sum k la h = flight_sum k la' h' + (\<Sum>e \<leftarrow> es. sent_bytes k (snd e))" and h': "hist_ok h'"
  shows "flight_ok la' h' (fold RemoveInFlightPacketBytes (map snd es) m)"
proof -
  have p: "\<forall>e \<in> set h'. packet_ok (fst e) (snd e)" using h' by (simp add: hist_ok_def)
  have le: "(\<Sum>e \<leftarrow> es. sent_bytes k (snd e)) \<le> outstanding k m" for k
    using flight_okD(1) [OF f, of k] sum [of k] flight_sum_bounds(1) [OF p, of k la'] by simp
  have "\<forall>e \<in> set es. packet_ok (fst e) (snd e)" using h es by (auto simp: hist_ok_def)
  moreover have "smap_ok m" using f by (rule flight_okD)
  ultimately have "smap_ok (fold RemoveInFlightPacketBytes (map snd es) m) \<and>
      outstanding k (fold RemoveInFlightPacketBytes (map snd es) m) = outstanding k m - (\<Sum>e \<leftarrow> es. sent_bytes k (snd e))" for k
    using le flight_ok_bounds(2) [OF h f n] by (intro fold_Remove_outstanding) auto
  then show ?thesis using flight_okD(1) [OF f] sum by (intro flight_okI) auto
qed

section \<open>The operations keep the invariant\<close>

lemma hist_ok_Cons: "hist_ok ((s, p) # h) \<longleftrightarrow> (\<forall>e \<in> set h. s < fst e) \<and> packet_ok s p \<and> hist_ok h"
  by (auto simp: hist_ok_def smap_ok_Cons)

lemma map_ok_drop:
  assumes "hist_ok ((s, p) # h)" and "map_ok ((s, p) # h) m"
  shows "map_ok h (smap_erase (pf_key p) m)"
  using assms by (fastforce simp: map_ok_def set_smap_erase smap_find_def split: if_splits)

lemma erase_old_ok:
  assumes "hist_ok h" and "map_ok h m" and "flight_ok la h f" and "length h \<le> 2 ^ 29"
    and "erase_old t la h m f = (h', m', f')"
  shows "hist_ok h' \<and> map_ok h' m' \<and> flight_ok la h' f' \<and> (\<exists>es. h = es @ h')"
  using assms
proof (induction t la h m f rule: erase_old.induct)
  case (2 t la s p h m f)
  show ?case
  proof (cases "Timestamp_minus t (pf_creation_time p) > kSendTimeHistoryWindow")
    case True
    let ?f = "if sp_sequence_number (pf_sent p) > la then RemoveInFlightPacketBytes p f else f"
    have h: "hist_ok h" and p: "packet_ok s p" using 2(2) by (auto simp: hist_ok_Cons)
    have s: "sp_sequence_number (pf_sent p) = s" using p by (simp add: packet_ok_def)
    have "flight_ok la h (fold RemoveInFlightPacketBytes (map snd (if s > la then [(s, p)] else [])) f)"
      by (rule flight_ok_remove [OF 2(2) 2(4) 2(5) _ _ h]) (auto simp: flight_sum_Cons)
    then have f: "flight_ok la h ?f" by (simp add: s split: if_splits)
    have "hist_ok h' \<and> map_ok h' m' \<and> flight_ok la h' f' \<and> (\<exists>es. h = es @ h')"
      by (rule 2(1) [OF True h map_ok_drop [OF 2(2,3)] f]) (use 2(5,6) True in auto)
    then show ?thesis by (metis append_Cons)
  next
    case False
    then show ?thesis using 2 by auto
  qed
qed auto

lemma flight_sum_set:
  assumes "smap_ok h"
  shows "flight_sum k la (smap_set s p h) = flight_sum k la h -
     (case smap_find h s of None \<Rightarrow> 0 | Some q \<Rightarrow> if s > la then sent_bytes k q else 0) + (if s > la then sent_bytes k p else 0)"
  unfolding flight_sum_def sum_smap_set [OF assms] by (simp split: option.splits)

lemma flight_sum_erase:
  assumes "smap_ok h"
  shows "flight_sum k la (smap_erase s h) = flight_sum k la h -
     (case smap_find h s of None \<Rightarrow> 0 | Some q \<Rightarrow> if s > la then sent_bytes k q else 0)"
  unfolding flight_sum_def sum_smap_erase [OF assms] by (simp split: option.splits)

lemma hist_ok_set: "hist_ok h \<Longrightarrow> packet_ok s p \<Longrightarrow> hist_ok (smap_set s p h)"
  by (auto simp: hist_ok_def set_smap_set)

lemma hist_ok_find: "hist_ok h \<Longrightarrow> smap_find h s = Some p \<Longrightarrow> packet_ok s p"
  by (fastforce simp: hist_ok_def dest: smap_find_in)

lemma sent_bytes_unsent: "\<not> IsFinite (sp_send_time (pf_sent p)) \<Longrightarrow> sent_bytes k p = 0"
  by (simp add: sent_bytes_def)

definition added_seq :: "RtpPacketToSend \<Rightarrow> TransportFeedbackAdapter \<Rightarrow> int" where
  "added_seq p a = fst (Unwrap 0 (word_of_int (case pts_transport_sequence_number p of None \<Rightarrow> 0 | Some s \<Rightarrow> s)) (tfa_seq_num_unwrapper a))"

lemma AddPacket_ok:
  assumes ok: "adapter_ok a" and n: "length (tfa_history a) \<le> 2 ^ 29" and fresh: "smap_find (tfa_history a) (added_seq p a) = None"
    and size: "pts_size p + overhead \<le> 2 ^ 32"
  shows "adapter_ok (AddPacket p info overhead t a)" and "length (tfa_history (AddPacket p info overhead t a)) \<le> Suc (length (tfa_history a))"
proof -
  let ?a = "AddPacket p info overhead t a"
  obtain seq u where u: "Unwrap 0 (word_of_int (case pts_transport_sequence_number p of None \<Rightarrow> 0 | Some s \<Rightarrow> s))
      (tfa_seq_num_unwrapper a) = (seq, u)" by fastforce
  obtain h m f where e: "erase_old t (tfa_last_ack_seq_num a) (tfa_history a) (tfa_rtp_to_transport a) (tfa_in_flight a) = (h, m, f)"
    using prod_cases3 by blast
  let ?p = "packet_to_add p info overhead t seq (tfa_network_route a)"
  have A: "tfa_history ?a = smap_emplace seq ?p h" "tfa_rtp_to_transport ?a = smap_emplace (pf_key ?p) seq m"
      "tfa_in_flight ?a = f" "tfa_last_ack_seq_num ?a = tfa_last_ack_seq_num a"
    by (simp_all add: AddPacket_def u e Let_def)
  obtain es where o: "hist_ok h" "map_ok h m" "flight_ok (tfa_last_ack_seq_num a) h f" "tfa_history a = es @ h"
    using erase_old_ok [OF _ _ _ n e] ok by (auto simp: adapter_ok_def)
  have "smap_find (tfa_history a) seq = None" using fresh u by (simp add: added_seq_def)
  then have none: "smap_find h seq = None" by (auto simp: o(4) smap_find_def map_of_eq_None_iff map_add_None)
  have H: "tfa_history ?a = smap_set seq ?p h" unfolding A(1) by (simp add: smap_emplace_def none)
  have p: "packet_ok seq ?p" using size by (simp add: packet_ok_def packet_to_add_def)
  have z: "sent_bytes k ?p = 0" for k by (rule sent_bytes_unsent) (simp add: packet_to_add_def infinity_defs)
  have sh: "smap_ok h" using o(1) by (simp add: hist_ok_def)
  have "flight_ok (tfa_last_ack_seq_num a) (tfa_history ?a) f"
    using flight_okD [OF o(3)] flight_sum_set [OF sh] none z by (intro flight_okI) (simp_all add: H)
  moreover have "map_ok (tfa_history ?a) (tfa_rtp_to_transport ?a)"
  proof -
    have "\<exists>q. smap_find (smap_set seq ?p h) x = Some q \<and> pf_key q = k" if "smap_find h x = Some q" "pf_key q = k" for x k q
      using that none by (auto simp: smap_find_set)
    then have "map_ok (smap_set seq ?p h) m" using o(2) by (fastforce simp: map_ok_def)
    then show ?thesis
      unfolding A(2) H by (auto simp: map_ok_def smap_emplace_def set_smap_set smap_find_set)
  qed
  ultimately show "adapter_ok ?a" using hist_ok_set [OF o(1) p] by (simp only: adapter_ok_def A(2-4) H simp_thms)
  have "length (smap_set s q x) \<le> Suc (length x)" for s and q :: PacketFeedback and x
    by (induction s q x rule: smap_set.induct) auto
  then show "length (tfa_history ?a) \<le> Suc (length (tfa_history a))"
    unfolding H o(4) by (metis add_leD2 le_trans length_append not_less_eq_eq le_add2 Suc_le_mono)
qed

lemma AddInFlight_update:
  "sp_size sent = sp_size (pf_sent p) \<Longrightarrow> AddInFlightPacketBytes (p\<lparr>pf_sent := sent\<rparr>) m = AddInFlightPacketBytes p m"
  by (simp add: AddInFlightPacketBytes_def Let_def split: option.splits)

text \<open>What \<open>ProcessSentPacket\<close> does to a packet of the history.\<close>

lemma ProcessSentPacket_found:
  assumes "spi_included_in_feedback s \<or> spi_packet_id s \<noteq> - 1"
    and "Unwrap 0 (word_of_int (spi_packet_id s)) (tfa_seq_num_unwrapper a) = (seq, u)"
    and "smap_find (tfa_history a) seq = Some p" and "packet_ok seq p"
  obtains sent where "sp_send_time sent = TimeDelta_Millis (spi_send_time_ms s)" "sp_size sent = sp_size (pf_sent p)"
    "sp_sequence_number sent = seq"
    "tfa_history (snd (ProcessSentPacket s a)) = smap_set seq (p\<lparr>pf_sent := sent\<rparr>) (tfa_history a)"
    "tfa_in_flight (snd (ProcessSentPacket s a)) =
       (if \<not> IsFinite (sp_send_time (pf_sent p)) \<and> seq > tfa_last_ack_seq_num a
        then AddInFlightPacketBytes p (tfa_in_flight a) else tfa_in_flight a)"
    "tfa_rtp_to_transport (snd (ProcessSentPacket s a)) = tfa_rtp_to_transport a"
    "tfa_last_ack_seq_num (snd (ProcessSentPacket s a)) = tfa_last_ack_seq_num a"
    "tfa_network_route (snd (ProcessSentPacket s a)) = tfa_network_route a"
    "fst (ProcessSentPacket s a) = (if IsFinite (sp_send_time (pf_sent p)) then None else Some sent)"
    "\<not> IsFinite (sp_send_time (pf_sent p)) \<Longrightarrow>
       sp_data_in_flight sent = outstanding (route_key (tfa_network_route a)) (tfa_in_flight (snd (ProcessSentPacket s a)))"
proof -
  have seq: "sp_sequence_number (pf_sent p) = seq" using assms(4) by (simp add: packet_ok_def)
  define s1 where "s1 = (pf_sent p)\<lparr>sp_send_time := TimeDelta_Millis (spi_send_time_ms s)\<rparr>"
  define s2 where "s2 = (if IsZero (tfa_pending_untracked_size a) then s1
    else s1\<lparr>sp_prior_unacked_data := unit_plus (sp_prior_unacked_data s1) (tfa_pending_untracked_size a)\<rparr>)"
  define m where "m = (if seq > tfa_last_ack_seq_num a then AddInFlightPacketBytes p (tfa_in_flight a) else tfa_in_flight a)"
  define sent where "sent = (if IsFinite (sp_send_time (pf_sent p)) then s2
    else s2\<lparr>sp_data_in_flight := outstanding (route_key (tfa_network_route a)) m\<rparr>)"
  have s2: "sp_send_time s2 = TimeDelta_Millis (spi_send_time_ms s)" "sp_size s2 = sp_size (pf_sent p)" "sp_sequence_number s2 = seq"
    by (simp_all add: s2_def s1_def seq)
  obtain x y where P: "ProcessSentPacket s a =
      (if IsFinite (sp_send_time (pf_sent p)) then None else Some sent,
       a\<lparr>tfa_seq_num_unwrapper := u, tfa_last_send_time := x, tfa_pending_untracked_size := y,
         tfa_in_flight := (if IsFinite (sp_send_time (pf_sent p)) then tfa_in_flight a else m),
         tfa_history := smap_set seq (p\<lparr>pf_sent := sent\<rparr>) (tfa_history a)\<rparr>)"
  proof
    let ?y = "if IsZero (tfa_pending_untracked_size a) then tfa_pending_untracked_size a else 0"
    let ?x = "max (tfa_last_send_time a) (TimeDelta_Millis (spi_send_time_ms s))"
    have a: "(if \<not> IsZero (tfa_pending_untracked_size a)
        then (s1\<lparr>sp_prior_unacked_data := unit_plus (sp_prior_unacked_data s1) (tfa_pending_untracked_size a)\<rparr>,
              b\<lparr>tfa_pending_untracked_size := 0\<rparr>) else (s1, b)) =
        (s2, b\<lparr>tfa_pending_untracked_size := if IsZero (tfa_pending_untracked_size a) then tfa_pending_untracked_size b else 0\<rparr>)"
      for b by (simp add: s2_def)
    show "ProcessSentPacket s a =
      (if IsFinite (sp_send_time (pf_sent p)) then None else Some sent,
       a\<lparr>tfa_seq_num_unwrapper := u, tfa_last_send_time := ?x, tfa_pending_untracked_size := ?y,
         tfa_in_flight := (if IsFinite (sp_send_time (pf_sent p)) then tfa_in_flight a else m),
         tfa_history := smap_set seq (p\<lparr>pf_sent := sent\<rparr>) (tfa_history a)\<rparr>)"
      unfolding ProcessSentPacket_def Let_def assms(2) split_conv assms(3) option.case s1_def [symmetric] a if_P [OF assms(1)]
      by (simp add: s2 AddInFlight_update m_def sent_def Tracker_outstanding)
  qed
  show thesis
    by (rule that [of sent]) (simp_all add: P sent_def s2 m_def)
qed

lemma map_ok_set:
  assumes "map_ok h m" and "smap_find h s = Some p" and "pf_key q = pf_key p"
  shows "map_ok (smap_set s q h) m"
  using assms by (fastforce simp: map_ok_def smap_find_set)

lemma ProcessSentPacket_ok:
  assumes ok: "adapter_ok a" and n: "length (tfa_history a) \<le> 2 ^ 29" and t: "\<bar>spi_send_time_ms s\<bar> < 2 ^ 40"
  shows "adapter_ok (snd (ProcessSentPacket s a))"
    and "fst ` set (tfa_history (snd (ProcessSentPacket s a))) = fst ` set (tfa_history a)"
proof -
  obtain seq u where u: "Unwrap 0 (word_of_int (spi_packet_id s)) (tfa_seq_num_unwrapper a) = (seq, u)" by fastforce
  have h: "hist_ok (tfa_history a)" "smap_ok (tfa_history a)"
    and f: "flight_ok (tfa_last_ack_seq_num a) (tfa_history a) (tfa_in_flight a)"
    and m: "map_ok (tfa_history a) (tfa_rtp_to_transport a)"
    using ok by (auto simp: adapter_ok_def hist_ok_def)
  have "adapter_ok (snd (ProcessSentPacket s a)) \<and>
      fst ` set (tfa_history (snd (ProcessSentPacket s a))) = fst ` set (tfa_history a)"
  proof (cases "(spi_included_in_feedback s \<or> spi_packet_id s \<noteq> - 1) \<and> smap_find (tfa_history a) seq \<noteq> None")
    case False
    then show ?thesis using ok u by (auto simp: ProcessSentPacket_def adapter_ok_def Let_def)
  next
    case True
    then obtain p where p: "smap_find (tfa_history a) seq = Some p" by blast
    have pk: "packet_ok seq p" using hist_ok_find [OF h(1) p] .
    have fin: "IsFinite (TimeDelta_Millis (spi_send_time_ms s))"
      using t by (intro finite_bound) (simp add: TimeDelta_Millis_def FromFraction_def)
    obtain sent where b: "sp_send_time sent = TimeDelta_Millis (spi_send_time_ms s)" "sp_size sent = sp_size (pf_sent p)"
        "sp_sequence_number sent = seq"
        "tfa_history (snd (ProcessSentPacket s a)) = smap_set seq (p\<lparr>pf_sent := sent\<rparr>) (tfa_history a)"
        "tfa_in_flight (snd (ProcessSentPacket s a)) =
           (if \<not> IsFinite (sp_send_time (pf_sent p)) \<and> seq > tfa_last_ack_seq_num a
            then AddInFlightPacketBytes p (tfa_in_flight a) else tfa_in_flight a)"
        "tfa_rtp_to_transport (snd (ProcessSentPacket s a)) = tfa_rtp_to_transport a"
        "tfa_last_ack_seq_num (snd (ProcessSentPacket s a)) = tfa_last_ack_seq_num a"
      using ProcessSentPacket_found [OF _ u p pk] True by metis
    let ?p = "p\<lparr>pf_sent := sent\<rparr>"
    have p': "packet_ok seq ?p" using pk b(2,3) by (simp add: packet_ok_def)
    have sb: "sent_bytes k ?p = (if route_key (pf_network_route p) = k then sp_size (pf_sent p) else 0)" for k
      using fin b(1,2) by (simp add: sent_bytes_def)
    have so: "sent_bytes k p = (if IsFinite (sp_send_time (pf_sent p)) then sent_bytes k ?p else 0)" for k
      unfolding sb by (simp add: sent_bytes_def)
    note bd = flight_ok_bounds [OF h(1) f n]
    note ad = Add_outstanding [OF flight_okD(2) [OF f] bd, of p]
    have "flight_ok (tfa_last_ack_seq_num a) (smap_set seq ?p (tfa_history a)) (tfa_in_flight (snd (ProcessSentPacket s a)))"
      unfolding b(5)
      by (rule flight_okI)
        (use ad pk flight_okD [OF f] in \<open>auto simp: packet_ok_def flight_sum_set [OF h(2)] p sb so\<close>)
    moreover have "map_ok (smap_set seq ?p (tfa_history a)) (tfa_rtp_to_transport a)"
      by (rule map_ok_set [OF m p]) (simp add: pf_key_def)
    moreover have "seq \<in> fst ` set (tfa_history a)" using smap_find_in [OF p] by force
    ultimately show ?thesis
      using hist_ok_set [OF h(1) p'] smap_set_keys [OF h(2), of seq ?p] by (auto simp: adapter_ok_def b)
  qed
  then show "adapter_ok (snd (ProcessSentPacket s a))"
    "fst ` set (tfa_history (snd (ProcessSentPacket s a))) = fst ` set (tfa_history a)" by blast+
qed

lemma RetrievePacketFeedback_ok:
  assumes ok: "adapter_ok a" and n: "length (tfa_history a) \<le> 2 ^ 29" and r: "RetrievePacketFeedback s received a = (p, b)"
  shows "adapter_ok b" and "set (tfa_history b) \<subseteq> set (tfa_history a)" and "length (tfa_history b) \<le> length (tfa_history a)"
    and "tfa_network_route b = tfa_network_route a" and "tfa_current_offset b = tfa_current_offset a"
    and "p = Some q \<Longrightarrow> smap_find (tfa_history a) s = Some q \<and> IsFinite (sp_send_time (pf_sent q))"
    and "tfa_history b = (if received \<and> p \<noteq> None then smap_erase s (tfa_history a) else tfa_history a)"
    and "tfa_rtp_to_transport b = (case p of Some q \<Rightarrow> if received then smap_erase (pf_key q) (tfa_rtp_to_transport a) else tfa_rtp_to_transport a
      | None \<Rightarrow> tfa_rtp_to_transport a)"
    and "smap_find (tfa_history a) s = Some q \<Longrightarrow> IsFinite (sp_send_time (pf_sent q)) \<Longrightarrow> p = Some q"
proof -
  let ?la = "tfa_last_ack_seq_num a" and ?h = "tfa_history a"
  define a1 where "a1 = (if s > ?la
      then a\<lparr>tfa_in_flight := fold RemoveInFlightPacketBytes (map snd (smap_between ?la s ?h)) (tfa_in_flight a),
             tfa_last_ack_seq_num := s\<rparr> else a)"
  have h: "hist_ok ?h" "smap_ok ?h" and f: "flight_ok ?la ?h (tfa_in_flight a)" and m: "map_ok ?h (tfa_rtp_to_transport a)"
    using ok by (auto simp: adapter_ok_def hist_ok_def)
  have a1: "tfa_history a1 = ?h" "tfa_rtp_to_transport a1 = tfa_rtp_to_transport a" "tfa_network_route a1 = tfa_network_route a"
      "tfa_current_offset a1 = tfa_current_offset a" "s \<le> tfa_last_ack_seq_num a1"
    by (auto simp: a1_def)
  have f1: "flight_ok (tfa_last_ack_seq_num a1) ?h (tfa_in_flight a1)"
  proof (cases "s > ?la")
    case True
    have "flight_ok s ?h (fold RemoveInFlightPacketBytes (map snd (smap_between ?la s ?h)) (tfa_in_flight a))"
      by (rule flight_ok_remove [OF h(1) f n _ _ h(1)])
        (use True flight_sum_split [of ?la s] in \<open>auto simp: smap_between_def\<close>)
    then show ?thesis using True by (simp add: a1_def)
  qed (use f in \<open>simp add: a1_def\<close>)
  have R: "(p, b) = (case smap_find ?h s of None \<Rightarrow> (None, a1)
      | Some packet \<Rightarrow> if IsInfinite (sp_send_time (pf_sent packet)) then (None, a1)
          else if received then (Some packet, a1\<lparr>tfa_rtp_to_transport := smap_erase (pf_key packet) (tfa_rtp_to_transport a),
            tfa_history := smap_erase s ?h\<rparr>) else (Some packet, a1))"
    using r unfolding RetrievePacketFeedback_def Let_def a1_def [symmetric] a1(1,2) by simp
  have hb: "tfa_history b = (if received \<and> p \<noteq> None then smap_erase s ?h else ?h)"
    using R a1 by (auto split: option.splits if_splits)
  then show "tfa_history b = (if received \<and> p \<noteq> None then smap_erase s ?h else ?h)" .
  show mb: "tfa_rtp_to_transport b = (case p of Some q \<Rightarrow> if received then smap_erase (pf_key q) (tfa_rtp_to_transport a) else tfa_rtp_to_transport a
      | None \<Rightarrow> tfa_rtp_to_transport a)"
    using R a1 by (auto split: option.splits if_splits)
  show rb: "tfa_network_route b = tfa_network_route a" "tfa_current_offset b = tfa_current_offset a"
    using R a1 by (auto split: option.splits if_splits)
  show pq: "p = Some q \<Longrightarrow> smap_find ?h s = Some q \<and> IsFinite (sp_send_time (pf_sent q))" for q
    using R by (auto simp: IsFinite_def split: option.splits if_splits)
  show "smap_find ?h s = Some q \<Longrightarrow> IsFinite (sp_send_time (pf_sent q)) \<Longrightarrow> p = Some q"
    using R by (auto simp: IsFinite_def split: if_splits)
  show "set (tfa_history b) \<subseteq> set ?h" "length (tfa_history b) \<le> length ?h"
    unfolding hb by (auto simp: smap_erase_def)
  have fb: "tfa_in_flight b = tfa_in_flight a1" "tfa_last_ack_seq_num b = tfa_last_ack_seq_num a1"
    using R by (auto split: option.splits if_splits)
  have "hist_ok (tfa_history b)" unfolding hb using h by (auto simp: hist_ok_def set_smap_erase)
  moreover have "flight_ok (tfa_last_ack_seq_num b) (tfa_history b) (tfa_in_flight b)"
    unfolding fb hb using flight_okD [OF f1] a1(5) flight_sum_erase [OF h(2)]
    by (intro flight_okI) (auto split: option.splits)
  moreover have "map_ok (tfa_history b) (tfa_rtp_to_transport b)"
  proof (cases p)
    case (Some q)
    show ?thesis
      unfolding hb mb using m pq [OF Some] Some
      by (fastforce simp: map_ok_def set_smap_erase smap_find_erase)
  qed (use m hb mb in simp)
  ultimately show "adapter_ok b" by (simp add: adapter_ok_def)
qed

lemma RetrieveKey_ok:
  assumes "adapter_ok a" and "length (tfa_history a) \<le> 2 ^ 29" and "RetrievePacketFeedback_key k received a = (p, b)"
  shows "adapter_ok b \<and> set (tfa_history b) \<subseteq> set (tfa_history a) \<and> length (tfa_history b) \<le> length (tfa_history a) \<and>
    tfa_network_route b = tfa_network_route a"
proof (cases "smap_find (tfa_rtp_to_transport a) k")
  case None
  then show ?thesis using assms by (simp add: RetrievePacketFeedback_key_def)
next
  case (Some s)
  then have "RetrievePacketFeedback s received a = (p, b)" using assms(3) by (simp add: RetrievePacketFeedback_key_def)
  note R = RetrievePacketFeedback_ok [OF assms(1,2) this]
  show ?thesis using R(1-4) by blast
qed

lemma adapter_ok_other:
  "adapter_ok (a\<lparr>tfa_seq_num_unwrapper := u\<rparr>) = adapter_ok a" "adapter_ok (a\<lparr>tfa_network_route := r\<rparr>) = adapter_ok a"
  "adapter_ok (a\<lparr>tfa_current_offset := t, tfa_last_transport_feedback_base_time := t'\<rparr>) = adapter_ok a"
  "adapter_ok (a\<lparr>tfa_current_offset := t, tfa_last_feedback_compact_ntp_time := n\<rparr>) = adapter_ok a"
  by (simp_all add: adapter_ok_def)

definition steps_from :: "TransportFeedbackAdapter \<Rightarrow> TransportFeedbackAdapter \<Rightarrow> bool" where
  "steps_from a b \<longleftrightarrow> adapter_ok b \<and> set (tfa_history b) \<subseteq> set (tfa_history a) \<and>
     length (tfa_history b) \<le> length (tfa_history a) \<and> tfa_network_route b = tfa_network_route a"

lemma transport_handler_ok:
  assumes "adapter_ok a" and "length (tfa_history a) \<le> 2 ^ 29"
  shows "steps_from a (snd (transport_feedback_handler c (rs, a)))"
proof -
  obtain s d where c: "c = (s, d)" by force
  obtain n u where u: "Unwrap 0 s (tfa_seq_num_unwrapper a) = (n, u)" by fastforce
  obtain p b where r: "RetrievePacketFeedback n (IsFinite d) (a\<lparr>tfa_seq_num_unwrapper := u\<rparr>) = (p, b)" by fastforce
  have "adapter_ok (a\<lparr>tfa_seq_num_unwrapper := u\<rparr>)" "length (tfa_history (a\<lparr>tfa_seq_num_unwrapper := u\<rparr>)) \<le> 2 ^ 29"
    using assms by (simp_all add: adapter_ok_other)
  note R = RetrievePacketFeedback_ok [OF this r]
  have "snd (transport_feedback_handler c (rs, a)) = b"
    by (simp add: transport_feedback_handler_def c u r split: option.splits)
  then show ?thesis using R(1-4) by (simp add: steps_from_def)
qed

lemma ccfb_handler_ok:
  assumes "adapter_ok a" and "length (tfa_history a) \<le> 2 ^ 29"
  shows "steps_from a (snd (snd (ccfb_packet_handler i (rs, e, a))))"
proof -
  obtain p b where r: "RetrievePacketFeedback_key (pi_ssrc i, pi_sequence_number i) (IsFinite (pi_arrival_time_offset i)) a = (p, b)"
    by fastforce
  have "snd (snd (ccfb_packet_handler i (rs, e, a))) = b"
    by (simp add: ccfb_packet_handler_def r split: option.splits)
  then show ?thesis using RetrieveKey_ok [OF assms r] by (simp add: steps_from_def)
qed

lemma steps_from_trans: "steps_from a b \<Longrightarrow> steps_from b c \<Longrightarrow> steps_from a c"
  by (auto simp: steps_from_def)

lemma fold_steps_from:
  assumes step: "\<And>x st. adapter_ok (get st) \<Longrightarrow> length (tfa_history (get st)) \<le> 2 ^ 29 \<Longrightarrow> steps_from (get st) (get (f x st))"
    and "adapter_ok (get st)" and "length (tfa_history (get st)) \<le> 2 ^ 29"
  shows "steps_from (get st) (get (fold f xs st))"
  using assms(2,3)
proof (induction xs arbitrary: st)
  case (Cons x xs)
  have 1: "steps_from (get st) (get (f x st))" by (rule step [OF Cons.prems])
  then have "adapter_ok (get (f x st))" "length (tfa_history (get (f x st))) \<le> 2 ^ 29"
    using Cons.prems by (auto simp: steps_from_def)
  from steps_from_trans [OF 1 Cons.IH [OF this]] show ?case by simp
qed (simp add: steps_from_def)

lemma ProcessTransportFeedback_ok:
  assumes "adapter_ok a" and "length (tfa_history a) \<le> 2 ^ 29"
  shows "steps_from a (snd (ProcessTransportFeedback fb t a))"
proof (cases "tf_num_seq_no fb = 0")
  case True
  then show ?thesis using assms by (simp add: ProcessTransportFeedback_def steps_from_def)
next
  case False
  obtain a1 where a1: "\<exists>t t'. a1 = a\<lparr>tfa_current_offset := t, tfa_last_transport_feedback_base_time := t'\<rparr>"
      "snd (ProcessTransportFeedback fb t a) = snd (fold transport_feedback_handler (ForAllPackets fb) ([], a1))"
    using False by (auto simp: ProcessTransportFeedback_def Let_def split_def)
  then have ok: "adapter_ok a1" "length (tfa_history a1) \<le> 2 ^ 29" "tfa_history a1 = tfa_history a"
      "tfa_network_route a1 = tfa_network_route a"
    using assms by (auto simp: adapter_ok_other)
  have step: "steps_from (snd st) (snd (transport_feedback_handler x st))"
    if "adapter_ok (snd st)" "length (tfa_history (snd st)) \<le> 2 ^ 29" for x st
    using transport_handler_ok that by (cases st) auto
  have "steps_from a1 (snd (fold transport_feedback_handler (ForAllPackets fb) ([], a1)))"
    using fold_steps_from [where get = snd and f = transport_feedback_handler and st = "([], a1)", OF step] ok(1,2) by simp
  then show ?thesis using ok(3,4) by (simp add: a1(2) steps_from_def)
qed

lemma ProcessCongestionControlFeedback_ok:
  assumes "adapter_ok a" and "length (tfa_history a) \<le> 2 ^ 29"
  shows "steps_from a (snd (ProcessCongestionControlFeedback fb t a))"
proof (cases "ccfb_packets fb = []")
  case True
  then show ?thesis using assms by (simp add: ProcessCongestionControlFeedback_def steps_from_def)
next
  case False
  obtain a1 where a1: "\<exists>t n. a1 = a\<lparr>tfa_current_offset := t, tfa_last_feedback_compact_ntp_time := n\<rparr>"
      "snd (ProcessCongestionControlFeedback fb t a) = snd (snd (fold ccfb_packet_handler (ccfb_packets fb) ([], True, a1)))"
    using False by (auto simp: ProcessCongestionControlFeedback_def Let_def split_def)
  then have ok: "adapter_ok a1" "length (tfa_history a1) \<le> 2 ^ 29" "tfa_history a1 = tfa_history a"
      "tfa_network_route a1 = tfa_network_route a"
    using assms by (auto simp: adapter_ok_other)
  have step: "steps_from (snd (snd st)) (snd (snd (ccfb_packet_handler x st)))"
    if "adapter_ok (snd (snd st))" "length (tfa_history (snd (snd st))) \<le> 2 ^ 29" for x st
    using ccfb_handler_ok that by (cases st) auto
  have "steps_from a1 (snd (snd (fold ccfb_packet_handler (ccfb_packets fb) ([], True, a1))))"
    using fold_steps_from [where get = "\<lambda>st. snd (snd st)" and f = ccfb_packet_handler and st = "([], True, a1)", OF step]
      ok(1,2) by simp
  then show ?thesis using ok(3,4) by (simp add: a1(2) steps_from_def)
qed

section \<open>Runs of the adapter\<close>

datatype adapter_event =
    EvAdd RtpPacketToSend PacedPacketInfo nat Timestamp
  | EvSent SentPacketInfo
  | EvTransportFeedback TransportFeedback Timestamp
  | EvCongestionControlFeedback Ccfb Timestamp
  | EvRoute NetworkRoute

fun adapter_step :: "adapter_event \<Rightarrow> TransportFeedbackAdapter \<Rightarrow> TransportFeedbackAdapter" where
  "adapter_step (EvAdd p info overhead t) a = AddPacket p info overhead t a"
| "adapter_step (EvSent s) a = snd (ProcessSentPacket s a)"
| "adapter_step (EvTransportFeedback fb t) a = snd (ProcessTransportFeedback fb t a)"
| "adapter_step (EvCongestionControlFeedback fb t) a = snd (ProcessCongestionControlFeedback fb t a)"
| "adapter_step (EvRoute r) a = SetNetworkRoute r a"

text \<open>Packets are less than 4 GB, times are within 34 years, and a transport sequence number is reused only after
  its packet has left the history.\<close>

fun event_ok :: "adapter_event \<Rightarrow> TransportFeedbackAdapter \<Rightarrow> bool" where
  "event_ok (EvAdd p info overhead t) a \<longleftrightarrow> int (pts_size p + overhead) \<le> 2 ^ 32 \<and> smap_find (tfa_history a) (added_seq p a) = None"
| "event_ok (EvSent s) a \<longleftrightarrow> \<bar>spi_send_time_ms s\<bar> < 2 ^ 40"
| "event_ok _ a \<longleftrightarrow> True"

fun run_ok :: "adapter_event list \<Rightarrow> TransportFeedbackAdapter \<Rightarrow> bool" where
  "run_ok [] a \<longleftrightarrow> True"
| "run_ok (e # es) a \<longleftrightarrow> event_ok e a \<and> run_ok es (adapter_step e a)"

lemma adapter_step_ok:
  assumes "adapter_ok a" and "length (tfa_history a) \<le> 2 ^ 29" and "event_ok e a"
  shows "adapter_ok (adapter_step e a) \<and> length (tfa_history (adapter_step e a)) \<le> Suc (length (tfa_history a))"
proof (cases e)
  case (EvAdd p info overhead t)
  then show ?thesis using assms AddPacket_ok by simp
next
  case (EvSent s)
  have ok: "adapter_ok (snd (ProcessSentPacket s a))"
      "fst ` set (tfa_history (snd (ProcessSentPacket s a))) = fst ` set (tfa_history a)"
    using ProcessSentPacket_ok [OF assms(1,2)] assms(3) by (auto simp: EvSent)
  have "length h = card (fst ` set h)" if "smap_ok h" for h :: "(int, PacketFeedback) smap"
    using smap_ok_distinct [OF that] distinct_card [of "map fst h"] by simp
  then have "length (tfa_history (snd (ProcessSentPacket s a))) = length (tfa_history a)"
    using ok assms(1) by (simp add: adapter_ok_def hist_ok_def)
  then show ?thesis using ok(1) by (simp add: EvSent)
next
  case (EvTransportFeedback fb t)
  then show ?thesis using ProcessTransportFeedback_ok [OF assms(1,2), of fb t] by (simp add: steps_from_def)
next
  case (EvCongestionControlFeedback fb t)
  then show ?thesis using ProcessCongestionControlFeedback_ok [OF assms(1,2), of fb t] by (simp add: steps_from_def)
next
  case (EvRoute r)
  then show ?thesis using assms(1) by (simp add: SetNetworkRoute_def adapter_ok_other)
qed

lemma adapter_run_ok:
  assumes "adapter_ok a" and "length (tfa_history a) + length es \<le> 2 ^ 29" and "run_ok es a"
  shows "adapter_ok (fold adapter_step es a)"
  using assms
proof (induction es arbitrary: a)
  case (Cons e es)
  have "adapter_ok (adapter_step e a) \<and> length (tfa_history (adapter_step e a)) \<le> Suc (length (tfa_history a))"
    by (rule adapter_step_ok) (use Cons.prems in auto)
  then show ?case using Cons.IH [of "adapter_step e a"] Cons.prems by simp
qed simp

lemma adapter_ok_init: "adapter_ok TransportFeedbackAdapter_init"
  by (simp add: adapter_ok_def hist_ok_def flight_ok_def map_ok_def TransportFeedbackAdapter_init_def flight_sum_def outstanding_def)

section \<open>Congestion control feedback as a lookup\<close>

text \<open>
  An abstract view of the history: the sent packet that an RTP sequence number stands for. With it,
  \<open>ProcessCongestionControlFeedback\<close> is a comprehension over the feedback, evaluated in the state
  before the feedback; the code instead changes its maps while it walks over the feedback.
\<close>

definition lookup_sent :: "TransportFeedbackAdapter \<Rightarrow> rtp_key \<Rightarrow> PacketFeedback option" where
  "lookup_sent a k =
     (case smap_find (tfa_rtp_to_transport a) k of
        None \<Rightarrow> None
      | Some s \<Rightarrow>
          (case smap_find (tfa_history a) s of
             None \<Rightarrow> None
           | Some p \<Rightarrow> if IsFinite (sp_send_time (pf_sent p)) then Some p else None))"

definition ccfb_result :: "Timestamp \<Rightarrow> PacketInfo \<Rightarrow> PacketFeedback \<Rightarrow> PacketResult" where
  "ccfb_result offset i p =
     \<lparr>pr_sent_packet = pf_sent p,
      pr_receive_time = (if IsFinite (pi_arrival_time_offset i)
        then Timestamp_minus_delta offset (pi_arrival_time_offset i) else PlusInfinity),
      pr_ecn = pi_ecn i\<rparr>"

definition reported :: "TransportFeedbackAdapter \<Rightarrow> PacketInfo \<Rightarrow> PacketFeedback option" where
  "reported a i =
     (case lookup_sent a (info_key i) of
        None \<Rightarrow> None
      | Some p \<Rightarrow> if pf_network_route p = tfa_network_route a then Some p else None)"

definition ccfb_results :: "Timestamp \<Rightarrow> TransportFeedbackAdapter \<Rightarrow> PacketInfo list \<Rightarrow> PacketResult list" where
  "ccfb_results offset a infos = concat (map (\<lambda>i. case reported a i of None \<Rightarrow> [] | Some p \<Rightarrow> [ccfb_result offset i p]) infos)"

definition ccfb_supports_ecn :: "TransportFeedbackAdapter \<Rightarrow> PacketInfo list \<Rightarrow> bool" where
  "ccfb_supports_ecn a infos \<longleftrightarrow>
     list_all (\<lambda>i. reported a i \<noteq> None \<and> IsFinite (pi_arrival_time_offset i) \<longrightarrow> pi_ecn i \<noteq> kNotEct) infos"

lemma map_okD:
  assumes "map_ok h m" and "smap_find m k = Some s"
  shows "\<exists>q. smap_find h s = Some q \<and> pf_key q = k"
proof -
  have "(k, s) \<in> set m" by (rule smap_find_in [OF assms(2)])
  then have "\<exists>p. smap_find h (snd (k, s)) = Some p \<and> pf_key p = fst (k, s)"
    using assms(1) unfolding map_ok_def by blast
  then show ?thesis by simp
qed

lemma RetrieveKey_lookup:
  assumes ok: "adapter_ok a" and n: "length (tfa_history a) \<le> 2 ^ 29" and r: "RetrievePacketFeedback_key k received a = (p, b)"
  shows "p = lookup_sent a k" and "k' \<noteq> k \<Longrightarrow> lookup_sent b k' = lookup_sent a k'"
    and "received \<Longrightarrow> lookup_sent b k = None" and "tfa_current_offset b = tfa_current_offset a"
proof -
  have "p = lookup_sent a k \<and> (k' \<noteq> k \<longrightarrow> lookup_sent b k' = lookup_sent a k') \<and> (received \<longrightarrow> lookup_sent b k = None) \<and>
      tfa_current_offset b = tfa_current_offset a"
  proof (cases "smap_find (tfa_rtp_to_transport a) k")
    case None
    then have "p = None" "b = a" using r by (auto simp: RetrievePacketFeedback_key_def)
    then show ?thesis using None by (simp add: lookup_sent_def)
  next
    case (Some s)
    then have r': "RetrievePacketFeedback s received a = (p, b)" using r by (simp add: RetrievePacketFeedback_key_def)
    note R = RetrievePacketFeedback_ok [OF ok n r']
    have m: "map_ok (tfa_history a) (tfa_rtp_to_transport a)" using ok by (simp add: adapter_ok_def)
    obtain q where q: "smap_find (tfa_history a) s = Some q" "pf_key q = k" using map_okD [OF m Some] by blast
    have lk: "lookup_sent a k = (if IsFinite (sp_send_time (pf_sent q)) then Some q else None)"
      by (simp add: lookup_sent_def Some q(1))
    have p: "p = lookup_sent a k"
    proof (cases "IsFinite (sp_send_time (pf_sent q))")
      case True
      then show ?thesis using R(9) [OF q(1) True] lk by simp
    next
      case False
      have "p \<noteq> Some q'" for q' using R(6) [of q'] q(1) False by auto
      then show ?thesis using lk False by (cases p) auto
    qed
    have mb: "smap_find (tfa_rtp_to_transport b) x = smap_find (tfa_rtp_to_transport a) x" if "x \<noteq> k" for x
      unfolding R(8) using p lk q(2) that by (simp add: smap_find_erase)
    have other: "lookup_sent b k' = lookup_sent a k'" if "k' \<noteq> k"
    proof (cases "smap_find (tfa_rtp_to_transport a) k'")
      case None
      then show ?thesis by (simp add: lookup_sent_def mb [OF that])
    next
      case (Some s')
      obtain q' where q': "smap_find (tfa_history a) s' = Some q'" "pf_key q' = k'" using map_okD [OF m Some] by blast
      then have "s' \<noteq> s" using q that by auto
      then have "smap_find (tfa_history b) s' = smap_find (tfa_history a) s'" unfolding R(7) by (simp add: smap_find_erase)
      then show ?thesis by (simp add: lookup_sent_def mb [OF that] Some)
    qed
    have "lookup_sent b k = None" if received
    proof (cases "IsFinite (sp_send_time (pf_sent q))")
      case True
      then have "smap_find (tfa_rtp_to_transport b) k = None"
        unfolding R(8) using p lk q(2) that by (simp add: smap_find_erase)
      then show ?thesis by (simp add: lookup_sent_def)
    next
      case False
      then have "p = None" using p lk by simp
      then show ?thesis unfolding lookup_sent_def R(7,8) using Some q(1) False by simp
    qed
    then show ?thesis using p other R(5) by blast
  qed
  then show "p = lookup_sent a k" "k' \<noteq> k \<Longrightarrow> lookup_sent b k' = lookup_sent a k'" "received \<Longrightarrow> lookup_sent b k = None"
    "tfa_current_offset b = tfa_current_offset a" by blast+
qed

lemma ccfb_handler_eq:
  assumes ok: "adapter_ok a" and n: "length (tfa_history a) \<le> 2 ^ 29"
  obtains b where "ccfb_packet_handler i (rs, e, a) =
      (rs @ ccfb_results (tfa_current_offset a) a [i], e \<and> ccfb_supports_ecn a [i], b)"
    "steps_from a b" "\<And>k. k \<noteq> info_key i \<Longrightarrow> lookup_sent b k = lookup_sent a k"
    "IsFinite (pi_arrival_time_offset i) \<Longrightarrow> lookup_sent b (info_key i) = None" "tfa_current_offset b = tfa_current_offset a"
proof -
  obtain p b where r: "RetrievePacketFeedback_key (info_key i) (IsFinite (pi_arrival_time_offset i)) a = (p, b)" by fastforce
  note L = RetrieveKey_lookup [OF ok n r] and K = RetrieveKey_ok [OF ok n r]
  have "ccfb_packet_handler i (rs, e, a) =
      (rs @ ccfb_results (tfa_current_offset a) a [i], e \<and> ccfb_supports_ecn a [i], b)"
    using L(1,4) K
    by (auto simp: ccfb_packet_handler_def r [unfolded info_key_def] ccfb_results_def ccfb_supports_ecn_def reported_def ccfb_result_def
        info_key_def split: option.splits)
  moreover have "steps_from a b" using K by (simp add: steps_from_def)
  ultimately show thesis using that L(2-4) by blast
qed

lemma ccfb_loop_eq:
  assumes "adapter_ok a" and "length (tfa_history a) \<le> 2 ^ 29" and "distinct (map info_key infos)"
  shows "\<exists>b. fold ccfb_packet_handler infos (rs, e, a) =
      (rs @ ccfb_results (tfa_current_offset a) a infos, e \<and> ccfb_supports_ecn a infos, b) \<and>
    (\<forall>i \<in> set infos. IsFinite (pi_arrival_time_offset i) \<longrightarrow> lookup_sent b (info_key i) = None) \<and>
    (\<forall>k. k \<notin> info_key ` set infos \<longrightarrow> lookup_sent b k = lookup_sent a k)"
  using assms
proof (induction infos arbitrary: rs e a)
  case (Cons i infos)
  obtain b where b: "ccfb_packet_handler i (rs, e, a) =
      (rs @ ccfb_results (tfa_current_offset a) a [i], e \<and> ccfb_supports_ecn a [i], b)"
      "steps_from a b" "\<And>k. k \<noteq> info_key i \<Longrightarrow> lookup_sent b k = lookup_sent a k"
      "IsFinite (pi_arrival_time_offset i) \<Longrightarrow> lookup_sent b (info_key i) = None" "tfa_current_offset b = tfa_current_offset a"
    using ccfb_handler_eq [OF Cons.prems(1,2)] by metis
  have ni: "info_key i \<notin> info_key ` set infos" using Cons.prems(3) by simp
  have same: "reported b j = reported a j" if "j \<in> set infos" for j
  proof -
    have "info_key j \<noteq> info_key i" using ni imageI [OF that, of info_key] by metis
    then show ?thesis using b(2,3) by (simp add: reported_def steps_from_def split: option.splits)
  qed
  then have res: "ccfb_results t b infos = ccfb_results t a infos" "ccfb_supports_ecn b infos = ccfb_supports_ecn a infos" for t
    by (auto simp: ccfb_results_def ccfb_supports_ecn_def list_all_iff intro!: arg_cong [where f = concat])
  have "length (tfa_history b) \<le> 2 ^ 29" "adapter_ok b" "distinct (map info_key infos)"
    using b(2) Cons.prems by (simp_all add: steps_from_def)
  from Cons.IH [OF this(2,1,3), of "rs @ ccfb_results (tfa_current_offset a) a [i]" "e \<and> ccfb_supports_ecn a [i]"]
  obtain c where c: "fold ccfb_packet_handler infos (rs @ ccfb_results (tfa_current_offset a) a [i], e \<and> ccfb_supports_ecn a [i], b) =
      ((rs @ ccfb_results (tfa_current_offset a) a [i]) @ ccfb_results (tfa_current_offset b) b infos,
       (e \<and> ccfb_supports_ecn a [i]) \<and> ccfb_supports_ecn b infos, c)"
      "\<forall>j \<in> set infos. IsFinite (pi_arrival_time_offset j) \<longrightarrow> lookup_sent c (info_key j) = None"
      "\<forall>k. k \<notin> info_key ` set infos \<longrightarrow> lookup_sent c k = lookup_sent b k"
    by blast
  have "ccfb_results t a (i # infos) = ccfb_results t a [i] @ ccfb_results t a infos"
      "ccfb_supports_ecn a (i # infos) \<longleftrightarrow> ccfb_supports_ecn a [i] \<and> ccfb_supports_ecn a infos" for t
    by (simp_all add: ccfb_results_def ccfb_supports_ecn_def)
  then have "fold ccfb_packet_handler (i # infos) (rs, e, a) =
      (rs @ ccfb_results (tfa_current_offset a) a (i # infos), e \<and> ccfb_supports_ecn a (i # infos), c)"
    using b(1) c(1) by (simp add: res b(5))
  moreover have "\<forall>j \<in> set (i # infos). IsFinite (pi_arrival_time_offset j) \<longrightarrow> lookup_sent c (info_key j) = None"
  proof -
    have "lookup_sent c (info_key i) = lookup_sent b (info_key i)" using c(3) ni by blast
    then show ?thesis using c(2) b(4) by simp
  qed
  moreover have "\<forall>k. k \<notin> info_key ` set (i # infos) \<longrightarrow> lookup_sent c k = lookup_sent a k"
    using c(3) b(3) by (metis image_insert insertCI list.simps(15))
  ultimately show ?case by blast
qed (simp add: ccfb_results_def ccfb_supports_ecn_def)

lemma sort_key_eq_Nil: "sort_key f xs = [] \<longleftrightarrow> xs = []"
  by (metis length_0_conv length_sort)

text \<open>The time base that \<open>ProcessCongestionControlFeedback\<close> uses for a feedback.\<close>

definition ccfb_time_base :: "Ccfb \<Rightarrow> Timestamp \<Rightarrow> TransportFeedbackAdapter \<Rightarrow> Timestamp" where
  "ccfb_time_base fb t a =
     (let delta = (case tfa_last_feedback_compact_ntp_time a of
            None \<Rightarrow> 0
          | Some previous \<Rightarrow> CompactNtpIntervalToTimeDelta (ccfb_report_timestamp fb - previous))
      in if delta < 0 then t else Timestamp_plus (if IsInfinite (tfa_current_offset a) then t else tfa_current_offset a) delta)"

lemma ProcessCongestionControlFeedback_eq:
  assumes "adapter_ok a" and "length (tfa_history a) \<le> 2 ^ 29" and "distinct (map info_key (ccfb_packets fb))"
    and "ccfb_packets fb \<noteq> []"
  obtains b where "ProcessCongestionControlFeedback fb t a =
      (ToTransportFeedback (sort_key (\<lambda>r. sp_sequence_number (pr_sent_packet r)) (ccfb_results (ccfb_time_base fb t a) a (ccfb_packets fb)))
         t (ccfb_supports_ecn a (ccfb_packets fb)) b, b)"
    "steps_from a b" "\<And>i. i \<in> set (ccfb_packets fb) \<Longrightarrow> IsFinite (pi_arrival_time_offset i) \<Longrightarrow> lookup_sent b (info_key i) = None"
    "\<And>k. k \<notin> info_key ` set (ccfb_packets fb) \<Longrightarrow> lookup_sent b k = lookup_sent a k"
proof -
  let ?a = "a\<lparr>tfa_current_offset := ccfb_time_base fb t a, tfa_last_feedback_compact_ntp_time := Some (ccfb_report_timestamp fb)\<rparr>"
  have same: "lookup_sent ?a k = lookup_sent a k" for k by (simp add: lookup_sent_def split: option.splits)
  have same_r: "reported ?a i = reported a i" for i by (simp add: reported_def same split: option.splits)
  have same': "ccfb_results o' ?a is = ccfb_results o' a is" "ccfb_supports_ecn ?a is = ccfb_supports_ecn a is" for o' "is"
    by (simp_all add: ccfb_results_def ccfb_supports_ecn_def same_r)
  have ok: "adapter_ok ?a" "length (tfa_history ?a) \<le> 2 ^ 29" using assms(1,2) by (simp_all add: adapter_ok_other)
  from ccfb_loop_eq [OF ok assms(3), of "[]" True]
  obtain b where b: "fold ccfb_packet_handler (ccfb_packets fb) ([], True, ?a) =
      (ccfb_results (ccfb_time_base fb t a) a (ccfb_packets fb), ccfb_supports_ecn a (ccfb_packets fb), b)"
      "\<And>i. i \<in> set (ccfb_packets fb) \<Longrightarrow> IsFinite (pi_arrival_time_offset i) \<Longrightarrow> lookup_sent b (info_key i) = None"
      "\<And>k. k \<notin> info_key ` set (ccfb_packets fb) \<Longrightarrow> lookup_sent b k = lookup_sent a k"
    unfolding same' same by auto
  have P: "ProcessCongestionControlFeedback fb t a =
      (ToTransportFeedback (sort_key (\<lambda>r. sp_sequence_number (pr_sent_packet r)) (ccfb_results (ccfb_time_base fb t a) a (ccfb_packets fb)))
         t (ccfb_supports_ecn a (ccfb_packets fb)) b, b)"
    using assms(4) b(1)
    unfolding ProcessCongestionControlFeedback_def if_not_P [OF assms(4)] Let_def ccfb_time_base_def by simp
  have "steps_from a b" using ProcessCongestionControlFeedback_ok [OF assms(1,2), of fb t] by (simp add: P)
  with P b(2,3) that show thesis by blast
qed

section \<open>Main properties\<close>

text \<open>
  C12: At every moment of every run of the adapter, whatever packets are added, sent, acknowledged, reported lost,
  reordered or dropped from the history, and however the route changes, the outstanding data is exactly the total
  size of the packets in the history that have been sent, come after the last acknowledged packet, and were sent on the
  current route. In particular it never becomes negative and nothing leaks.
\<close>

theorem in_flight_exact:
  assumes "run_ok es TransportFeedbackAdapter_init" and "length es \<le> 2 ^ 29"
  defines "a \<equiv> fold adapter_step es TransportFeedbackAdapter_init"
  shows "GetOutstandingData a =
      (\<Sum>e \<leftarrow> tfa_history a. if fst e > tfa_last_ack_seq_num a \<and> IsFinite (sp_send_time (pf_sent (snd e))) \<and>
         route_key (pf_network_route (snd e)) = route_key (tfa_network_route a) then sp_size (pf_sent (snd e)) else 0) \<and>
    0 \<le> GetOutstandingData a"
proof -
  have ok: "adapter_ok a"
    unfolding a_def by (rule adapter_run_ok [OF adapter_ok_init _ assms(1)]) (use assms(2) in \<open>simp add: TransportFeedbackAdapter_init_def\<close>)
  then have f: "flight_ok (tfa_last_ack_seq_num a) (tfa_history a) (tfa_in_flight a)"
    and p: "\<forall>e \<in> set (tfa_history a). packet_ok (fst e) (snd e)" by (auto simp: adapter_ok_def hist_ok_def)
  have g: "GetOutstandingData a = flight_sum (route_key (tfa_network_route a)) (tfa_last_ack_seq_num a) (tfa_history a)"
    by (simp add: GetOutstandingData_def Tracker_outstanding flight_okD(1) [OF f])
  show ?thesis
    unfolding g using flight_sum_bounds(1) [OF p]
    by (auto simp: flight_sum_def sent_bytes_def intro!: arg_cong [where f = sum_list])
qed

definition example_route :: NetworkRoute where
  "example_route = NetworkRoute_init\<lparr>nr_connected := True\<rparr>"

definition example_packet :: RtpPacketToSend where
  "example_packet = \<lparr>pts_transport_sequence_number = Some 5, pts_size = 1000, pts_packet_type = Some kVideo,
     pts_Ssrc = 1, pts_SequenceNumber = 7\<rparr>"

definition example_events :: "adapter_event list" where
  "example_events =
     [EvRoute example_route,
      EvAdd example_packet \<lparr>ppi_send_bitrate = 0, ppi_probe_cluster_id = - 1, ppi_probe_cluster_min_probes = - 1,
        ppi_probe_cluster_min_bytes = - 1, ppi_probe_cluster_bytes_sent = 0\<rparr> 28 40000,
      EvSent \<lparr>spi_packet_id = 5, spi_send_time_ms = 41, spi_included_in_feedback = True, spi_included_in_allocation = True,
        spi_packet_size_bytes = 1000\<rparr>]"

definition example_adapter :: TransportFeedbackAdapter where
  "example_adapter = fold adapter_step example_events TransportFeedbackAdapter_init"

lemma example_run: "run_ok example_events TransportFeedbackAdapter_init" "length example_events = 3"
  by (code_simp, simp add: example_events_def)

theorem in_flight_exact_witness:
  "run_ok example_events TransportFeedbackAdapter_init \<and> 0 \<le> GetOutstandingData example_adapter \<and>
   GetOutstandingData example_adapter = 1028"
proof -
  have "GetOutstandingData example_adapter = 1028" by code_simp
  then show ?thesis
    using in_flight_exact [of example_events] example_run unfolding example_adapter_def by simp
qed


lemma example_adapter_ok:
  "adapter_ok example_adapter" "length (tfa_history example_adapter) = 1"
  "\<exists>p. lookup_sent example_adapter (1, 7) = Some p \<and> pf_network_route p = tfa_network_route example_adapter"
proof -
  show "adapter_ok example_adapter"
    unfolding example_adapter_def
    by (rule adapter_run_ok [OF adapter_ok_init]) (use example_run in \<open>auto simp: TransportFeedbackAdapter_init_def\<close>)
  show "length (tfa_history example_adapter) = 1" by code_simp
  have "map_option pf_network_route (lookup_sent example_adapter (1, 7)) = Some (tfa_network_route example_adapter)" by code_simp
  then show "\<exists>p. lookup_sent example_adapter (1, 7) = Some p \<and> pf_network_route p = tfa_network_route example_adapter" by auto
qed

definition example_ccfb :: Ccfb where
  "example_ccfb = Ccfb_init [\<lparr>pi_ssrc = 1, pi_sequence_number = 6, pi_arrival_time_offset = MinusInfinity, pi_ecn = kNotEct\<rparr>,
     \<lparr>pi_ssrc = 1, pi_sequence_number = 7, pi_arrival_time_offset = 2000, pi_ecn = kCe\<rparr>] 0"


lemma ce_report_processed:
  assumes "adapter_ok a" and "length (tfa_history a) \<le> 2 ^ 29" and "distinct (map info_key (ccfb_packets fb'))"
    and i: "i \<in> set (ccfb_packets fb')" "pi_ecn i = kCe" "lookup_sent a (info_key i) = Some p"
    and route: "pf_network_route p = tfa_network_route a"
  shows "\<exists>msg b r. ProcessCongestionControlFeedback fb' now' a = (Some msg, b) \<and>
    r \<in> set (tpf_packet_feedbacks msg) \<and> pr_sent_packet r = pf_sent p \<and> pr_ecn r = kCe"
proof -
  have ne: "ccfb_packets fb' \<noteq> []" using i(1) by auto
  let ?rs = "ccfb_results (ccfb_time_base fb' now' a) a (ccfb_packets fb')"
  obtain b where b: "ProcessCongestionControlFeedback fb' now' a =
      (ToTransportFeedback (sort_key (\<lambda>r. sp_sequence_number (pr_sent_packet r)) ?rs) now' (ccfb_supports_ecn a (ccfb_packets fb')) b, b)"
    using ProcessCongestionControlFeedback_eq [OF assms(1-3) ne] by metis
  have "reported a i = Some p" using i(3) route by (simp add: reported_def)
  then have mem: "ccfb_result (ccfb_time_base fb' now' a) i p \<in> set ?rs" using i(1) by (force simp: ccfb_results_def)
  then have "?rs \<noteq> []" by auto
  then obtain msg where "ToTransportFeedback (sort_key (\<lambda>r. sp_sequence_number (pr_sent_packet r)) ?rs) now'
        (ccfb_supports_ecn a (ccfb_packets fb')) b = Some msg"
      "tpf_packet_feedbacks msg = sort_key (\<lambda>r. sp_sequence_number (pr_sent_packet r)) ?rs"
    by (simp add: ToTransportFeedback_def sort_key_eq_Nil)
  with mem have "ccfb_result (ccfb_time_base fb' now' a) i p \<in> set (tpf_packet_feedbacks msg)"
      "ProcessCongestionControlFeedback fb' now' a = (Some msg, b)"
    using b \<open>ToTransportFeedback _ _ _ _ = Some msg\<close> by simp_all
  moreover have "pr_sent_packet (ccfb_result (ccfb_time_base fb' now' a) i p) = pf_sent p"
      "pr_ecn (ccfb_result (ccfb_time_base fb' now' a) i p) = kCe"
    using i(2) by (simp_all add: ccfb_result_def)
  ultimately show ?thesis by blast
qed



end
