(* ===== verification/Rtcp_Stats.thy ===== *)
theory Rtcp_Stats
  imports Ntp_Util Seq_Num Rtcp_Bitrate Rtcp_Xr
begin

text \<open>
  The small classes in which the RTCP receiver keeps what it has learnt from the remote side:
  \<open>VideoBitrateAllocation\<close> (\<open>api/video/video_bitrate_allocation.cc\<close>), \<open>ReportBlockData\<close>,
  \<open>RtcpNackStats\<close>, \<open>RtcpPacketTypeCounter\<close>, the sender report statistics, the round trip time
  statistics nested in \<open>RTCPReceiver\<close>, \<open>Clock::NtpToUtc\<close>, and the two functions of
  \<open>tmmbr_help.cc\<close> that do not calculate with floating point numbers. A failed \<open>RTC_CHECK\<close> and
  a division by zero are \<open>None\<close>.
\<close>

section \<open>VideoBitrateAllocation\<close>

definition kMaxSpatialLayers :: nat where
  "kMaxSpatialLayers = 5"

definition kMaxTemporalStreams :: nat where
  "kMaxTemporalStreams = 4"

definition kMaxBitrateBps :: u32 where
  "kMaxBitrateBps = 0xFFFFFFFF"

record VideoBitrateAllocation =
  vba_sum :: u32
  vba_bitrates :: "u32 option list list"
  vba_is_bw_limited :: bool

definition VideoBitrateAllocation_init :: VideoBitrateAllocation where
  "VideoBitrateAllocation_init = \<lparr>vba_sum = 0,
     vba_bitrates = replicate kMaxSpatialLayers (replicate kMaxTemporalStreams None), vba_is_bw_limited = False\<rparr>"

definition SetBitrate :: "nat \<Rightarrow> nat \<Rightarrow> u32 \<Rightarrow> VideoBitrateAllocation \<Rightarrow> (bool \<times> VideoBitrateAllocation) option" where
  "SetBitrate spatial_index temporal_index bitrate_bps a =
     (if spatial_index \<ge> kMaxSpatialLayers \<or> temporal_index \<ge> kMaxTemporalStreams then None
      else let layer_bitrate = vba_bitrates a ! spatial_index ! temporal_index;
               new_bitrate_sum_bps = uint (vba_sum a) -
                 (case layer_bitrate of Some b \<Rightarrow> uint b | None \<Rightarrow> 0) + uint bitrate_bps
           in if new_bitrate_sum_bps > uint kMaxBitrateBps then Some (False, a)
              else Some (True, a\<lparr>vba_bitrates := (vba_bitrates a)[spatial_index :=
                     (vba_bitrates a ! spatial_index)[temporal_index := Some bitrate_bps]],
                     vba_sum := of_int new_bitrate_sum_bps\<rparr>))"

definition HasBitrate :: "nat \<Rightarrow> nat \<Rightarrow> VideoBitrateAllocation \<Rightarrow> bool option" where
  "HasBitrate spatial_index temporal_index a =
     (if spatial_index \<ge> kMaxSpatialLayers \<or> temporal_index \<ge> kMaxTemporalStreams then None
      else Some (vba_bitrates a ! spatial_index ! temporal_index \<noteq> None))"

definition value_or_0 :: "u32 option \<Rightarrow> u32" where
  "value_or_0 b = (case b of Some v \<Rightarrow> v | None \<Rightarrow> 0)"

definition GetBitrate :: "nat \<Rightarrow> nat \<Rightarrow> VideoBitrateAllocation \<Rightarrow> u32 option" where
  "GetBitrate spatial_index temporal_index a =
     (if spatial_index \<ge> kMaxSpatialLayers \<or> temporal_index \<ge> kMaxTemporalStreams then None
      else Some (value_or_0 (vba_bitrates a ! spatial_index ! temporal_index)))"

definition IsSpatialLayerUsed :: "nat \<Rightarrow> VideoBitrateAllocation \<Rightarrow> bool option" where
  "IsSpatialLayerUsed spatial_index a =
     (if spatial_index \<ge> kMaxSpatialLayers then None
      else Some (list_ex (\<lambda>b. b \<noteq> None) (vba_bitrates a ! spatial_index)))"

definition GetTemporalLayerSum :: "nat \<Rightarrow> nat \<Rightarrow> VideoBitrateAllocation \<Rightarrow> u32 option" where
  "GetTemporalLayerSum spatial_index temporal_index a =
     (if spatial_index \<ge> kMaxSpatialLayers \<or> temporal_index \<ge> kMaxTemporalStreams then None
      else Some (foldl (\<lambda>sm i. sm + value_or_0 (vba_bitrates a ! spatial_index ! i)) 0 [0..<Suc temporal_index]))"

definition GetSpatialLayerSum :: "nat \<Rightarrow> VideoBitrateAllocation \<Rightarrow> u32 option" where
  "GetSpatialLayerSum spatial_index a =
     (if spatial_index \<ge> kMaxSpatialLayers then None
      else GetTemporalLayerSum spatial_index (kMaxTemporalStreams - 1) a)"

definition GetTemporalLayerAllocation :: "nat \<Rightarrow> VideoBitrateAllocation \<Rightarrow> u32 list option" where
  "GetTemporalLayerAllocation spatial_index a =
     (if spatial_index \<ge> kMaxSpatialLayers then None
      else Some (map value_or_0 (rev (dropWhile (\<lambda>b. b = None) (rev (vba_bitrates a ! spatial_index))))))"

definition get_sum_kbps :: "VideoBitrateAllocation \<Rightarrow> u32" where
  "get_sum_kbps a = vba_sum a div 1000"

definition set_bw_limited :: "bool \<Rightarrow> VideoBitrateAllocation \<Rightarrow> VideoBitrateAllocation" where
  "set_bw_limited limited a = a\<lparr>vba_is_bw_limited := limited\<rparr>"

definition VideoBitrateAllocation_eq :: "VideoBitrateAllocation \<Rightarrow> VideoBitrateAllocation \<Rightarrow> bool" where
  "VideoBitrateAllocation_eq a other =
     list_all (\<lambda>si. list_all (\<lambda>ti. vba_bitrates a ! si ! ti = vba_bitrates other ! si ! ti) [0..<kMaxTemporalStreams])
       [0..<kMaxSpatialLayers]"

text \<open>The invariant: five layers of four streams, and \<open>sum_\<close> is the exact sum of the bitrates set.\<close>

definition layer_sum :: "u32 option list \<Rightarrow> int" where
  "layer_sum row = sum_list (map (\<lambda>b. uint (value_or_0 b)) row)"

definition vba_ok :: "VideoBitrateAllocation \<Rightarrow> bool" where
  "vba_ok a \<longleftrightarrow> length (vba_bitrates a) = kMaxSpatialLayers \<and>
     (\<forall>row \<in> set (vba_bitrates a). length row = kMaxTemporalStreams) \<and>
     uint (vba_sum a) = sum_list (map layer_sum (vba_bitrates a))"

text \<open>On allocations that satisfy it, \<open>operator==\<close> compares all bitrates, and equal allocations have equal sums.\<close>

lemma VideoBitrateAllocation_eq_iff:
  assumes "vba_ok a" and "vba_ok b"
  shows "VideoBitrateAllocation_eq a b \<longleftrightarrow> vba_bitrates a = vba_bitrates b"
    and "VideoBitrateAllocation_eq a b \<Longrightarrow> vba_sum a = vba_sum b"
proof -
  have len: "length (vba_bitrates a) = kMaxSpatialLayers" "length (vba_bitrates b) = kMaxSpatialLayers"
    "\<And>si. si < kMaxSpatialLayers \<Longrightarrow> length (vba_bitrates a ! si) = kMaxTemporalStreams"
    "\<And>si. si < kMaxSpatialLayers \<Longrightarrow> length (vba_bitrates b ! si) = kMaxTemporalStreams"
    using assms by (auto simp: vba_ok_def)
  show eq: "VideoBitrateAllocation_eq a b \<longleftrightarrow> vba_bitrates a = vba_bitrates b"
    by (auto simp: VideoBitrateAllocation_eq_def list_all_iff list_eq_iff_nth_eq len)
  show "VideoBitrateAllocation_eq a b \<Longrightarrow> vba_sum a = vba_sum b"
    unfolding eq using assms by (simp add: vba_ok_def word_uint_eq_iff)
qed

lemma vba_ok_init: "vba_ok VideoBitrateAllocation_init"
  by (simp add: vba_ok_def VideoBitrateAllocation_init_def layer_sum_def value_or_0_def
      kMaxSpatialLayers_def kMaxTemporalStreams_def sum_list_replicate)

lemma sum_list_update_int:
  fixes f :: "'a \<Rightarrow> int"
  shows "i < length xs \<Longrightarrow> sum_list (map f (xs[i := x])) = sum_list (map f xs) - f (xs ! i) + f x"
proof (induction xs arbitrary: i)
  case (Cons y ys)
  then show ?case by (cases i) auto
qed simp

lemma SetBitrate_cases:
  assumes "vba_ok a" and "si < kMaxSpatialLayers" and "ti < kMaxTemporalStreams"
  obtains ok a' where "SetBitrate si ti b a = Some (ok, a')" and "vba_ok a'"
    and "ok \<longleftrightarrow> sum_list (map layer_sum (vba_bitrates a)) - uint (value_or_0 (vba_bitrates a ! si ! ti)) + uint b < 2 ^ 32"
    and "vba_bitrates a' = (if ok then (vba_bitrates a)[si := (vba_bitrates a ! si)[ti := Some b]] else vba_bitrates a)"
proof -
  let ?rows = "vba_bitrates a" and ?row = "vba_bitrates a ! si"
  have len: "si < length ?rows" "ti < length ?row" using assms by (simp_all add: vba_ok_def)
  have row: "layer_sum (?row[ti := Some b]) = layer_sum ?row - uint (value_or_0 (?row ! ti)) + uint b"
    using len(2) by (simp add: layer_sum_def sum_list_update_int value_or_0_def)
  have sum: "sum_list (map layer_sum (?rows[si := ?row[ti := Some b]])) =
      sum_list (map layer_sum ?rows) - uint (value_or_0 (?row ! ti)) + uint b"
    using len(1) row by (simp add: sum_list_update_int)
  have lens: "\<forall>r \<in> set (?rows[si := ?row[ti := Some b]]). length r = kMaxTemporalStreams"
    using assms(1) len(1) by (auto simp: vba_ok_def dest!: set_update_subset_insert [THEN subsetD])
  have opt: "(case ?row ! ti of None \<Rightarrow> 0 | Some v \<Rightarrow> uint v) = uint (value_or_0 (?row ! ti))"
    by (simp add: value_or_0_def split: option.splits)
  define n where "n = sum_list (map layer_sum ?rows) - uint (value_or_0 (?row ! ti)) + uint b"
  have n0: "0 \<le> n" unfolding n_def sum [symmetric] by (intro sum_list_nonneg) (auto simp: layer_sum_def intro!: sum_list_nonneg)
  have s: "uint (vba_sum a) = sum_list (map layer_sum ?rows)" using assms(1) by (simp add: vba_ok_def)
  show thesis
  proof (cases "n < 2 ^ 32")
    case True
    let ?a = "a\<lparr>vba_bitrates := ?rows[si := ?row[ti := Some b]], vba_sum := word_of_int n\<rparr>"
    have "uint (word_of_int n :: u32) = n" using True n0 by (simp add: uint_word_of_int)
    then have "vba_ok ?a" using assms(1) lens sum by (simp add: vba_ok_def n_def [symmetric])
    moreover have "SetBitrate si ti b a = Some (True, ?a)"
      using assms(2,3) True unfolding SetBitrate_def Let_def opt s n_def [symmetric]
      by (simp add: kMaxBitrateBps_def)
    ultimately show thesis using True by (intro that) (auto simp: n_def)
  next
    case False
    then have "SetBitrate si ti b a = Some (False, a)"
      using assms(2,3) unfolding SetBitrate_def Let_def opt s n_def [symmetric]
      by (simp add: kMaxBitrateBps_def)
    then show thesis using False assms(1) by (intro that) (auto simp: n_def)
  qed
qed

text \<open>
  C36: The bitrate allocation never overflows. Setting a layer within range succeeds exactly when the new total
  fits 32 bits; then that layer, and no other, reads back as the value set, and otherwise the
  allocation is unchanged; either way the stored total stays the exact sum over all layers.
\<close>

theorem SetBitrate_exact:
  assumes "vba_ok a" and "si < kMaxSpatialLayers" and "ti < kMaxTemporalStreams"
    and "si' < kMaxSpatialLayers" and "ti' < kMaxTemporalStreams"
  shows "\<exists>ok a'. SetBitrate si ti b a = Some (ok, a') \<and> vba_ok a' \<and>
    (ok \<longleftrightarrow> uint (vba_sum a) - uint (the (GetBitrate si ti a)) + uint b < 2 ^ 32) \<and>
    (\<not> ok \<longrightarrow> a' = a) \<and>
    GetBitrate si' ti' a' = (if ok \<and> si' = si \<and> ti' = ti then Some b else GetBitrate si' ti' a)"
proof -
  obtain ok a' where s: "SetBitrate si ti b a = Some (ok, a')" "vba_ok a'"
    "ok \<longleftrightarrow> sum_list (map layer_sum (vba_bitrates a)) - uint (value_or_0 (vba_bitrates a ! si ! ti)) + uint b < 2 ^ 32"
    "vba_bitrates a' = (if ok then (vba_bitrates a)[si := (vba_bitrates a ! si)[ti := Some b]] else vba_bitrates a)"
    using SetBitrate_cases [OF assms(1-3)] by metis
  have "\<not> ok \<Longrightarrow> a' = a" using s(1) by (auto simp: SetBitrate_def Let_def split: if_splits)
  moreover have "si < length (vba_bitrates a)" "ti < length (vba_bitrates a ! si)"
    using assms(1-3) by (simp_all add: vba_ok_def)
  ultimately show ?thesis using s assms by (auto simp: GetBitrate_def vba_ok_def nth_list_update value_or_0_def)
qed

lemma GetBitrate_init:
  "si < kMaxSpatialLayers \<Longrightarrow> ti < kMaxTemporalStreams \<Longrightarrow> GetBitrate si ti VideoBitrateAllocation_init = Some 0"
  by (simp add: GetBitrate_def VideoBitrateAllocation_init_def value_or_0_def)

theorem SetBitrate_exact_witness:
  "\<exists>ok a'. SetBitrate 1 2 500000 VideoBitrateAllocation_init = Some (ok, a') \<and> vba_ok a' \<and> ok \<and>
    GetBitrate 1 2 a' = Some 500000"
proof -
  have i: "(1::nat) < kMaxSpatialLayers" "2 < kMaxTemporalStreams"
    by (simp_all add: kMaxSpatialLayers_def kMaxTemporalStreams_def)
  have z: "vba_sum VideoBitrateAllocation_init = 0" by (simp add: VideoBitrateAllocation_init_def)
  show ?thesis
    using SetBitrate_exact [OF vba_ok_init i i, of 500000] unfolding GetBitrate_init [OF i] z by auto
qed

section \<open>ReportBlockData\<close>

record ReportBlockData =
  rbd_sender_ssrc :: u32
  rbd_source_ssrc :: u32
  rbd_fraction_lost_raw :: u8
  rbd_cumulative_lost :: int
  rbd_extended_highest_sequence_number :: u32
  rbd_jitter :: u32
  rbd_report_block_timestamp_utc :: Timestamp
  rbd_report_block_timestamp :: Timestamp
  rbd_last_rtt :: TimeDelta
  rbd_sum_rtt :: TimeDelta
  rbd_num_rtts :: nat

definition ReportBlockData_init :: ReportBlockData where
  "ReportBlockData_init = \<lparr>rbd_sender_ssrc = 0, rbd_source_ssrc = 0, rbd_fraction_lost_raw = 0,
     rbd_cumulative_lost = 0, rbd_extended_highest_sequence_number = 0, rbd_jitter = 0,
     rbd_report_block_timestamp_utc = 0, rbd_report_block_timestamp = 0, rbd_last_rtt = 0, rbd_sum_rtt = 0,
     rbd_num_rtts = 0\<rparr>"

definition SetReportBlock :: "u32 \<Rightarrow> ReportBlock \<Rightarrow> Timestamp \<Rightarrow> Timestamp \<Rightarrow> ReportBlockData \<Rightarrow> ReportBlockData" where
  "SetReportBlock ssrc report_block timestamp_utc timestamp d =
     d\<lparr>rbd_sender_ssrc := ssrc,
       rbd_source_ssrc := source_ssrc report_block,
       rbd_fraction_lost_raw := fraction_lost report_block,
       rbd_cumulative_lost := cumulative_lost report_block,
       rbd_extended_highest_sequence_number := extended_high_seq_num report_block,
       rbd_jitter := jitter report_block,
       rbd_report_block_timestamp_utc := timestamp_utc,
       rbd_report_block_timestamp := timestamp\<rparr>"

definition AddRoundTripTimeSample :: "TimeDelta \<Rightarrow> ReportBlockData \<Rightarrow> ReportBlockData" where
  "AddRoundTripTimeSample rtt d =
     d\<lparr>rbd_last_rtt := rtt, rbd_sum_rtt := unit_plus (rbd_sum_rtt d) rtt, rbd_num_rtts := rbd_num_rtts d + 1\<rparr>"

definition ReportBlockData_jitter :: "int \<Rightarrow> ReportBlockData \<Rightarrow> TimeDelta option" where
  "ReportBlockData_jitter rtp_clock_rate_hz d =
     (if rtp_clock_rate_hz = 0 then None
      else Some (unit_divide (TimeDelta_Seconds (uint (rbd_jitter d))) rtp_clock_rate_hz))"

section \<open>RttStats and NonSenderRttStats\<close>

record RttStats =
  rs_last_rtt :: TimeDelta
  rs_sum_rtt :: TimeDelta
  rs_num_rtts :: nat

definition RttStats_init :: RttStats where
  "RttStats_init = \<lparr>rs_last_rtt = 0, rs_sum_rtt = 0, rs_num_rtts = 0\<rparr>"

definition AddRtt :: "TimeDelta \<Rightarrow> RttStats \<Rightarrow> RttStats" where
  "AddRtt rtt s = s\<lparr>rs_last_rtt := rtt, rs_sum_rtt := unit_plus (rs_sum_rtt s) rtt, rs_num_rtts := rs_num_rtts s + 1\<rparr>"

definition average_rtt :: "RttStats \<Rightarrow> TimeDelta option" where
  "average_rtt s = (if rs_num_rtts s = 0 then None else Some (unit_divide (rs_sum_rtt s) (int (rs_num_rtts s))))"

record NonSenderRttStats =
  ns_round_trip_time :: "TimeDelta option"
  ns_total_round_trip_time :: TimeDelta
  ns_round_trip_time_measurements :: int

definition NonSenderRttStats_init :: NonSenderRttStats where
  "NonSenderRttStats_init = \<lparr>ns_round_trip_time = None, ns_total_round_trip_time = 0,
     ns_round_trip_time_measurements = 0\<rparr>"

definition NonSenderRttStats_Update :: "TimeDelta \<Rightarrow> NonSenderRttStats \<Rightarrow> NonSenderRttStats" where
  "NonSenderRttStats_Update rtt s =
     s\<lparr>ns_round_trip_time := Some rtt,
       ns_total_round_trip_time := unit_plus (ns_total_round_trip_time s) rtt,
       ns_round_trip_time_measurements := ns_round_trip_time_measurements s + 1\<rparr>"

definition NonSenderRttStats_Invalidate :: "NonSenderRttStats \<Rightarrow> NonSenderRttStats" where
  "NonSenderRttStats_Invalidate s = s\<lparr>ns_round_trip_time := None\<rparr>"

section \<open>Sender report statistics, packet counters and NACK statistics\<close>

record SenderReportStats =
  srs_last_arrival_timestamp :: Timestamp
  srs_last_arrival_ntp_timestamp :: NtpTime
  srs_last_remote_ntp_timestamp :: NtpTime
  srs_last_remote_rtp_timestamp :: u32
  srs_packets_sent :: u32
  srs_bytes_sent :: u64
  srs_reports_count :: u64

definition SenderReportStats_init :: SenderReportStats where
  "SenderReportStats_init = \<lparr>srs_last_arrival_timestamp = 0, srs_last_arrival_ntp_timestamp = 0,
     srs_last_remote_ntp_timestamp = 0, srs_last_remote_rtp_timestamp = 0, srs_packets_sent = 0,
     srs_bytes_sent = 0, srs_reports_count = 0\<rparr>"

record RtcpPacketTypeCounter =
  ptc_nack_packets :: u32
  ptc_fir_packets :: u32
  ptc_pli_packets :: u32
  ptc_nack_requests :: u32
  ptc_unique_nack_requests :: u32

definition RtcpPacketTypeCounter_init :: RtcpPacketTypeCounter where
  "RtcpPacketTypeCounter_init = \<lparr>ptc_nack_packets = 0, ptc_fir_packets = 0, ptc_pli_packets = 0,
     ptc_nack_requests = 0, ptc_unique_nack_requests = 0\<rparr>"

definition RtcpPacketTypeCounter_Add :: "RtcpPacketTypeCounter \<Rightarrow> RtcpPacketTypeCounter \<Rightarrow> RtcpPacketTypeCounter" where
  "RtcpPacketTypeCounter_Add other c = \<lparr>ptc_nack_packets = ptc_nack_packets c + ptc_nack_packets other,
     ptc_fir_packets = ptc_fir_packets c + ptc_fir_packets other,
     ptc_pli_packets = ptc_pli_packets c + ptc_pli_packets other,
     ptc_nack_requests = ptc_nack_requests c + ptc_nack_requests other,
     ptc_unique_nack_requests = ptc_unique_nack_requests c + ptc_unique_nack_requests other\<rparr>"

definition RtcpPacketTypeCounter_Subtract :: "RtcpPacketTypeCounter \<Rightarrow> RtcpPacketTypeCounter \<Rightarrow> RtcpPacketTypeCounter" where
  "RtcpPacketTypeCounter_Subtract other c = \<lparr>ptc_nack_packets = ptc_nack_packets c - ptc_nack_packets other,
     ptc_fir_packets = ptc_fir_packets c - ptc_fir_packets other,
     ptc_pli_packets = ptc_pli_packets c - ptc_pli_packets other,
     ptc_nack_requests = ptc_nack_requests c - ptc_nack_requests other,
     ptc_unique_nack_requests = ptc_unique_nack_requests c - ptc_unique_nack_requests other\<rparr>"

lemma RtcpPacketTypeCounter_Subtract_Add:
  "RtcpPacketTypeCounter_Subtract d (RtcpPacketTypeCounter_Add d c) = c"
  by (simp add: RtcpPacketTypeCounter_Subtract_def RtcpPacketTypeCounter_Add_def)

record RtcpNackStats =
  nst_max_sequence_number :: u16
  nst_requests :: u32
  nst_unique_requests :: u32

definition RtcpNackStats_init :: RtcpNackStats where
  "RtcpNackStats_init = \<lparr>nst_max_sequence_number = 0, nst_requests = 0, nst_unique_requests = 0\<rparr>"

definition ReportRequest :: "u16 \<Rightarrow> RtcpNackStats \<Rightarrow> RtcpNackStats" where
  "ReportRequest sequence_number s =
     (let s' = (if nst_requests s = 0 \<or> IsNewerSequenceNumber sequence_number (nst_max_sequence_number s)
                then s\<lparr>nst_max_sequence_number := sequence_number, nst_unique_requests := nst_unique_requests s + 1\<rparr>
                else s)
      in s'\<lparr>nst_requests := nst_requests s' + 1\<rparr>)"

section \<open>NTP to UTC, and the TMMBR helpers\<close>

definition kNtpJan1970 :: u32 where
  "kNtpJan1970 = 2208988800"

definition NtpToUtc :: "NtpTime \<Rightarrow> Timestamp" where
  "NtpToUtc ntp_time =
     (if \<not> NtpTime_Valid ntp_time then MinusInfinity
      else let time = uint (NtpTime_seconds ntp_time - kNtpJan1970) * 1000000;
               time_fraction = DivideRoundToNearest (uint (NtpTime_fractions ntp_time) * 1000000) (uint kFractionsPerSecond)
           in time + time_fraction)"

definition TMMBRHelp_IsOwner :: "TmmbItem list \<Rightarrow> u32 \<Rightarrow> bool" where
  "TMMBRHelp_IsOwner bounding ssrc = list_ex (\<lambda>item. tmmb_ssrc item = ssrc) bounding"

definition TMMBRHelp_CalcMinBitrateBps :: "TmmbItem list \<Rightarrow> u64" where
  "TMMBRHelp_CalcMinBitrateBps candidates =
     foldl (\<lambda>m item. if tmmb_bitrate_bps item < m then tmmb_bitrate_bps item else m) (-1) candidates"

end
