(* ===== verification/Rtcp_Receiver.thy ===== *)
theory Rtcp_Receiver
  imports Rtcp_Stats Rtcp_Nack Rtcp_Misc Ccfb Transport_Feedback Std_Map
begin

text \<open>
  \<open>modules/rtp_rtcp/source/rtcp_receiver.cc\<close>: the object that takes every incoming RTCP datagram
  apart, keeps what it says about the remote side, and tells the rest of the program. One definition
  stands for each handler; it takes the receiver and, where the method has it, the
  \<open>PacketInformation\<close> it fills in, and returns them. \<open>None\<close> is an execution the language leaves
  undefined or that ends the process: a read outside of the payload, a list iterator without a list node, a null
  pointer, a division by zero, or a failed \<open>RTC_CHECK\<close>.

  The constant members are the record \<open>rx_config\<close>: an observer pointer is represented by whether
  it is set. The calls the receiver makes on its observers and its owner are the list of \<open>callback\<close>s,
  in order. The clock is an interface; \<open>Clock\<close> holds its reading during a call and
  the conversion to NTP time. \<open>TMMBRHelp::FindBoundingSet\<close> calculates with floating point numbers
  and is a parameter of \<open>NotifyTmmbrUpdated\<close>. Locks are left out: every method holds the lock throughout.
\<close>

section \<open>State\<close>

record Clock =
  clk_now :: Timestamp
  clk_to_ntp :: "Timestamp \<Rightarrow> NtpTime"

definition CurrentNtpTime :: "Clock \<Rightarrow> NtpTime" where
  "CurrentNtpTime clk = clk_to_ntp clk (clk_now clk)"

definition kRrTimeoutIntervals :: int where
  "kRrTimeoutIntervals = 3"

definition kTmmbrTimeoutInterval :: TimeDelta where
  "kTmmbrTimeoutInterval = TimeDelta_Seconds 25"

definition kMaxWarningLogInterval :: TimeDelta where
  "kMaxWarningLogInterval = TimeDelta_Seconds 10"

definition kRtcpMinFrameLength :: TimeDelta where
  "kRtcpMinFrameLength = TimeDelta_Millis 17"

definition kMaxNumberOfStoredRrtrs :: nat where
  "kMaxNumberOfStoredRrtrs = 300"

text \<open>\<open>RTCPPacketTypeFlags\<close>, as far as the receiver sets or tests them, and their bits.\<close>

datatype RTCPPacketTypeFlags = kRtcpSr | kRtcpRr | kRtcpSdes | kRtcpPli | kRtcpNack | kRtcpFir | kRtcpTmmbr
  | kRtcpTmmbn | kRtcpSrReq | kRtcpLossNotification | kRtcpRemb | kRtcpTransportFeedback

primrec flag_value :: "RTCPPacketTypeFlags \<Rightarrow> u32" where
  "flag_value kRtcpSr = 0x0002"
| "flag_value kRtcpRr = 0x0004"
| "flag_value kRtcpSdes = 0x0008"
| "flag_value kRtcpPli = 0x0020"
| "flag_value kRtcpNack = 0x0040"
| "flag_value kRtcpFir = 0x0080"
| "flag_value kRtcpTmmbr = 0x0100"
| "flag_value kRtcpTmmbn = 0x0200"
| "flag_value kRtcpSrReq = 0x0400"
| "flag_value kRtcpLossNotification = 0x2000"
| "flag_value kRtcpRemb = 0x10000"
| "flag_value kRtcpTransportFeedback = 0x100000"

record TimedTmmbrItem =
  ti_tmmbr_item :: TmmbItem
  ti_last_updated :: Timestamp

record TmmbrInformation =
  tm_last_time_received :: Timestamp
  tm_ready_for_delete :: bool
  tm_tmmbn :: "TmmbItem list"
  tm_tmmbr :: "(u32, TimedTmmbrItem) smap"

definition TmmbrInformation_init :: TmmbrInformation where
  "TmmbrInformation_init = \<lparr>tm_last_time_received = 0, tm_ready_for_delete = False, tm_tmmbn = [], tm_tmmbr = []\<rparr>"

record RrtrInformation =
  rrtr_ssrc :: u32
  rrtr_received_remote_mid_ntp_time :: u32
  rrtr_local_receive_mid_ntp_time :: u32

record LastFirStatus =
  lf_request :: Timestamp
  lf_sequence_number :: u8

record PacketInformation =
  info_packet_type_flags :: u32
  info_remote_ssrc :: u32
  info_nack_sequence_numbers :: "u16 list"
  info_report_block_datas :: "ReportBlockData list"
  info_rtt :: "TimeDelta option"
  info_receiver_estimated_max_bitrate_bps :: u32
  info_transport_feedback :: "TransportFeedback option"
  info_congestion_control_feedback :: "Ccfb option"
  info_target_bitrate_allocation :: "VideoBitrateAllocation option"
  info_network_state_estimate :: "NetworkStateEstimate option"
  info_loss_notification :: "LossNotification option"

definition PacketInformation_init :: PacketInformation where
  "PacketInformation_init = \<lparr>info_packet_type_flags = 0, info_remote_ssrc = 0, info_nack_sequence_numbers = [],
     info_report_block_datas = [], info_rtt = None, info_receiver_estimated_max_bitrate_bps = 0,
     info_transport_feedback = None, info_congestion_control_feedback = None, info_target_bitrate_allocation = None,
     info_network_state_estimate = None, info_loss_notification = None\<rparr>"

definition set_flag :: "RTCPPacketTypeFlags \<Rightarrow> PacketInformation \<Rightarrow> PacketInformation" where
  "set_flag f i = i\<lparr>info_packet_type_flags := info_packet_type_flags i OR flag_value f\<rparr>"

definition has_flag :: "RTCPPacketTypeFlags \<Rightarrow> PacketInformation \<Rightarrow> bool" where
  "has_flag f i \<longleftrightarrow> info_packet_type_flags i AND flag_value f \<noteq> 0"

record rx_config =
  cfg_receiver_only :: bool
  cfg_enable_congestion_controller_feedback :: bool
  cfg_network_link_rtcp_observer :: bool
  cfg_intra_frame_observer :: bool
  cfg_loss_notification_observer :: bool
  cfg_network_state_estimate_observer :: bool
  cfg_bitrate_allocation_observer :: bool
  cfg_cname_callback :: bool
  cfg_report_block_data_observer :: bool
  cfg_packet_type_counter_observer :: bool
  cfg_report_interval :: TimeDelta

datatype callback =
  OnCname u32 bytes
| RtcpPacketTypesCounterUpdated u32 RtcpPacketTypeCounter
| SetTmmbn "TmmbItem list"
| OnRequestSendReport
| OnReceivedNack "u16 list"
| OnReceivedRtcpReportBlocks "ReportBlockData list"
| OnReceivedIntraFrameRequest u32
| OnReceivedLossNotification u32 u16 u16 bool
| OnRemoteNetworkEstimate NetworkStateEstimate
| OnReceiverEstimatedMaxBitrate Timestamp DataRate
| OnReport Timestamp "ReportBlockData list"
| OnRttUpdate Timestamp TimeDelta
| OnTransportFeedback Timestamp TransportFeedback
| OnCongestionControlFeedback Timestamp Ccfb
| OnBitrateAllocationUpdated VideoBitrateAllocation
| OnReportBlockDataUpdated ReportBlockData

text \<open>
  \<open>received_rrtrs_\<close> is a linked list and \<open>received_rrtrs_ssrc_it_\<close> maps an SSRC to an iterator
  into it. Each node carries the identity that an iterator to it holds; \<open>rx_next_node\<close> is the
  first identity not used so far.
\<close>

record RTCPReceiver =
  rx_registered_ssrcs :: "u32 list"
  rx_remote_ssrc :: u32
  rx_remote_sender :: SenderReportStats
  rx_received_rrtrs :: "(nat \<times> RrtrInformation) list"
  rx_next_node :: nat
  rx_received_rrtrs_ssrc_it :: "(u32, nat) smap"
  rx_xr_rrtr_status :: bool
  rx_xr_rr_rtt :: "TimeDelta option"
  rx_oldest_tmmbr_info :: Timestamp
  rx_tmmbr_infos :: "(u32, TmmbrInformation) smap"
  rx_rtts :: "(u32, RttStats) smap"
  rx_non_sender_rtts :: "(u32, NonSenderRttStats) smap"
  rx_received_report_blocks :: "(u32, ReportBlockData) smap"
  rx_last_fir :: "(u32, LastFirStatus) smap"
  rx_last_received_rb :: Timestamp
  rx_last_increased_sequence_number :: Timestamp
  rx_packet_type_counter :: RtcpPacketTypeCounter
  rx_nack_stats :: RtcpNackStats
  rx_num_skipped_packets :: nat
  rx_last_skipped_packets_warning :: Timestamp

section \<open>RegisteredSsrcs and the constructor\<close>

definition RegisteredSsrcs_init :: "u32 \<Rightarrow> u32 option \<Rightarrow> u32 option \<Rightarrow> u32 list" where
  "RegisteredSsrcs_init local_media_ssrc rtx_send_ssrc flexfec_ssrc =
     local_media_ssrc # (case rtx_send_ssrc of Some s \<Rightarrow> [s] | None \<Rightarrow> []) @
     (case flexfec_ssrc of Some s \<Rightarrow> [s] | None \<Rightarrow> [])"

definition RegisteredSsrcs_contains :: "u32 list \<Rightarrow> u32 \<Rightarrow> bool" where
  "RegisteredSsrcs_contains ssrcs ssrc = List.member ssrcs ssrc"

definition local_media_ssrc :: "RTCPReceiver \<Rightarrow> u32" where
  "local_media_ssrc rx = rx_registered_ssrcs rx ! 0"

definition set_local_media_ssrc :: "u32 \<Rightarrow> RTCPReceiver \<Rightarrow> RTCPReceiver" where
  "set_local_media_ssrc ssrc rx = rx\<lparr>rx_registered_ssrcs := (rx_registered_ssrcs rx)[0 := ssrc]\<rparr>"

definition report_interval_of :: "int \<Rightarrow> bool \<Rightarrow> TimeDelta" where
  "report_interval_of rtcp_report_interval_ms audio =
     (if rtcp_report_interval_ms > 0 then TimeDelta_Millis rtcp_report_interval_ms
      else if audio then TimeDelta_Seconds 5 else TimeDelta_Seconds 1)"

definition RTCPReceiver_init :: "Clock \<Rightarrow> u32 list \<Rightarrow> bool \<Rightarrow> RTCPReceiver" where
  "RTCPReceiver_init clk ssrcs non_sender_rtt_measurement =
     \<lparr>rx_registered_ssrcs = ssrcs, rx_remote_ssrc = 0, rx_remote_sender = SenderReportStats_init,
      rx_received_rrtrs = [], rx_next_node = 0, rx_received_rrtrs_ssrc_it = [],
      rx_xr_rrtr_status = non_sender_rtt_measurement, rx_xr_rr_rtt = None, rx_oldest_tmmbr_info = 0,
      rx_tmmbr_infos = [], rx_rtts = [], rx_non_sender_rtts = [], rx_received_report_blocks = [],
      rx_last_fir = [], rx_last_received_rb = PlusInfinity, rx_last_increased_sequence_number = PlusInfinity,
      rx_packet_type_counter = RtcpPacketTypeCounter_init, rx_nack_stats = RtcpNackStats_init,
      rx_num_skipped_packets = 0, rx_last_skipped_packets_warning = clk_now clk\<rparr>"

section \<open>TMMBR bookkeeping\<close>

definition FindOrCreateTmmbrInfo :: "Clock \<Rightarrow> u32 \<Rightarrow> RTCPReceiver \<Rightarrow> TmmbrInformation \<times> RTCPReceiver" where
  "FindOrCreateTmmbrInfo clk remote_ssrc rx =
     (let tmmbr_info = (case smap_find (rx_tmmbr_infos rx) remote_ssrc of
                          Some t \<Rightarrow> t | None \<Rightarrow> TmmbrInformation_init)\<lparr>tm_last_time_received := clk_now clk\<rparr>
      in (tmmbr_info, rx\<lparr>rx_tmmbr_infos := smap_set remote_ssrc tmmbr_info (rx_tmmbr_infos rx)\<rparr>))"

definition UpdateTmmbrRemoteIsAlive :: "Clock \<Rightarrow> u32 \<Rightarrow> RTCPReceiver \<Rightarrow> RTCPReceiver" where
  "UpdateTmmbrRemoteIsAlive clk remote_ssrc rx =
     (case smap_find (rx_tmmbr_infos rx) remote_ssrc of
        Some t \<Rightarrow> rx\<lparr>rx_tmmbr_infos :=
          smap_set remote_ssrc (t\<lparr>tm_last_time_received := clk_now clk\<rparr>) (rx_tmmbr_infos rx)\<rparr>
      | None \<Rightarrow> rx)"

text \<open>The loop of \<open>UpdateTmmbrTimers\<close> over the entries; it also returns \<open>oldest_tmmbr_info_\<close> and
  \<open>update_bounding_set\<close>.\<close>

fun tmmbr_timers_loop :: "Timestamp \<Rightarrow> (u32, TmmbrInformation) smap \<Rightarrow> Timestamp \<Rightarrow> bool
    \<Rightarrow> (u32, TmmbrInformation) smap \<times> Timestamp \<times> bool" where
  "tmmbr_timers_loop timeout [] oldest update = ([], oldest, update)"
| "tmmbr_timers_loop timeout ((ssrc, t) # es) oldest update =
     (if tm_last_time_received t > 0 then
        if tm_last_time_received t < timeout then
          let (es', r) = tmmbr_timers_loop timeout es oldest True
          in ((ssrc, t\<lparr>tm_tmmbr := [], tm_last_time_received := 0\<rparr>) # es', r)
        else
          let oldest' = (if oldest = MinusInfinity \<or> tm_last_time_received t < oldest
                         then tm_last_time_received t else oldest);
              (es', r) = tmmbr_timers_loop timeout es oldest' update
          in ((ssrc, t) # es', r)
      else if tm_ready_for_delete t then tmmbr_timers_loop timeout es oldest update
      else let (es', r) = tmmbr_timers_loop timeout es oldest update in ((ssrc, t) # es', r))"

definition UpdateTmmbrTimers :: "Clock \<Rightarrow> RTCPReceiver \<Rightarrow> bool \<times> RTCPReceiver" where
  "UpdateTmmbrTimers clk rx =
     (let timeout = Timestamp_minus_delta (clk_now clk) kTmmbrTimeoutInterval
      in if rx_oldest_tmmbr_info rx \<ge> timeout then (False, rx)
         else let (es, oldest, update) = tmmbr_timers_loop timeout (rx_tmmbr_infos rx) MinusInfinity False
              in (update, rx\<lparr>rx_tmmbr_infos := es, rx_oldest_tmmbr_info := oldest\<rparr>))"

definition BoundingSet :: "RTCPReceiver \<Rightarrow> bool \<Rightarrow> TmmbItem list \<times> bool" where
  "BoundingSet rx tmmbr_owner =
     (case smap_find (rx_tmmbr_infos rx) (rx_remote_ssrc rx) of
        None \<Rightarrow> ([], tmmbr_owner)
      | Some t \<Rightarrow> (tm_tmmbn t, TMMBRHelp_IsOwner (tm_tmmbn t) (local_media_ssrc rx)))"

definition tmmbr_expired :: "Clock \<Rightarrow> TimedTmmbrItem \<Rightarrow> bool" where
  "tmmbr_expired clk it \<longleftrightarrow> Timestamp_minus (clk_now clk) (ti_last_updated it) > kTmmbrTimeoutInterval"

definition TmmbrReceived :: "Clock \<Rightarrow> RTCPReceiver \<Rightarrow> TmmbItem list \<times> RTCPReceiver" where
  "TmmbrReceived clk rx =
     (let infos = map (\<lambda>(ssrc, t). (ssrc, t\<lparr>tm_tmmbr := filter (\<lambda>e. \<not> tmmbr_expired clk (snd e)) (tm_tmmbr t)\<rparr>))
                    (rx_tmmbr_infos rx)
      in (concat (map (\<lambda>(ssrc, t). map (\<lambda>e. ti_tmmbr_item (snd e)) (tm_tmmbr t)) infos),
          rx\<lparr>rx_tmmbr_infos := infos\<rparr>))"

definition NotifyTmmbrUpdated :: "(TmmbItem list \<Rightarrow> TmmbItem list) \<Rightarrow> rx_config \<Rightarrow> Clock \<Rightarrow> RTCPReceiver
    \<Rightarrow> callback list \<times> RTCPReceiver" where
  "NotifyTmmbrUpdated FindBoundingSet cfg clk rx =
     (let (candidates, rx') = TmmbrReceived clk rx;
          bounding = FindBoundingSet candidates;
          bitrate_bps = TMMBRHelp_CalcMinBitrateBps bounding;
          notify = (if bounding \<noteq> [] \<and> cfg_network_link_rtcp_observer cfg \<and> bitrate_bps < 2 ^ 63 - 1
                    then [OnReceiverEstimatedMaxBitrate (clk_now clk) (uint bitrate_bps)] else [])
      in (notify @ [SetTmmbn bounding], rx'))"

section \<open>Sender and receiver reports\<close>

definition report_rtt :: "Clock \<Rightarrow> ReportBlock \<Rightarrow> TimeDelta" where
  "report_rtt clk report_block =
     (let receive_time_ntp = CompactNtp (clk_to_ntp clk (clk_now clk));
          rtt_ntp = receive_time_ntp - delay_since_last_sr report_block - last_sr report_block
      in CompactNtpRttToTimeDelta rtt_ntp)"

definition HandleReportBlock :: "Clock \<Rightarrow> ReportBlock \<Rightarrow> u32 \<Rightarrow> RTCPReceiver \<times> PacketInformation
    \<Rightarrow> RTCPReceiver \<times> PacketInformation" where
  "HandleReportBlock clk report_block remote_ssrc s =
     (let (rx, info) = s
      in if \<not> RegisteredSsrcs_contains (rx_registered_ssrcs rx) (source_ssrc report_block) then (rx, info)
         else
           let now = clk_now clk;
               report_block_data = (case smap_find (rx_received_report_blocks rx) (source_ssrc report_block) of
                                      Some d \<Rightarrow> d | None \<Rightarrow> ReportBlockData_init);
               rx1 = rx\<lparr>rx_last_received_rb := now,
                        rx_last_increased_sequence_number :=
                          (if extended_high_seq_num report_block > rbd_extended_highest_sequence_number report_block_data
                           then now else rx_last_increased_sequence_number rx)\<rparr>;
               d1 = SetReportBlock remote_ssrc report_block (NtpToUtc (clk_to_ntp clk now)) now report_block_data
           in if last_sr report_block \<noteq> 0 then
                let rtt = report_rtt clk report_block;
                    d2 = AddRoundTripTimeSample rtt d1;
                    stats = (case smap_find (rx_rtts rx) remote_ssrc of Some r \<Rightarrow> r | None \<Rightarrow> RttStats_init);
                    rx2 = rx1\<lparr>rx_received_report_blocks :=
                                smap_set (source_ssrc report_block) d2 (rx_received_report_blocks rx),
                              rx_rtts := (if source_ssrc report_block = local_media_ssrc rx
                                          then smap_set remote_ssrc (AddRtt rtt stats) (rx_rtts rx) else rx_rtts rx)\<rparr>
                in (rx2, info\<lparr>info_rtt := Some rtt, info_report_block_datas := info_report_block_datas info @ [d2]\<rparr>)
              else (rx1\<lparr>rx_received_report_blocks :=
                          smap_set (source_ssrc report_block) d1 (rx_received_report_blocks rx)\<rparr>,
                    info\<lparr>info_report_block_datas := info_report_block_datas info @ [d1]\<rparr>))"

definition HandleSenderReport :: "Clock \<Rightarrow> CommonHeader \<Rightarrow> RTCPReceiver \<Rightarrow> PacketInformation
    \<Rightarrow> (bool \<times> RTCPReceiver \<times> PacketInformation) option" where
  "HandleSenderReport clk rtcp_block rx info = do {
     r \<leftarrow> SenderReport_Parse rtcp_block;
     case r of
       Rejected \<Rightarrow> Some (False, rx, info)
     | Accepted sr \<Rightarrow>
         let remote_ssrc = sender_ssrc sr;
             info1 = info\<lparr>info_remote_ssrc := remote_ssrc\<rparr>;
             rx1 = UpdateTmmbrRemoteIsAlive clk remote_ssrc rx;
             (rx2, info2) =
               (if rx_remote_ssrc rx1 = remote_ssrc then
                  (rx1\<lparr>rx_remote_sender := (rx_remote_sender rx1)\<lparr>srs_last_remote_ntp_timestamp := sr_ntp sr,
                       srs_last_remote_rtp_timestamp := sr_rtp_timestamp sr,
                       srs_last_arrival_timestamp := clk_now clk,
                       srs_last_arrival_ntp_timestamp := CurrentNtpTime clk,
                       srs_packets_sent := sr_sender_packet_count sr,
                       srs_bytes_sent := ucast (sr_sender_octet_count sr),
                       srs_reports_count := srs_reports_count (rx_remote_sender rx1) + 1\<rparr>\<rparr>,
                   set_flag kRtcpSr info1)
                else (rx1, set_flag kRtcpRr info1));
             (rx3, info3) = fold (\<lambda>rb. HandleReportBlock clk rb remote_ssrc) (sr_report_blocks sr) (rx2, info2)
         in Some (True, rx3, info3)
   }"

definition HandleReceiverReport :: "Clock \<Rightarrow> CommonHeader \<Rightarrow> RTCPReceiver \<Rightarrow> PacketInformation
    \<Rightarrow> (bool \<times> RTCPReceiver \<times> PacketInformation) option" where
  "HandleReceiverReport clk rtcp_block rx info = do {
     r \<leftarrow> ReceiverReport_Parse rtcp_block;
     case r of
       Rejected \<Rightarrow> Some (False, rx, info)
     | Accepted rr \<Rightarrow>
         let remote_ssrc = sender_ssrc rr;
             info1 = info\<lparr>info_remote_ssrc := remote_ssrc\<rparr>;
             rx1 = UpdateTmmbrRemoteIsAlive clk remote_ssrc rx;
             (rx2, info2) = fold (\<lambda>rb. HandleReportBlock clk rb remote_ssrc) (rr_report_blocks rr)
                              (rx1, set_flag kRtcpRr info1)
         in Some (True, rx2, info2)
   }"

section \<open>The other standard blocks\<close>

definition HandleSdes :: "rx_config \<Rightarrow> CommonHeader \<Rightarrow> PacketInformation
    \<Rightarrow> (bool \<times> PacketInformation \<times> callback list) option" where
  "HandleSdes cfg rtcp_block info = do {
     r \<leftarrow> Sdes_Parse rtcp_block;
     case r of
       Rejected \<Rightarrow> Some (False, info, [])
     | Accepted sdes \<Rightarrow>
         Some (True, set_flag kRtcpSdes info,
           if cfg_cname_callback cfg then map (\<lambda>chunk. OnCname (chunk_ssrc chunk) (chunk_cname chunk)) (sdes_chunks sdes)
           else [])
   }"

definition HandleNack :: "rx_config \<Rightarrow> CommonHeader \<Rightarrow> RTCPReceiver \<Rightarrow> PacketInformation
    \<Rightarrow> (bool \<times> RTCPReceiver \<times> PacketInformation) option" where
  "HandleNack cfg rtcp_block rx info = do {
     r \<leftarrow> Nack_Parse rtcp_block;
     case r of
       Rejected \<Rightarrow> Some (False, rx, info)
     | Accepted nack \<Rightarrow>
         if cfg_receiver_only cfg \<or> local_media_ssrc rx \<noteq> media_ssrc nack then Some (True, rx, info)
         else
           let ids = nack_packet_ids nack;
               info1 = info\<lparr>info_nack_sequence_numbers := info_nack_sequence_numbers info @ ids\<rparr>;
               stats = fold ReportRequest ids (rx_nack_stats rx);
               rx1 = rx\<lparr>rx_nack_stats := stats\<rparr>;
               counter = rx_packet_type_counter rx
           in if ids \<noteq> [] then
                Some (True,
                  rx1\<lparr>rx_packet_type_counter := counter\<lparr>ptc_nack_packets := ptc_nack_packets counter + 1,
                    ptc_nack_requests := nst_requests stats, ptc_unique_nack_requests := nst_unique_requests stats\<rparr>\<rparr>,
                  set_flag kRtcpNack info1)
              else Some (True, rx1, info1)
   }"

definition HandleApp :: "CommonHeader \<Rightarrow> PacketInformation \<Rightarrow> (bool \<times> PacketInformation) option" where
  "HandleApp rtcp_block info = do {
     r \<leftarrow> App_Parse rtcp_block;
     case r of
       Rejected \<Rightarrow> Some (False, info)
     | Accepted app \<Rightarrow>
         if app_name app = RemoteEstimate_kName \<and> app_sub_type app = RemoteEstimate_kSubType then do {
           q \<leftarrow> RemoteEstimate_ParseData (RemoteEstimate_of_App app);
           case q of
             Accepted est \<Rightarrow> Some (True, info\<lparr>info_network_state_estimate := Some (re_estimate est)\<rparr>)
           | Rejected \<Rightarrow> Some (True, info)
         }
         else Some (True, info)
   }"

text \<open>\<open>received_rrtrs_.erase(it)\<close>: undefined unless the iterator points to a node of the list.\<close>

definition erase_node :: "nat \<Rightarrow> (nat \<times> RrtrInformation) list \<Rightarrow> (nat \<times> RrtrInformation) list option" where
  "erase_node it nodes = (if it \<in> fst ` set nodes then Some (filter (\<lambda>n. fst n \<noteq> it) nodes) else None)"

definition HandleBye :: "CommonHeader \<Rightarrow> RTCPReceiver \<Rightarrow> (bool \<times> RTCPReceiver) option" where
  "HandleBye rtcp_block rx = do {
     r \<leftarrow> Bye_Parse rtcp_block;
     case r of
       Rejected \<Rightarrow> Some (False, rx)
     | Accepted bye \<Rightarrow> do {
         let ssrc = sender_ssrc bye;
         let rx1 = rx\<lparr>rx_rtts := smap_erase ssrc (rx_rtts rx),
                      rx_received_report_blocks :=
                        filter (\<lambda>e. rbd_sender_ssrc (snd e) \<noteq> ssrc) (rx_received_report_blocks rx),
                      rx_tmmbr_infos :=
                        (case smap_find (rx_tmmbr_infos rx) ssrc of
                           Some t \<Rightarrow> smap_set ssrc (t\<lparr>tm_ready_for_delete := True\<rparr>) (rx_tmmbr_infos rx)
                         | None \<Rightarrow> rx_tmmbr_infos rx),
                      rx_last_fir := smap_erase ssrc (rx_last_fir rx)\<rparr>;
         rx2 \<leftarrow> (case smap_find (rx_received_rrtrs_ssrc_it rx1) ssrc of
                   Some it \<Rightarrow> do {
                     nodes \<leftarrow> erase_node it (rx_received_rrtrs rx1);
                     Some (rx1\<lparr>rx_received_rrtrs := nodes,
                               rx_received_rrtrs_ssrc_it := smap_erase ssrc (rx_received_rrtrs_ssrc_it rx1)\<rparr>)
                   }
                 | None \<Rightarrow> Some rx1);
         Some (True, rx2\<lparr>rx_xr_rr_rtt := None\<rparr>)
       }
   }"

section \<open>Extended reports\<close>

text \<open>Writing through an iterator: undefined unless it points to a node of the list.\<close>

definition update_node :: "nat \<Rightarrow> (RrtrInformation \<Rightarrow> RrtrInformation) \<Rightarrow> (nat \<times> RrtrInformation) list
    \<Rightarrow> (nat \<times> RrtrInformation) list option" where
  "update_node it f nodes =
     (if it \<in> fst ` set nodes then Some (map (\<lambda>n. if fst n = it then (it, f (snd n)) else n) nodes) else None)"

definition HandleXrReceiveReferenceTime :: "Clock \<Rightarrow> u32 \<Rightarrow> Rrtr \<Rightarrow> RTCPReceiver \<Rightarrow> RTCPReceiver option" where
  "HandleXrReceiveReferenceTime clk ssrc rrtr rx =
     (let received_remote_mid_ntp_time = CompactNtp rrtr;
          local_receive_mid_ntp_time = CompactNtp (CurrentNtpTime clk)
      in case smap_find (rx_received_rrtrs_ssrc_it rx) ssrc of
           Some it \<Rightarrow> do {
             nodes \<leftarrow> update_node it (\<lambda>n. n\<lparr>rrtr_received_remote_mid_ntp_time := received_remote_mid_ntp_time,
                         rrtr_local_receive_mid_ntp_time := local_receive_mid_ntp_time\<rparr>) (rx_received_rrtrs rx);
             Some (rx\<lparr>rx_received_rrtrs := nodes\<rparr>)
           }
         | None \<Rightarrow>
             if length (rx_received_rrtrs rx) < kMaxNumberOfStoredRrtrs then
               Some (rx\<lparr>rx_received_rrtrs := rx_received_rrtrs rx @ [(rx_next_node rx, \<lparr>rrtr_ssrc = ssrc,
                          rrtr_received_remote_mid_ntp_time = received_remote_mid_ntp_time,
                          rrtr_local_receive_mid_ntp_time = local_receive_mid_ntp_time\<rparr>)],
                        rx_next_node := rx_next_node rx + 1,
                        rx_received_rrtrs_ssrc_it :=
                          smap_set ssrc (rx_next_node rx) (rx_received_rrtrs_ssrc_it rx)\<rparr>)
             else Some rx)"

definition invalidate_non_sender_rtt :: "u32 \<Rightarrow> RTCPReceiver \<Rightarrow> RTCPReceiver" where
  "invalidate_non_sender_rtt ssrc rx =
     (case smap_find (rx_non_sender_rtts rx) ssrc of
        Some s \<Rightarrow> rx\<lparr>rx_non_sender_rtts :=
          smap_set ssrc (NonSenderRttStats_Invalidate s) (rx_non_sender_rtts rx)\<rparr>
      | None \<Rightarrow> rx)"

definition HandleXrDlrrReportBlock :: "Clock \<Rightarrow> u32 \<Rightarrow> ReceiveTimeInfo \<Rightarrow> RTCPReceiver \<Rightarrow> RTCPReceiver" where
  "HandleXrDlrrReportBlock clk ssrc rti rx =
     (if \<not> RegisteredSsrcs_contains (rx_registered_ssrcs rx) (rti_ssrc rti) then rx
      else if \<not> rx_xr_rrtr_status rx then rx
      else if rti_last_rr rti = 0 then invalidate_non_sender_rtt ssrc rx
      else let now_ntp = CompactNtp (CurrentNtpTime clk);
               rtt_ntp = now_ntp - rti_delay_since_last_rr rti - rti_last_rr rti;
               rtt = CompactNtpRttToTimeDelta rtt_ntp;
               stats = (case smap_find (rx_non_sender_rtts rx) ssrc of Some s \<Rightarrow> s | None \<Rightarrow> NonSenderRttStats_init)
           in rx\<lparr>rx_xr_rr_rtt := Some rtt,
                 rx_non_sender_rtts := smap_set ssrc (NonSenderRttStats_Update rtt stats) (rx_non_sender_rtts rx)\<rparr>)"

fun set_target_bitrates :: "TargetBitrate \<Rightarrow> VideoBitrateAllocation \<Rightarrow> VideoBitrateAllocation option" where
  "set_target_bitrates [] a = Some a"
| "set_target_bitrates (item # items) a =
     (if unat (spatial_layer item) \<ge> kMaxSpatialLayers \<or> unat (temporal_layer item) \<ge> kMaxTemporalStreams
      then set_target_bitrates items a
      else do {
        (_, a') \<leftarrow> SetBitrate (unat (spatial_layer item)) (unat (temporal_layer item)) (target_bitrate_kbps item * 1000) a;
        set_target_bitrates items a'
      })"

definition HandleXrTargetBitrate :: "u32 \<Rightarrow> TargetBitrate \<Rightarrow> RTCPReceiver \<Rightarrow> PacketInformation \<Rightarrow> PacketInformation option" where
  "HandleXrTargetBitrate ssrc target rx info =
     (if ssrc \<noteq> rx_remote_ssrc rx then Some info
      else do {
        bitrate_allocation \<leftarrow> set_target_bitrates target VideoBitrateAllocation_init;
        Some (info\<lparr>info_target_bitrate_allocation := Some bitrate_allocation\<rparr>)
      })"

text \<open>The third and fourth result are \<open>contains_dlrr\<close> and \<open>ssrc\<close>, with the caller's initial values on failure.\<close>

definition HandleXr :: "Clock \<Rightarrow> CommonHeader \<Rightarrow> RTCPReceiver \<Rightarrow> PacketInformation
    \<Rightarrow> (bool \<times> RTCPReceiver \<times> PacketInformation \<times> bool \<times> u32) option" where
  "HandleXr clk rtcp_block rx info = do {
     r \<leftarrow> ExtendedReports_Parse rtcp_block;
     case r of
       Rejected \<Rightarrow> Some (False, rx, info, False, 0)
     | Accepted xr \<Rightarrow> do {
         let ssrc = sender_ssrc xr;
         rx1 \<leftarrow> (case rrtr_block xr of
                   Some rrtr \<Rightarrow> HandleXrReceiveReferenceTime clk ssrc rrtr rx
                 | None \<Rightarrow> Some rx);
         let rx2 = fold (HandleXrDlrrReportBlock clk ssrc) (dlrr_block xr) rx1;
         info' \<leftarrow> (case target_bitrate xr of
                     Some target \<Rightarrow> HandleXrTargetBitrate ssrc target rx2 info
                   | None \<Rightarrow> Some info);
         Some (True, rx2, info', dlrr_block xr \<noteq> [], ssrc)
       }
   }"

section \<open>Feedback messages\<close>

definition HandlePli :: "CommonHeader \<Rightarrow> RTCPReceiver \<Rightarrow> PacketInformation
    \<Rightarrow> (bool \<times> RTCPReceiver \<times> PacketInformation) option" where
  "HandlePli rtcp_block rx info = do {
     r \<leftarrow> Pli_Parse rtcp_block;
     case r of
       Rejected \<Rightarrow> Some (False, rx, info)
     | Accepted pli \<Rightarrow>
         if local_media_ssrc rx = media_ssrc pli then
           let counter = rx_packet_type_counter rx
           in Some (True, rx\<lparr>rx_packet_type_counter := counter\<lparr>ptc_pli_packets := ptc_pli_packets counter + 1\<rparr>\<rparr>,
                set_flag kRtcpPli info)
         else Some (True, rx, info)
   }"

definition tmmbr_requested :: "RTCPReceiver \<Rightarrow> TmmbItem list \<Rightarrow> TmmbItem option" where
  "tmmbr_requested rx requests =
     find (\<lambda>request. \<not> (local_media_ssrc rx \<noteq> tmmb_ssrc request \<or> tmmb_bitrate_bps request = 0)) requests"

definition HandleTmmbr :: "Clock \<Rightarrow> CommonHeader \<Rightarrow> RTCPReceiver \<Rightarrow> PacketInformation
    \<Rightarrow> (bool \<times> RTCPReceiver \<times> PacketInformation) option" where
  "HandleTmmbr clk rtcp_block rx info = do {
     r \<leftarrow> Tmmbr_Parse rtcp_block;
     case r of
       Rejected \<Rightarrow> Some (False, rx, info)
     | Accepted tmmbr \<Rightarrow>
         let ssrc = (if media_ssrc tmmbr \<noteq> 0 then media_ssrc tmmbr else sender_ssrc tmmbr)
         in case tmmbr_requested rx (tmmb_items tmmbr) of
              None \<Rightarrow> Some (True, rx, info)
            | Some request \<Rightarrow>
                let (tmmbr_info, rx1) = FindOrCreateTmmbrInfo clk (sender_ssrc tmmbr) rx;
                    entry = \<lparr>ti_tmmbr_item = \<lparr>tmmb_ssrc = ssrc, tmmb_bitrate_bps = tmmb_bitrate_bps request,
                               tmmb_packet_overhead = tmmb_packet_overhead request\<rparr>,
                             ti_last_updated = tm_last_time_received tmmbr_info\<rparr>;
                    tmmbr_info' = tmmbr_info\<lparr>tm_tmmbr := smap_set ssrc entry (tm_tmmbr tmmbr_info)\<rparr>
                in Some (True, rx1\<lparr>rx_tmmbr_infos := smap_set (sender_ssrc tmmbr) tmmbr_info' (rx_tmmbr_infos rx1)\<rparr>,
                     set_flag kRtcpTmmbr info)
   }"

definition HandleTmmbn :: "Clock \<Rightarrow> CommonHeader \<Rightarrow> RTCPReceiver \<Rightarrow> PacketInformation
    \<Rightarrow> (bool \<times> RTCPReceiver \<times> PacketInformation) option" where
  "HandleTmmbn clk rtcp_block rx info = do {
     r \<leftarrow> Tmmbn_Parse rtcp_block;
     case r of
       Rejected \<Rightarrow> Some (False, rx, info)
     | Accepted tmmbn \<Rightarrow>
         let (tmmbr_info, rx1) = FindOrCreateTmmbrInfo clk (sender_ssrc tmmbn) rx
         in Some (True, rx1\<lparr>rx_tmmbr_infos := smap_set (sender_ssrc tmmbn)
                (tmmbr_info\<lparr>tm_tmmbn := tmmb_items tmmbn\<rparr>) (rx_tmmbr_infos rx1)\<rparr>,
              set_flag kRtcpTmmbn info)
   }"

definition HandleSrReq :: "CommonHeader \<Rightarrow> PacketInformation \<Rightarrow> (bool \<times> PacketInformation) option" where
  "HandleSrReq rtcp_block info = do {
     r \<leftarrow> RapidResyncRequest_Parse rtcp_block;
     case r of
       Rejected \<Rightarrow> Some (False, info)
     | Accepted sr_req \<Rightarrow> Some (True, set_flag kRtcpSrReq info)
   }"

definition skip_packet :: "RTCPReceiver \<Rightarrow> RTCPReceiver" where
  "skip_packet rx = rx\<lparr>rx_num_skipped_packets := rx_num_skipped_packets rx + 1\<rparr>"

definition HandlePsfbApp :: "CommonHeader \<Rightarrow> RTCPReceiver \<Rightarrow> PacketInformation
    \<Rightarrow> (RTCPReceiver \<times> PacketInformation) option" where
  "HandlePsfbApp rtcp_block rx info = do {
     r \<leftarrow> Remb_Parse rtcp_block;
     case r of
       Accepted remb \<Rightarrow>
         Some (rx, (set_flag kRtcpRemb info)\<lparr>info_receiver_estimated_max_bitrate_bps := of_int (remb_bitrate_bps remb)\<rparr>)
     | Rejected \<Rightarrow> do {
         q \<leftarrow> LossNotification_Parse rtcp_block;
         case q of
           Accepted loss_notification \<Rightarrow>
             Some (rx, (set_flag kRtcpLossNotification info)\<lparr>info_loss_notification := Some loss_notification\<rparr>)
         | Rejected \<Rightarrow> Some (skip_packet rx, info)
       }
   }"

text \<open>One iteration of the loop of \<open>HandleFir\<close> over the requests.\<close>

definition HandleFir_request :: "Clock \<Rightarrow> u32 \<Rightarrow> Fir_Request \<Rightarrow> RTCPReceiver \<times> PacketInformation
    \<Rightarrow> RTCPReceiver \<times> PacketInformation" where
  "HandleFir_request clk remote_ssrc fir_request s =
     (let (rx, info) = s; now = clk_now clk; counter = rx_packet_type_counter rx
      in if local_media_ssrc rx \<noteq> fir_ssrc fir_request then (rx, info)
         else
           let rx1 = rx\<lparr>rx_packet_type_counter := counter\<lparr>ptc_fir_packets := ptc_fir_packets counter + 1\<rparr>\<rparr>;
               fresh = \<lparr>lf_request = now, lf_sequence_number = fir_seq_nr fir_request\<rparr>
           in case smap_find (rx_last_fir rx1) remote_ssrc of
                None \<Rightarrow> (rx1\<lparr>rx_last_fir := smap_set remote_ssrc fresh (rx_last_fir rx1)\<rparr>, set_flag kRtcpFir info)
              | Some last_fir \<Rightarrow>
                  if fir_seq_nr fir_request = lf_sequence_number last_fir then (rx1, info)
                  else if Timestamp_minus now (lf_request last_fir) < kRtcpMinFrameLength then (rx1, info)
                  else (rx1\<lparr>rx_last_fir := smap_set remote_ssrc fresh (rx_last_fir rx1)\<rparr>, set_flag kRtcpFir info))"

definition HandleFir :: "Clock \<Rightarrow> CommonHeader \<Rightarrow> RTCPReceiver \<Rightarrow> PacketInformation
    \<Rightarrow> (bool \<times> RTCPReceiver \<times> PacketInformation) option" where
  "HandleFir clk rtcp_block rx info = do {
     r \<leftarrow> Fir_Parse rtcp_block;
     case r of
       Rejected \<Rightarrow> Some (False, rx, info)
     | Accepted fir \<Rightarrow>
         if fir_items fir = [] then Some (True, rx, info)
         else Some (True, fold (HandleFir_request clk (sender_ssrc fir)) (fir_items fir) (rx, info))
   }"

definition HandleTransportFeedback :: "CommonHeader \<Rightarrow> RTCPReceiver \<Rightarrow> PacketInformation
    \<Rightarrow> (RTCPReceiver \<times> PacketInformation) option" where
  "HandleTransportFeedback rtcp_block rx info = do {
     r \<leftarrow> TransportFeedback_Parse rtcp_block;
     case r of
       Rejected \<Rightarrow> Some (skip_packet rx, info)
     | Accepted transport_feedback \<Rightarrow>
         let media_source_ssrc = media_ssrc transport_feedback
         in if media_source_ssrc = local_media_ssrc rx \<or>
               RegisteredSsrcs_contains (rx_registered_ssrcs rx) media_source_ssrc
            then Some (rx, (set_flag kRtcpTransportFeedback info)\<lparr>info_transport_feedback := Some transport_feedback\<rparr>)
            else Some (rx, info)
   }"

definition HandleCongestionControlFeedback :: "CommonHeader \<Rightarrow> RTCPReceiver \<Rightarrow> PacketInformation
    \<Rightarrow> (bool \<times> PacketInformation) option" where
  "HandleCongestionControlFeedback rtcp_block rx info = do {
     r \<leftarrow> Ccfb_Parse rtcp_block;
     case r of
       Rejected \<Rightarrow> Some (False, info)
     | Accepted feedback \<Rightarrow>
         (case ccfb_packets feedback of
            [] \<Rightarrow> Some (False, info)
          | p # ps \<Rightarrow>
              if pi_ssrc p = local_media_ssrc rx \<or> RegisteredSsrcs_contains (rx_registered_ssrcs rx) (pi_ssrc p)
              then Some (True, info\<lparr>info_congestion_control_feedback := Some feedback\<rparr>)
              else Some (True, info))
   }"

section \<open>ParseCompoundPacket\<close>

record RtcpReceivedBlock =
  rb_sender_report :: bool
  rb_dlrr :: bool

definition received_block :: "u32 \<Rightarrow> (u32, RtcpReceivedBlock) smap \<Rightarrow> RtcpReceivedBlock" where
  "received_block ssrc m =
     (case smap_find m ssrc of Some b \<Rightarrow> b | None \<Rightarrow> \<lparr>rb_sender_report = False, rb_dlrr = False\<rparr>)"

text \<open>What the loop over the blocks carries: the receiver, the packet information, the local variable
  \<open>received_blocks\<close>, and the calls made so far.\<close>

record compound =
  cp_rx :: RTCPReceiver
  cp_info :: PacketInformation
  cp_received_blocks :: "(u32, RtcpReceivedBlock) smap"
  cp_calls :: "callback list"

definition with_rx_info :: "compound \<Rightarrow> bool \<times> RTCPReceiver \<times> PacketInformation \<Rightarrow> bool \<times> compound" where
  "with_rx_info c r = (fst r, c\<lparr>cp_rx := fst (snd r), cp_info := snd (snd r)\<rparr>)"

definition HandleRtpfb :: "rx_config \<Rightarrow> Clock \<Rightarrow> CommonHeader \<Rightarrow> RTCPReceiver \<Rightarrow> PacketInformation
    \<Rightarrow> (bool \<times> RTCPReceiver \<times> PacketInformation) option" where
  "HandleRtpfb cfg clk h rx info =
     (let fmt = unat (ch_count_or_format h)
      in if fmt = Nack_kFeedbackMessageType then HandleNack cfg h rx info
         else if fmt = Tmmbr_kFeedbackMessageType then HandleTmmbr clk h rx info
         else if fmt = Tmmbn_kFeedbackMessageType then HandleTmmbn clk h rx info
         else if fmt = RapidResyncRequest_kFeedbackMessageType then do {
           (valid, info') \<leftarrow> HandleSrReq h info;
           Some (valid, rx, info')
         }
         else if fmt = Tf_kFeedbackMessageType then do {
           r \<leftarrow> HandleTransportFeedback h rx info;
           Some (True, r)
         }
         else if fmt = Ccfb_kFeedbackMessageType \<and> cfg_enable_congestion_controller_feedback cfg then do {
           (valid, info') \<leftarrow> HandleCongestionControlFeedback h rx info;
           Some (valid, rx, info')
         }
         else Some (True, skip_packet rx, info))"

definition HandlePsfb :: "Clock \<Rightarrow> CommonHeader \<Rightarrow> RTCPReceiver \<Rightarrow> PacketInformation
    \<Rightarrow> (bool \<times> RTCPReceiver \<times> PacketInformation) option" where
  "HandlePsfb clk h rx info =
     (let fmt = unat (ch_count_or_format h)
      in if fmt = Pli_kFeedbackMessageType then HandlePli h rx info
         else if fmt = Fir_kFeedbackMessageType then HandleFir clk h rx info
         else if fmt = kAfbMessageType then do {
           r \<leftarrow> HandlePsfbApp h rx info;
           Some (True, r)
         }
         else Some (True, skip_packet rx, info))"

definition HandleBlock :: "rx_config \<Rightarrow> Clock \<Rightarrow> CommonHeader \<Rightarrow> compound \<Rightarrow> (bool \<times> compound) option" where
  "HandleBlock cfg clk h c =
     (let rx = cp_rx c; info = cp_info c
      in if ch_packet_type h = SenderReport_kPacketType then do {
           r \<leftarrow> HandleSenderReport clk h rx info;
           let (valid, c') = with_rx_info c r;
           let ssrc = info_remote_ssrc (cp_info c');
           Some (valid, c'\<lparr>cp_received_blocks := smap_set ssrc
             ((received_block ssrc (cp_received_blocks c))\<lparr>rb_sender_report := True\<rparr>) (cp_received_blocks c)\<rparr>)
         }
         else if ch_packet_type h = ReceiverReport_kPacketType then
           map_option (with_rx_info c) (HandleReceiverReport clk h rx info)
         else if ch_packet_type h = Sdes_kPacketType then do {
           (valid, info', calls) \<leftarrow> HandleSdes cfg h info;
           Some (valid, c\<lparr>cp_info := info', cp_calls := cp_calls c @ calls\<rparr>)
         }
         else if ch_packet_type h = ExtendedReports_kPacketType then do {
           (valid, rx', info', contains_dlrr, ssrc) \<leftarrow> HandleXr clk h rx info;
           Some (valid, c\<lparr>cp_rx := rx', cp_info := info',
             cp_received_blocks := (if contains_dlrr then smap_set ssrc
               ((received_block ssrc (cp_received_blocks c))\<lparr>rb_dlrr := True\<rparr>) (cp_received_blocks c)
               else cp_received_blocks c)\<rparr>)
         }
         else if ch_packet_type h = Bye_kPacketType then do {
           (valid, rx') \<leftarrow> HandleBye h rx;
           Some (valid, c\<lparr>cp_rx := rx'\<rparr>)
         }
         else if ch_packet_type h = App_kPacketType then do {
           (valid, info') \<leftarrow> HandleApp h info;
           Some (valid, c\<lparr>cp_info := info'\<rparr>)
         }
         else if ch_packet_type h = Rtpfb_kPacketType then map_option (with_rx_info c) (HandleRtpfb cfg clk h rx info)
         else if ch_packet_type h = Psfb_kPacketType then map_option (with_rx_info c) (HandlePsfb clk h rx info)
         else Some (True, c\<lparr>cp_rx := skip_packet rx\<rparr>))"

function compound_loop :: "rx_config \<Rightarrow> Clock \<Rightarrow> bytes \<Rightarrow> compound \<Rightarrow> (bool \<times> compound) option" where
  "compound_loop cfg clk next_block c =
     (if next_block = [] then Some (True, c)
      else case CommonHeader_Parse next_block of
             None \<Rightarrow> None
           | Some Rejected \<Rightarrow> Some (False, c)
           | Some (Accepted h) \<Rightarrow>
               (case HandleBlock cfg clk h c of
                  None \<Rightarrow> None
                | Some (valid, c') \<Rightarrow> if valid then compound_loop cfg clk (ch_next h) c' else Some (False, c')))"
  by pat_completeness auto
termination
  by (relation "measure (\<lambda>(cfg, clk, next_block, c). length next_block)") (auto dest: CommonHeader_Parse_progress)

declare compound_loop.simps [simp del]

definition warn_skipped :: "Clock \<Rightarrow> RTCPReceiver \<Rightarrow> RTCPReceiver" where
  "warn_skipped clk rx =
     (if rx_num_skipped_packets rx > 0 \<and>
         Timestamp_minus (clk_now clk) (rx_last_skipped_packets_warning rx) \<ge> kMaxWarningLogInterval
      then rx\<lparr>rx_last_skipped_packets_warning := clk_now clk\<rparr> else rx)"

definition invalidate_without_dlrr :: "(u32, RtcpReceivedBlock) smap \<Rightarrow> RTCPReceiver \<Rightarrow> RTCPReceiver" where
  "invalidate_without_dlrr blocks rx =
     fold (\<lambda>(ssrc, b) rx. if rb_sender_report b \<and> \<not> rb_dlrr b then invalidate_non_sender_rtt ssrc rx else rx) blocks rx"

definition ParseCompoundPacket :: "rx_config \<Rightarrow> Clock \<Rightarrow> bytes \<Rightarrow> RTCPReceiver
    \<Rightarrow> (bool \<times> RTCPReceiver \<times> PacketInformation \<times> callback list) option" where
  "ParseCompoundPacket cfg clk packet rx = do {
     (valid, c) \<leftarrow> compound_loop cfg clk packet
       \<lparr>cp_rx = rx, cp_info = PacketInformation_init, cp_received_blocks = [], cp_calls = []\<rparr>;
     let rx1 = warn_skipped clk (cp_rx c);
     if \<not> valid then Some (False, skip_packet rx1, cp_info c, cp_calls c)
     else let rx2 = invalidate_without_dlrr (cp_received_blocks c) rx1;
              counted = (if cfg_packet_type_counter_observer cfg
                         then [RtcpPacketTypesCounterUpdated (local_media_ssrc rx2) (rx_packet_type_counter rx2)] else [])
          in Some (True, rx2, cp_info c, cp_calls c @ counted)
   }"

section \<open>TriggerCallbacksFromRtcpPacket and IncomingPacket\<close>

definition network_link_calls :: "rx_config \<Rightarrow> Clock \<Rightarrow> PacketInformation \<Rightarrow> callback list" where
  "network_link_calls cfg clk info =
     (if cfg_network_link_rtcp_observer cfg then
        let now = clk_now clk
        in (if has_flag kRtcpRemb info
            then [OnReceiverEstimatedMaxBitrate now (uint (info_receiver_estimated_max_bitrate_bps info))] else []) @
           (if info_report_block_datas info \<noteq> [] then [OnReport now (info_report_block_datas info)] else []) @
           (case info_rtt info of Some rtt \<Rightarrow> [OnRttUpdate now rtt] | None \<Rightarrow> []) @
           (case info_transport_feedback info of Some f \<Rightarrow> [OnTransportFeedback now f] | None \<Rightarrow> []) @
           (case info_congestion_control_feedback info of Some f \<Rightarrow> [OnCongestionControlFeedback now f] | None \<Rightarrow> [])
      else [])"

definition loss_notification_calls :: "rx_config \<Rightarrow> RTCPReceiver \<Rightarrow> PacketInformation \<Rightarrow> callback list option" where
  "loss_notification_calls cfg rx info =
     (if cfg_loss_notification_observer cfg \<and> has_flag kRtcpLossNotification info then
        case info_loss_notification info of
          None \<Rightarrow> None
        | Some l \<Rightarrow> Some (if media_ssrc l = local_media_ssrc rx
            then [OnReceivedLossNotification (media_ssrc l) (last_decoded l) (last_received l) (decodability_flag l)]
            else [])
      else Some [])"

definition TriggerCallbacksFromRtcpPacket :: "(TmmbItem list \<Rightarrow> TmmbItem list) \<Rightarrow> rx_config \<Rightarrow> Clock
    \<Rightarrow> PacketInformation \<Rightarrow> RTCPReceiver \<Rightarrow> (callback list \<times> RTCPReceiver) option" where
  "TriggerCallbacksFromRtcpPacket FindBoundingSet cfg clk info rx = do {
     let (tmmbr, rx1) = (if has_flag kRtcpTmmbr info then NotifyTmmbrUpdated FindBoundingSet cfg clk rx else ([], rx));
     let sr_req = (if \<not> cfg_receiver_only cfg \<and> has_flag kRtcpSrReq info then [OnRequestSendReport] else []);
     let nack = (if \<not> cfg_receiver_only cfg \<and> has_flag kRtcpNack info \<and> info_nack_sequence_numbers info \<noteq> []
                 then [OnReceivedNack (info_nack_sequence_numbers info)] else []);
     let intra = (if cfg_intra_frame_observer cfg \<and> (has_flag kRtcpPli info \<or> has_flag kRtcpFir info)
                  then [OnReceivedIntraFrameRequest (local_media_ssrc rx1)] else []);
     loss \<leftarrow> loss_notification_calls cfg rx1 info;
     let estimate = (case info_network_state_estimate info of
                       Some e \<Rightarrow> if cfg_network_state_estimate_observer cfg then [OnRemoteNetworkEstimate e] else []
                     | None \<Rightarrow> []);
     let reports = (if has_flag kRtcpSr info \<or> has_flag kRtcpRr info
                    then [OnReceivedRtcpReportBlocks (info_report_block_datas info)] else []);
     let allocation = (case info_target_bitrate_allocation info of
                         Some a \<Rightarrow> if cfg_bitrate_allocation_observer cfg then [OnBitrateAllocationUpdated a] else []
                       | None \<Rightarrow> []);
     let datas = (if \<not> cfg_receiver_only cfg \<and> cfg_report_block_data_observer cfg
                  then map OnReportBlockDataUpdated (info_report_block_datas info) else []);
     Some (tmmbr @ sr_req @ nack @ intra @ loss @ estimate @ network_link_calls cfg clk info @ reports @
       allocation @ datas, rx1)
   }"

definition IncomingPacket :: "(TmmbItem list \<Rightarrow> TmmbItem list) \<Rightarrow> rx_config \<Rightarrow> Clock \<Rightarrow> bytes \<Rightarrow> RTCPReceiver
    \<Rightarrow> (callback list \<times> RTCPReceiver) option" where
  "IncomingPacket FindBoundingSet cfg clk packet rx =
     (if packet = [] then Some ([], rx)
      else do {
        (valid, rx1, info, calls) \<leftarrow> ParseCompoundPacket cfg clk packet rx;
        if \<not> valid then Some (calls, rx1)
        else do {
          (calls', rx2) \<leftarrow> TriggerCallbacksFromRtcpPacket FindBoundingSet cfg clk info rx1;
          Some (calls @ calls', rx2)
        }
      })"

section \<open>The other public methods\<close>

definition SetRemoteSSRC :: "u32 \<Rightarrow> RTCPReceiver \<Rightarrow> RTCPReceiver" where
  "SetRemoteSSRC ssrc rx =
     rx\<lparr>rx_remote_sender := (rx_remote_sender rx)\<lparr>srs_last_arrival_ntp_timestamp := 0\<rparr>, rx_remote_ssrc := ssrc\<rparr>"

definition LastReceivedReportBlockMs :: "RTCPReceiver \<Rightarrow> int" where
  "LastReceivedReportBlockMs rx =
     (if IsFinite (rx_last_received_rb rx) then ToFraction 1000 (rx_last_received_rb rx) else 0)"

text \<open>The outer \<open>None\<close> is the division by zero, the inner one \<open>std::nullopt\<close>.\<close>

definition AverageRtt :: "RTCPReceiver \<Rightarrow> TimeDelta option option" where
  "AverageRtt rx =
     (case smap_find (rx_rtts rx) (rx_remote_ssrc rx) of
        None \<Rightarrow> Some None
      | Some s \<Rightarrow> map_option Some (average_rtt s))"

definition LastRtt :: "RTCPReceiver \<Rightarrow> TimeDelta option" where
  "LastRtt rx = map_option rs_last_rtt (smap_find (rx_rtts rx) (rx_remote_ssrc rx))"

definition GetNonSenderRTT :: "RTCPReceiver \<Rightarrow> NonSenderRttStats" where
  "GetNonSenderRTT rx =
     (case smap_find (rx_non_sender_rtts rx) (rx_remote_ssrc rx) of Some s \<Rightarrow> s | None \<Rightarrow> NonSenderRttStats_init)"

definition SetNonSenderRttMeasurement :: "bool \<Rightarrow> RTCPReceiver \<Rightarrow> RTCPReceiver" where
  "SetNonSenderRttMeasurement enabled rx = rx\<lparr>rx_xr_rrtr_status := enabled\<rparr>"

definition GetAndResetXrRrRtt :: "RTCPReceiver \<Rightarrow> TimeDelta option \<times> RTCPReceiver" where
  "GetAndResetXrRrRtt rx = (rx_xr_rr_rtt rx, rx\<lparr>rx_xr_rr_rtt := None\<rparr>)"

definition ResetTimestampIfExpired :: "Timestamp \<Rightarrow> Timestamp \<Rightarrow> TimeDelta \<Rightarrow> bool \<times> Timestamp" where
  "ResetTimestampIfExpired now timestamp interval =
     (if IsInfinite timestamp \<or> now \<le> Timestamp_plus timestamp (unit_times interval kRrTimeoutIntervals)
      then (False, timestamp) else (True, PlusInfinity))"

definition RtcpRrTimeoutLocked :: "rx_config \<Rightarrow> Timestamp \<Rightarrow> RTCPReceiver \<Rightarrow> bool \<times> RTCPReceiver" where
  "RtcpRrTimeoutLocked cfg now rx =
     (let (expired, t) = ResetTimestampIfExpired now (rx_last_received_rb rx) (cfg_report_interval cfg)
      in (expired, rx\<lparr>rx_last_received_rb := t\<rparr>))"

definition RtcpRrSequenceNumberTimeoutLocked :: "rx_config \<Rightarrow> Timestamp \<Rightarrow> RTCPReceiver \<Rightarrow> bool \<times> RTCPReceiver" where
  "RtcpRrSequenceNumberTimeoutLocked cfg now rx =
     (let (expired, t) = ResetTimestampIfExpired now (rx_last_increased_sequence_number rx) (cfg_report_interval cfg)
      in (expired, rx\<lparr>rx_last_increased_sequence_number := t\<rparr>))"

definition RtcpRrTimeout :: "rx_config \<Rightarrow> Clock \<Rightarrow> RTCPReceiver \<Rightarrow> bool \<times> RTCPReceiver" where
  "RtcpRrTimeout cfg clk rx = RtcpRrTimeoutLocked cfg (clk_now clk) rx"

definition RtcpRrSequenceNumberTimeout :: "rx_config \<Rightarrow> Clock \<Rightarrow> RTCPReceiver \<Rightarrow> bool \<times> RTCPReceiver" where
  "RtcpRrSequenceNumberTimeout cfg clk rx = RtcpRrSequenceNumberTimeoutLocked cfg (clk_now clk) rx"

definition max_last_rtt :: "(u32, RttStats) smap \<Rightarrow> TimeDelta" where
  "max_last_rtt rtts =
     foldl (\<lambda>max_rtt e. if rs_last_rtt (snd e) > max_rtt then rs_last_rtt (snd e) else max_rtt) MinusInfinity rtts"

definition OnPeriodicRttUpdate :: "rx_config \<Rightarrow> Clock \<Rightarrow> Timestamp \<Rightarrow> bool \<Rightarrow> RTCPReceiver
    \<Rightarrow> TimeDelta option \<times> RTCPReceiver" where
  "OnPeriodicRttUpdate cfg clk newer_than sending rx =
     (if sending then
        let max_rtt = max_last_rtt (rx_rtts rx);
            rtt = (if (IsInfinite (rx_last_received_rb rx) \<or> rx_last_received_rb rx > newer_than) \<and> IsFinite max_rtt
                   then Some max_rtt else None);
            (timeout, rx1) = RtcpRrTimeoutLocked cfg (clk_now clk) rx
        in (rtt, if timeout then rx1 else snd (RtcpRrSequenceNumberTimeoutLocked cfg (clk_now clk) rx1))
      else GetAndResetXrRrRtt rx)"

definition GetSenderReportStats :: "RTCPReceiver \<Rightarrow> SenderReportStats option" where
  "GetSenderReportStats rx =
     (if \<not> NtpTime_Valid (srs_last_arrival_ntp_timestamp (rx_remote_sender rx)) then None
      else Some (rx_remote_sender rx))"

fun consume_rrtrs :: "nat \<Rightarrow> u32 \<Rightarrow> RTCPReceiver \<Rightarrow> (ReceiveTimeInfo list \<times> RTCPReceiver) option" where
  "consume_rrtrs 0 now_ntp rx = Some ([], rx)"
| "consume_rrtrs (Suc n) now_ntp rx =
     (case rx_received_rrtrs rx of
        [] \<Rightarrow> None
      | (_, rrtr) # nodes \<Rightarrow> do {
          (rtis, rx') \<leftarrow> consume_rrtrs n now_ntp (rx\<lparr>rx_received_rrtrs_ssrc_it :=
            smap_erase (rrtr_ssrc rrtr) (rx_received_rrtrs_ssrc_it rx), rx_received_rrtrs := nodes\<rparr>);
          Some (\<lparr>rti_ssrc = rrtr_ssrc rrtr, rti_last_rr = rrtr_received_remote_mid_ntp_time rrtr,
                 rti_delay_since_last_rr = now_ntp - rrtr_local_receive_mid_ntp_time rrtr\<rparr> # rtis, rx')
        })"

definition ConsumeReceivedXrReferenceTimeInfo :: "Clock \<Rightarrow> RTCPReceiver \<Rightarrow> (ReceiveTimeInfo list \<times> RTCPReceiver) option" where
  "ConsumeReceivedXrReferenceTimeInfo clk rx =
     consume_rrtrs (min (length (rx_received_rrtrs rx)) kMaxNumberOfDlrrItems) (CompactNtp (CurrentNtpTime clk)) rx"

definition GetLatestReportBlockData :: "RTCPReceiver \<Rightarrow> ReportBlockData list" where
  "GetLatestReportBlockData rx = map snd (rx_received_report_blocks rx)"

end
