(* ===== verification/Rtcp_Receiver_Inv.thy ===== *)
theory Rtcp_Receiver_Inv
  imports Rtcp_Receiver
begin

text \<open>
  The invariant of \<open>RTCPReceiver\<close> and what follows from it. The first part states the invariant and
  shows that each handler keeps it, as instances of one contract, \<open>block_handler\<close>. The second part
  concludes for whole packets: no bytes whatsoever make the receiver touch memory that is not its own, a broken packet
  reaches no observer, and the loop over the blocks is bounded by the size of the packet.
\<close>

section \<open>Flags\<close>

lemma word_or_eq_0: "a OR b = 0 \<longleftrightarrow> a = 0 \<and> b = 0" for a b :: "'a::len word"
  by (auto simp: bit_eq_iff bit_or_iff)

lemma has_flag_set_flag [simp]: "has_flag f (set_flag g i) \<longleftrightarrow> f = g \<or> has_flag f i"
proof -
  have "has_flag f (set_flag g i) \<longleftrightarrow> has_flag f i \<or> flag_value g AND flag_value f \<noteq> 0"
    by (simp add: has_flag_def set_flag_def bit.conj_disj_distrib2 word_or_eq_0)
  moreover have "flag_value g AND flag_value f \<noteq> 0 \<longleftrightarrow> f = g" by (cases f; cases g) simp_all
  ultimately show ?thesis by blast
qed

lemma has_flag_update [simp]:
  "has_flag f (i\<lparr>info_remote_ssrc := a\<rparr>) = has_flag f i"
  "has_flag f (i\<lparr>info_nack_sequence_numbers := b\<rparr>) = has_flag f i"
  "has_flag f (i\<lparr>info_report_block_datas := c\<rparr>) = has_flag f i"
  "has_flag f (i\<lparr>info_rtt := d\<rparr>) = has_flag f i"
  "has_flag f (i\<lparr>info_receiver_estimated_max_bitrate_bps := e\<rparr>) = has_flag f i"
  "has_flag f (i\<lparr>info_transport_feedback := g\<rparr>) = has_flag f i"
  "has_flag f (i\<lparr>info_congestion_control_feedback := k\<rparr>) = has_flag f i"
  "has_flag f (i\<lparr>info_target_bitrate_allocation := l\<rparr>) = has_flag f i"
  "has_flag f (i\<lparr>info_network_state_estimate := m\<rparr>) = has_flag f i"
  "has_flag f (i\<lparr>info_loss_notification := n\<rparr>) = has_flag f i"
  by (simp_all add: has_flag_def)

lemma has_flag_init [simp]: "\<not> has_flag f PacketInformation_init"
  by (simp add: has_flag_def PacketInformation_init_def)

lemma set_flag_fields [simp]:
  "info_remote_ssrc (set_flag f i) = info_remote_ssrc i"
  "info_nack_sequence_numbers (set_flag f i) = info_nack_sequence_numbers i"
  "info_report_block_datas (set_flag f i) = info_report_block_datas i"
  "info_rtt (set_flag f i) = info_rtt i"
  "info_receiver_estimated_max_bitrate_bps (set_flag f i) = info_receiver_estimated_max_bitrate_bps i"
  "info_transport_feedback (set_flag f i) = info_transport_feedback i"
  "info_congestion_control_feedback (set_flag f i) = info_congestion_control_feedback i"
  "info_target_bitrate_allocation (set_flag f i) = info_target_bitrate_allocation i"
  "info_network_state_estimate (set_flag f i) = info_network_state_estimate i"
  "info_loss_notification (set_flag f i) = info_loss_notification i"
  by (simp_all add: set_flag_def)

section \<open>The invariant\<close>

text \<open>The map of iterators and the list of nodes describe each other: an SSRC is mapped to the node that
  holds it, nodes are distinct, and there are at most 300.\<close>

definition rrtrs_ok :: "(nat \<times> RrtrInformation) list \<Rightarrow> nat \<Rightarrow> (u32, nat) smap \<Rightarrow> bool" where
  "rrtrs_ok nodes next_node its \<longleftrightarrow> distinct (map fst nodes) \<and> (\<forall>n \<in> set nodes. fst n < next_node) \<and>
     length nodes \<le> kMaxNumberOfStoredRrtrs \<and> smap_ok its \<and>
     (\<forall>ssrc it. smap_find its ssrc = Some it \<longleftrightarrow> (\<exists>r. (it, r) \<in> set nodes \<and> rrtr_ssrc r = ssrc))"

definition kMaxRtt :: TimeDelta where
  "kMaxRtt = 32768 * 1000000"

definition rtt_in_range :: "TimeDelta \<Rightarrow> bool" where
  "rtt_in_range rtt \<longleftrightarrow> 1000 \<le> rtt \<and> rtt \<le> kMaxRtt"

definition rtt_stats_ok :: "RttStats \<Rightarrow> bool" where
  "rtt_stats_ok s \<longleftrightarrow> rs_num_rtts s > 0 \<and> rtt_in_range (rs_last_rtt s) \<and>
     (rs_num_rtts s < 2 ^ 28 \<longrightarrow> int (rs_num_rtts s) * 1000 \<le> rs_sum_rtt s \<and> rs_sum_rtt s \<le> int (rs_num_rtts s) * kMaxRtt)"

definition rtts_ok :: "(u32, RttStats) smap \<Rightarrow> bool" where
  "rtts_ok m \<longleftrightarrow> smap_ok m \<and> (\<forall>e \<in> set m. rtt_stats_ok (snd e))"

definition report_blocks_ok :: "(u32, ReportBlockData) smap \<Rightarrow> bool" where
  "report_blocks_ok m \<longleftrightarrow> smap_ok m \<and> (\<forall>e \<in> set m. rbd_source_ssrc (snd e) = fst e)"

definition tmmbr_infos_ok :: "(u32, TmmbrInformation) smap \<Rightarrow> bool" where
  "tmmbr_infos_ok m \<longleftrightarrow> smap_ok m \<and> (\<forall>e \<in> set m. smap_ok (tm_tmmbr (snd e)))"

definition rx_ok :: "RTCPReceiver \<Rightarrow> bool" where
  "rx_ok rx \<longleftrightarrow> rx_registered_ssrcs rx \<noteq> [] \<and>
     rrtrs_ok (rx_received_rrtrs rx) (rx_next_node rx) (rx_received_rrtrs_ssrc_it rx) \<and>
     rtts_ok (rx_rtts rx) \<and> report_blocks_ok (rx_received_report_blocks rx) \<and> tmmbr_infos_ok (rx_tmmbr_infos rx) \<and>
     smap_ok (rx_last_fir rx) \<and> smap_ok (rx_non_sender_rtts rx)"

text \<open>The flag that makes \<open>TriggerCallbacksFromRtcpPacket\<close> use the loss notification is only set with one.\<close>

definition info_ok :: "PacketInformation \<Rightarrow> bool" where
  "info_ok i \<longleftrightarrow> (has_flag kRtcpLossNotification i \<longrightarrow> info_loss_notification i \<noteq> None)"

lemma info_ok_init: "info_ok PacketInformation_init"
  by (simp add: info_ok_def)

lemma rx_ok_init: "ssrcs \<noteq> [] \<Longrightarrow> rx_ok (RTCPReceiver_init clk ssrcs b)"
  by (simp add: rx_ok_def RTCPReceiver_init_def rrtrs_ok_def rtts_ok_def report_blocks_ok_def tmmbr_infos_ok_def)

lemma RegisteredSsrcs_init_ok: "RegisteredSsrcs_init a b c \<noteq> []"
  by (simp add: RegisteredSsrcs_init_def)

section \<open>Round trip times\<close>

lemma rtt_range: "rtt_in_range (CompactNtpRttToTimeDelta x)"
proof -
  have "CompactNtpIntervalToTimeDelta x \<le> kMaxRtt"
  proof -
    define v where "v = (if x > 0x80000000 then uint x - 2 ^ 32 else uint x)"
    have "v \<le> 2 ^ 31"
      using uint_lt2p [of x] by (auto simp: v_def word_less_def)
    moreover have "CompactNtpIntervalToTimeDelta x = DivideRoundToNearest (v * 1000000) 65536"
      by (simp add: CompactNtpIntervalToTimeDelta_def v_def TimeDelta_Micros_def)
    ultimately show ?thesis
      using round_nearest_error(1) [of 65536 "v * 1000000"] by (simp add: kMaxRtt_def)
  qed
  then show ?thesis
    using CompactNtpRttToTimeDelta_min [of x]
    by (simp add: rtt_in_range_def CompactNtpRttToTimeDelta_def TimeDelta_Millis_def FromFraction_def kMaxRtt_def)
qed

lemma AddRtt_ok:
  assumes "s = RttStats_init \<or> rtt_stats_ok s" and "rtt_in_range rtt"
  shows "rtt_stats_ok (AddRtt rtt s)"
proof -
  let ?n = "int (rs_num_rtts s)"
  have r: "1000 \<le> rtt" "rtt \<le> 32768000000" using assms(2) by (simp_all add: rtt_in_range_def kMaxRtt_def)
  have "?n * 1000 + 1000 \<le> unit_plus (rs_sum_rtt s) rtt \<and> unit_plus (rs_sum_rtt s) rtt \<le> ?n * 32768000000 + 32768000000"
    if "rs_num_rtts s < 2 ^ 28 - 1"
  proof -
    have n: "?n \<le> 268435454" using that by simp
    have "?n * 1000 \<le> rs_sum_rtt s" "rs_sum_rtt s \<le> ?n * 32768000000"
      using assms(1) that by (auto simp: RttStats_init_def rtt_stats_ok_def kMaxRtt_def)
    then have "unit_plus (rs_sum_rtt s) rtt = rs_sum_rtt s + rtt"
      using r n by (auto simp: unit_plus_def infinity_defs)
    then show ?thesis using \<open>?n * 1000 \<le> rs_sum_rtt s\<close> \<open>rs_sum_rtt s \<le> ?n * 32768000000\<close> r by linarith
  qed
  then show ?thesis using assms(2) by (auto simp: rtt_stats_ok_def AddRtt_def kMaxRtt_def algebra_simps)
qed

section \<open>The list of reference times\<close>

lemma rrtrs_ok_find:
  "rrtrs_ok nodes n its \<Longrightarrow> smap_find its ssrc = Some it \<longleftrightarrow> (\<exists>r. (it, r) \<in> set nodes \<and> rrtr_ssrc r = ssrc)"
  unfolding rrtrs_ok_def by blast

lemma rrtrs_ok_facts:
  "rrtrs_ok nodes n its \<Longrightarrow> distinct (map fst nodes)"
  "rrtrs_ok nodes n its \<Longrightarrow> m \<in> set nodes \<Longrightarrow> fst m < n"
  "rrtrs_ok nodes n its \<Longrightarrow> length nodes \<le> kMaxNumberOfStoredRrtrs"
  "rrtrs_ok nodes n its \<Longrightarrow> smap_ok its"
  unfolding rrtrs_ok_def by blast+

lemma rrtrs_okI:
  assumes "distinct (map fst nodes)" and "\<And>m. m \<in> set nodes \<Longrightarrow> fst m < n"
    and "length nodes \<le> kMaxNumberOfStoredRrtrs" and "smap_ok its"
    and "\<And>ssrc it. smap_find its ssrc = Some it \<longleftrightarrow> (\<exists>r. (it, r) \<in> set nodes \<and> rrtr_ssrc r = ssrc)"
  shows "rrtrs_ok nodes n its"
  unfolding rrtrs_ok_def using assms by blast

lemma rrtrs_node_iff:
  assumes ok: "rrtrs_ok nodes n its" and it: "smap_find its ssrc = Some it" and m: "m \<in> set nodes"
  shows "fst m = it \<longleftrightarrow> rrtr_ssrc (snd m) = ssrc"
proof
  obtain r where r: "(it, r) \<in> set nodes" "rrtr_ssrc r = ssrc" using it rrtrs_ok_find [OF ok] by blast
  assume "fst m = it"
  then have "(it, snd m) \<in> set nodes" using m by (metis prod.collapse)
  then have "snd m = r" using r(1) rrtrs_ok_facts(1) [OF ok] by (rule eq_key_imp_eq_value [rotated])
  then show "rrtr_ssrc (snd m) = ssrc" using r(2) by simp
next
  assume "rrtr_ssrc (snd m) = ssrc"
  then have "\<exists>r. (fst m, r) \<in> set nodes \<and> rrtr_ssrc r = ssrc" using m by (metis prod.collapse)
  then have "smap_find its ssrc = Some (fst m)" using rrtrs_ok_find [OF ok] by blast
  then show "fst m = it" using it by simp
qed

lemma rrtrs_ok_update:
  assumes ok: "rrtrs_ok nodes n its" and f: "\<And>r. rrtr_ssrc (f r) = rrtr_ssrc r"
    and it: "smap_find its ssrc = Some it"
  shows "\<exists>nodes'. update_node it f nodes = Some nodes' \<and> rrtrs_ok nodes' n its \<and>
    map snd nodes' = map (\<lambda>r. if rrtr_ssrc r = ssrc then f r else r) (map snd nodes)"
proof -
  let ?g = "\<lambda>m. if fst m = it then (it, f (snd m)) else m"
  let ?nodes = "map ?g nodes"
  obtain r where r: "(it, r) \<in> set nodes" "rrtr_ssrc r = ssrc" using it rrtrs_ok_find [OF ok] by blast
  have g: "fst (?g m) = fst m" "rrtr_ssrc (snd (?g m)) = rrtr_ssrc (snd m)" for m using f by simp_all
  have fst: "map fst ?nodes = map fst nodes" using g(1) by (simp add: comp_def)
  have set: "(\<exists>q. (i, q) \<in> set ?nodes \<and> rrtr_ssrc q = s) \<longleftrightarrow> (\<exists>q. (i, q) \<in> set nodes \<and> rrtr_ssrc q = s)" for i s
  proof -
    have e: "(\<exists>q. (i, q) \<in> A \<and> rrtr_ssrc q = s) \<longleftrightarrow> (\<exists>m \<in> A. fst m = i \<and> rrtr_ssrc (snd m) = s)" for A
      by force
    show ?thesis unfolding e set_map bex_simps g ..
  qed
  have "rrtrs_ok ?nodes n its"
  proof (rule rrtrs_okI)
    show "distinct (map fst ?nodes)" unfolding fst by (rule rrtrs_ok_facts(1) [OF ok])
    show "length ?nodes \<le> kMaxNumberOfStoredRrtrs" using rrtrs_ok_facts(3) [OF ok] by simp
    show "smap_ok its" by (rule rrtrs_ok_facts(4) [OF ok])
    show "fst m < n" if m: "m \<in> set ?nodes" for m
    proof -
      obtain m' where m': "m' \<in> set nodes" "m = ?g m'" using m unfolding set_map by blast
      then show ?thesis using rrtrs_ok_facts(2) [OF ok m'(1)] g(1) [of m'] by (simp only:)
    qed
    show "smap_find its s = Some i \<longleftrightarrow> (\<exists>q. (i, q) \<in> set ?nodes \<and> rrtr_ssrc q = s)" for s i
      unfolding set by (rule rrtrs_ok_find [OF ok])
  qed
  moreover have "map snd ?nodes = map (\<lambda>r. if rrtr_ssrc r = ssrc then f r else r) (map snd nodes)"
    using rrtrs_node_iff [OF ok it] by auto
  moreover have "update_node it f nodes = Some ?nodes" using r by (force simp: update_node_def)
  ultimately show ?thesis by blast
qed

lemma rrtrs_ok_append:
  assumes ok: "rrtrs_ok nodes n its" and none: "smap_find its ssrc = None" and len: "length nodes < kMaxNumberOfStoredRrtrs"
    and r: "rrtr_ssrc r = ssrc"
  shows "rrtrs_ok (nodes @ [(n, r)]) (n + 1) (smap_set ssrc n its)"
proof (rule rrtrs_okI)
  have new: "(it, q) \<in> set nodes \<Longrightarrow> rrtr_ssrc q \<noteq> ssrc" for it q
    using none rrtrs_ok_find [OF ok, of ssrc it] by fastforce
  have old: "(n, q) \<notin> set nodes" for q using rrtrs_ok_facts(2) [OF ok] by fastforce
  show "distinct (map fst (nodes @ [(n, r)]))" using rrtrs_ok_facts(1) [OF ok] old by auto
  show "m \<in> set (nodes @ [(n, r)]) \<Longrightarrow> fst m < n + 1" for m using rrtrs_ok_facts(2) [OF ok, of m] by auto
  show "length (nodes @ [(n, r)]) \<le> kMaxNumberOfStoredRrtrs" using len by simp
  show "smap_ok (smap_set ssrc n its)" using rrtrs_ok_facts(4) [OF ok] by (rule smap_ok_set)
  show "smap_find (smap_set ssrc n its) s = Some i \<longleftrightarrow> (\<exists>q. (i, q) \<in> set (nodes @ [(n, r)]) \<and> rrtr_ssrc q = s)" for s i
  proof (cases "s = ssrc")
    case True
    then show ?thesis using new r by (auto simp: smap_find_set)
  next
    case False
    then show ?thesis using rrtrs_ok_find [OF ok, of s i] r by (auto simp: smap_find_set)
  qed
qed

lemma rrtrs_ok_erase:
  assumes ok: "rrtrs_ok nodes n its" and it: "smap_find its ssrc = Some it"
  shows "\<exists>nodes'. erase_node it nodes = Some nodes' \<and> rrtrs_ok nodes' n (smap_erase ssrc its) \<and>
    map snd nodes' = filter (\<lambda>r. rrtr_ssrc r \<noteq> ssrc) (map snd nodes)"
proof -
  let ?nodes = "filter (\<lambda>m. fst m \<noteq> it) nodes"
  obtain r where r: "(it, r) \<in> set nodes" "rrtr_ssrc r = ssrc" using it rrtrs_ok_find [OF ok] by blast
  note eq = rrtrs_node_iff [OF ok it]
  have "rrtrs_ok ?nodes n (smap_erase ssrc its)"
  proof (rule rrtrs_okI)
    show "length ?nodes \<le> kMaxNumberOfStoredRrtrs"
      using rrtrs_ok_facts(3) [OF ok] length_filter_le le_trans by blast
    show "distinct (map fst ?nodes)" using rrtrs_ok_facts(1) [OF ok] by (rule distinct_map_filter)
    show "smap_ok (smap_erase ssrc its)" using rrtrs_ok_facts(4) [OF ok] by (rule smap_ok_erase)
    show "m \<in> set ?nodes \<Longrightarrow> fst m < n" for m using rrtrs_ok_facts(2) [OF ok] by simp
    show "smap_find (smap_erase ssrc its) s = Some i \<longleftrightarrow> (\<exists>q. (i, q) \<in> set ?nodes \<and> rrtr_ssrc q = s)" for s i
    proof (cases "s = ssrc")
      case True
      then show ?thesis using eq by (force simp: smap_find_erase)
    next
      case False
      then show ?thesis using rrtrs_ok_find [OF ok, of s i] eq by (force simp: smap_find_erase)
    qed
  qed
  moreover have "map snd ?nodes = filter (\<lambda>r. rrtr_ssrc r \<noteq> ssrc) (map snd nodes)"
    using eq by (simp add: filter_map comp_def cong: filter_cong)
  moreover have "erase_node it nodes = Some ?nodes" using r by (force simp: erase_node_def)
  ultimately show ?thesis by blast
qed

section \<open>Each handler keeps the invariant\<close>

text \<open>What a handler of a block promises: it ends without an undefined step, in a receiver that
  satisfies the invariant and has the same SSRCs, and it never forgets skipped packets.\<close>

definition rx_next :: "RTCPReceiver \<Rightarrow> RTCPReceiver \<Rightarrow> bool" where
  "rx_next rx rx' \<longleftrightarrow> rx_ok rx' \<and> rx_registered_ssrcs rx' = rx_registered_ssrcs rx \<and>
     rx_remote_ssrc rx' = rx_remote_ssrc rx \<and> rx_num_skipped_packets rx \<le> rx_num_skipped_packets rx'"

definition handled :: "RTCPReceiver \<Rightarrow> (bool \<times> RTCPReceiver \<times> PacketInformation) option \<Rightarrow> bool" where
  "handled rx r \<longleftrightarrow> (\<exists>v rx' info'. r = Some (v, rx', info') \<and> rx_next rx rx' \<and> info_ok info')"

lemma rx_next_refl [simp]: "rx_next rx rx \<longleftrightarrow> rx_ok rx"
  by (simp add: rx_next_def)

lemma rx_next_trans: "rx_next a b \<Longrightarrow> rx_next b c \<Longrightarrow> rx_next a c"
  by (auto simp: rx_next_def)

lemma rx_next_fold:
  assumes "\<And>x s. rx_ok (get s) \<Longrightarrow> rx_next (get s) (get (f x s))" and "rx_ok (get s)"
  shows "rx_next (get s) (get (fold f xs s))"
  using assms(2)
proof (induction xs arbitrary: s)
  case (Cons x xs)
  have n: "rx_next (get s) (get (f x s))" using assms(1) Cons.prems .
  then have "rx_ok (get (f x s))" by (simp add: rx_next_def)
  then show ?case using rx_next_trans [OF n Cons.IH] by simp
qed simp

lemma handled_Some [simp]: "handled rx (Some (v, rx', info')) \<longleftrightarrow> rx_next rx rx' \<and> info_ok info'"
  by (simp add: handled_def)

lemma handled_parse:
  assumes "safe m" and "handled rx (f Rejected)" and "\<And>p. handled rx (f (Accepted p))"
  shows "handled rx (Option.bind m f)"
proof -
  obtain r where "m = Some r" using assms(1) by (auto simp: safe_def)
  then show ?thesis using assms(2,3) by (cases r) simp_all
qed

lemma info_ok_set_flag [simp]: "f \<noteq> kRtcpLossNotification \<Longrightarrow> info_ok (set_flag f i) \<longleftrightarrow> info_ok i"
  by (auto simp: info_ok_def)

lemma info_ok_update [simp]:
  "info_ok (i\<lparr>info_remote_ssrc := a\<rparr>) = info_ok i"
  "info_ok (i\<lparr>info_nack_sequence_numbers := b\<rparr>) = info_ok i"
  "info_ok (i\<lparr>info_report_block_datas := c\<rparr>) = info_ok i"
  "info_ok (i\<lparr>info_rtt := d\<rparr>) = info_ok i"
  "info_ok (i\<lparr>info_receiver_estimated_max_bitrate_bps := e\<rparr>) = info_ok i"
  "info_ok (i\<lparr>info_transport_feedback := g\<rparr>) = info_ok i"
  "info_ok (i\<lparr>info_congestion_control_feedback := k\<rparr>) = info_ok i"
  "info_ok (i\<lparr>info_target_bitrate_allocation := l\<rparr>) = info_ok i"
  "info_ok (i\<lparr>info_network_state_estimate := m\<rparr>) = info_ok i"
  by (simp_all add: info_ok_def)

lemma skip_packet_next: "rx_ok rx \<Longrightarrow> rx_next rx (skip_packet rx)"
  by (simp add: rx_next_def skip_packet_def rx_ok_def)

text \<open>Storing and finding values in the maps.\<close>

lemma maps_ok_set:
  "rtts_ok r \<Longrightarrow> rtt_stats_ok s \<Longrightarrow> rtts_ok (smap_set k s r)"
  "report_blocks_ok b \<Longrightarrow> rbd_source_ssrc d = k \<Longrightarrow> report_blocks_ok (smap_set k d b)"
  "tmmbr_infos_ok m \<Longrightarrow> smap_ok (tm_tmmbr t) \<Longrightarrow> tmmbr_infos_ok (smap_set k t m)"
  by (simp_all add: rtts_ok_def report_blocks_ok_def tmmbr_infos_ok_def set_smap_set smap_ok_set)

lemma maps_ok_find:
  "rtts_ok r \<Longrightarrow> smap_find r k = Some s \<Longrightarrow> rtt_stats_ok s"
  "tmmbr_infos_ok m \<Longrightarrow> smap_find m k = Some t \<Longrightarrow> smap_ok (tm_tmmbr t)"
  by (auto simp: rtts_ok_def tmmbr_infos_ok_def dest!: smap_find_in)

lemma maps_ok_filter:
  "rtts_ok r \<Longrightarrow> rtts_ok (smap_erase k r)"
  "report_blocks_ok b \<Longrightarrow> report_blocks_ok (filter P b)"
  unfolding rtts_ok_def report_blocks_ok_def smap_erase_def by (auto intro: smap_ok_filter)

lemma tmmbr_infos_set:
  assumes "rx_ok rx" and "smap_ok (tm_tmmbr t)"
  shows "rx_next rx (rx\<lparr>rx_tmmbr_infos := smap_set k t (rx_tmmbr_infos rx)\<rparr>)"
  using assms by (simp add: rx_next_def rx_ok_def maps_ok_set)

lemma tmmbr_info_ok:
  "rx_ok rx \<Longrightarrow> smap_find (rx_tmmbr_infos rx) k = Some t \<Longrightarrow> smap_ok (tm_tmmbr t)"
  using maps_ok_find(2) by (auto simp: rx_ok_def)

lemma FindOrCreateTmmbrInfo_next:
  assumes "rx_ok rx" and "FindOrCreateTmmbrInfo clk k rx = (t, rx')"
  shows "rx_next rx rx'" and "smap_ok (tm_tmmbr t)"
proof -
  show ok: "smap_ok (tm_tmmbr t)"
    using assms tmmbr_info_ok [OF assms(1)]
    by (auto simp: FindOrCreateTmmbrInfo_def Let_def TmmbrInformation_init_def split: option.splits)
  show "rx_next rx rx'"
    using assms(2) tmmbr_infos_set [OF assms(1) ok, of k] by (auto simp: FindOrCreateTmmbrInfo_def Let_def)
qed

lemma UpdateTmmbrRemoteIsAlive_next: "rx_ok rx \<Longrightarrow> rx_next rx (UpdateTmmbrRemoteIsAlive clk k rx)"
  using tmmbr_infos_set tmmbr_info_ok
  by (auto simp: UpdateTmmbrRemoteIsAlive_def split: option.splits)

lemma report_block_data_source [simp]:
  "rbd_source_ssrc (SetReportBlock a rb b c d) = source_ssrc rb"
  "rbd_source_ssrc (AddRoundTripTimeSample r d) = rbd_source_ssrc d"
  by (simp_all add: SetReportBlock_def AddRoundTripTimeSample_def)

lemma HandleReportBlock_next:
  assumes "rx_ok (fst s)"
  shows "rx_next (fst s) (fst (HandleReportBlock clk rb remote s))"
proof -
  obtain rx info where s: "s = (rx, info)" by fastforce
  have ok: "rx_ok rx" using assms by (simp add: s)
  then have "rtt_stats_ok (AddRtt (report_rtt clk rb)
      (case smap_find (rx_rtts rx) remote of Some r \<Rightarrow> r | None \<Rightarrow> RttStats_init))"
    using maps_ok_find(1)
    by (intro AddRtt_ok) (auto simp: rx_ok_def report_rtt_def Let_def rtt_range split: option.splits)
  then show ?thesis
    using ok unfolding s HandleReportBlock_def Let_def rx_next_def rx_ok_def by (simp add: maps_ok_set)
qed

lemma HandleReportBlock_info:
  "info_ok (snd s) \<Longrightarrow> info_ok (snd (HandleReportBlock clk rb remote s))"
  by (cases s) (simp add: HandleReportBlock_def Let_def)

lemma report_blocks_handled:
  assumes "rx_ok rx" and "info_ok info" and "rx_next rx0 rx"
  shows "handled rx0 (Some (v, fold (\<lambda>rb. HandleReportBlock clk rb remote) rbs (rx, info)))"
proof -
  let ?r = "fold (\<lambda>rb. HandleReportBlock clk rb remote) rbs (rx, info)"
  have "rx_next rx (fst ?r)"
    using rx_next_fold [of fst "\<lambda>rb. HandleReportBlock clk rb remote" "(rx, info)" rbs] HandleReportBlock_next assms(1)
    by simp
  moreover have "info_ok (snd (fold (\<lambda>rb. HandleReportBlock clk rb remote) rbs s))" if "info_ok (snd s)" for s
    using that by (induction rbs arbitrary: s) (simp_all add: HandleReportBlock_info)
  then have "info_ok (snd ?r)" using assms(2) by simp
  ultimately show ?thesis using rx_next_trans [OF assms(3)] by (cases ?r) simp
qed

text \<open>The contract of the handlers that \<open>ParseCompoundPacket\<close> dispatches to.\<close>

locale block_handler =
  fixes handle :: "CommonHeader \<Rightarrow> RTCPReceiver \<Rightarrow> PacketInformation \<Rightarrow> (bool \<times> RTCPReceiver \<times> PacketInformation) option"
  assumes handle_ok: "rx_ok rx \<Longrightarrow> info_ok info \<Longrightarrow> handled rx (handle h rx info)"
begin

lemma with_rx_info_ok:
  assumes "rx_ok (cp_rx c)" and "info_ok (cp_info c)"
  shows "\<exists>v c'. map_option (with_rx_info c) (handle h (cp_rx c) (cp_info c)) = Some (v, c') \<and>
    rx_next (cp_rx c) (cp_rx c') \<and> info_ok (cp_info c') \<and> cp_calls c' = cp_calls c \<and>
    cp_received_blocks c' = cp_received_blocks c"
  using handle_ok [OF assms, of h] by (auto simp: handled_def with_rx_info_def)

end

lemma HandleSenderReport_handled:
  assumes "rx_ok rx" and "info_ok info"
  shows "handled rx (HandleSenderReport clk h rx info)"
  unfolding HandleSenderReport_def
proof (rule handled_parse [OF SenderReport_Parse_safe], goal_cases)
  case 1
  then show ?case using assms by simp
next
  case (2 sr)
  let ?rx1 = "UpdateTmmbrRemoteIsAlive clk (sender_ssrc sr) rx"
  have n: "rx_next rx ?rx1" using assms(1) by (rule UpdateTmmbrRemoteIsAlive_next)
  then have n': "rx_next rx (?rx1\<lparr>rx_remote_sender := x\<rparr>)" for x by (auto simp: rx_next_def rx_ok_def)
  have "rx_ok ?rx1" "rx_ok (?rx1\<lparr>rx_remote_sender := x\<rparr>)" for x using n n' by (simp_all add: rx_next_def)
  then have f: "handled rx (Some (True, fold (\<lambda>rb. HandleReportBlock clk rb (sender_ssrc sr)) rbs (?rx1, i)))"
      "handled rx (Some (True, fold (\<lambda>rb. HandleReportBlock clk rb (sender_ssrc sr)) rbs (?rx1\<lparr>rx_remote_sender := x\<rparr>, i)))"
    if "info_ok i" for rbs i x using report_blocks_handled that n n' by blast+
  show ?case using f assms(2) by (simp add: Let_def split_def)
qed

interpretation sr_handler: block_handler "HandleSenderReport clk" for clk
  by unfold_locales (rule HandleSenderReport_handled)

interpretation rr_handler: block_handler "HandleReceiverReport clk" for clk
proof
  fix rx info h
  assume ok: "rx_ok rx" "info_ok info"
  have "handled rx (Some (True, fold (\<lambda>rb. HandleReportBlock clk rb ssrc) rbs
      (UpdateTmmbrRemoteIsAlive clk ssrc rx, set_flag kRtcpRr (info\<lparr>info_remote_ssrc := ssrc\<rparr>))))" for ssrc rbs
    using UpdateTmmbrRemoteIsAlive_next [OF ok(1), of clk ssrc] ok(2)
    by (intro report_blocks_handled) (simp_all add: rx_next_def)
  then show "handled rx (HandleReceiverReport clk h rx info)"
    unfolding HandleReceiverReport_def
    by (intro handled_parse [OF ReceiverReport_Parse_safe]) (use ok in \<open>simp_all add: Let_def split_def\<close>)
qed

interpretation pli_handler: block_handler HandlePli
proof
  fix rx info h
  assume "rx_ok rx" "info_ok info"
  then show "handled rx (HandlePli h rx info)"
    unfolding HandlePli_def
    by (intro handled_parse [OF Pli_Parse_safe]) (simp_all add: Let_def rx_next_def rx_ok_def)
qed

interpretation nack_handler: block_handler "HandleNack cfg" for cfg
proof
  fix rx info h
  assume "rx_ok rx" "info_ok info"
  then show "handled rx (HandleNack cfg h rx info)"
    unfolding HandleNack_def
    by (intro handled_parse [OF Nack_Parse_safe]) (simp_all add: Let_def rx_next_def rx_ok_def)
qed

lemma FindOrCreate_handled:
  assumes "rx_ok rx" and "\<And>t. smap_ok (tm_tmmbr t) \<Longrightarrow> smap_ok (tm_tmmbr (f t))" and "info_ok info"
  shows "handled rx (let (t, rx1) = FindOrCreateTmmbrInfo clk k rx
           in Some (v, rx1\<lparr>rx_tmmbr_infos := smap_set k (f t) (rx_tmmbr_infos rx1)\<rparr>, info))"
proof -
  obtain t rx1 where f: "FindOrCreateTmmbrInfo clk k rx = (t, rx1)" by fastforce
  note n = FindOrCreateTmmbrInfo_next [OF assms(1) f]
  have "rx_next rx1 (rx1\<lparr>rx_tmmbr_infos := smap_set k (f t) (rx_tmmbr_infos rx1)\<rparr>)"
    using n assms(2) by (intro tmmbr_infos_set) (simp_all add: rx_next_def)
  then show ?thesis using rx_next_trans [OF n(1)] assms(3) by (simp add: f)
qed

interpretation tmmbr_handler: block_handler "HandleTmmbr clk" for clk
proof
  fix rx info h
  assume ok: "rx_ok rx" "info_ok info"
  show "handled rx (HandleTmmbr clk h rx info)"
    unfolding HandleTmmbr_def
  proof (rule handled_parse [OF Tmmbr_Parse_safe], goal_cases)
    case 1
    then show ?case using ok by simp
  next
    case (2 p)
    let ?ssrc = "if media_ssrc p \<noteq> 0 then media_ssrc p else sender_ssrc p"
    show ?case
    proof (cases "tmmbr_requested rx (tmmb_items p)")
      case None
      then show ?thesis using ok by (simp add: Let_def)
    next
      case (Some request)
      show ?thesis
        using FindOrCreate_handled [OF ok(1), of "\<lambda>t. t\<lparr>tm_tmmbr := smap_set ?ssrc
            \<lparr>ti_tmmbr_item = \<lparr>tmmb_ssrc = ?ssrc, tmmb_bitrate_bps = tmmb_bitrate_bps request,
               tmmb_packet_overhead = tmmb_packet_overhead request\<rparr>,
             ti_last_updated = tm_last_time_received t\<rparr> (tm_tmmbr t)\<rparr>" "set_flag kRtcpTmmbr info" clk "sender_ssrc p" True] ok(2)
        by (simp add: Some Let_def split_def smap_ok_set)
    qed
  qed
qed

interpretation tmmbn_handler: block_handler "HandleTmmbn clk" for clk
proof
  fix rx info h
  assume ok: "rx_ok rx" "info_ok info"
  have "handled rx (let (t, rx1) = FindOrCreateTmmbrInfo clk k rx
      in Some (True, rx1\<lparr>rx_tmmbr_infos := smap_set k (t\<lparr>tm_tmmbn := items\<rparr>) (rx_tmmbr_infos rx1)\<rparr>, set_flag kRtcpTmmbn info))"
    for k items using ok by (intro FindOrCreate_handled) simp_all
  then show "handled rx (HandleTmmbn clk h rx info)"
    unfolding HandleTmmbn_def by (intro handled_parse [OF Tmmbn_Parse_safe]) (use ok in simp_all)
qed

lemma HandleFir_request_next:
  "rx_ok (fst s) \<Longrightarrow> rx_next (fst s) (fst (HandleFir_request clk ssrc req s))"
  "info_ok (snd s) \<Longrightarrow> info_ok (snd (HandleFir_request clk ssrc req s))"
  by (cases s; simp add: HandleFir_request_def Let_def rx_next_def rx_ok_def smap_ok_set split: option.splits)+

interpretation fir_handler: block_handler "HandleFir clk" for clk
proof
  fix rx info h
  assume ok: "rx_ok rx" "info_ok info"
  have "rx_next rx (fst (fold (HandleFir_request clk ssrc) reqs (rx, info)))" for ssrc reqs
    using rx_next_fold [of fst "HandleFir_request clk ssrc" "(rx, info)" reqs] HandleFir_request_next(1) ok(1) by simp
  moreover have "info_ok (snd s) \<Longrightarrow> info_ok (snd (fold (HandleFir_request clk ssrc) reqs s))" for ssrc reqs s
    by (induction reqs arbitrary: s) (simp_all add: HandleFir_request_next(2))
  then have "info_ok (snd (fold (HandleFir_request clk ssrc) reqs (rx, info)))" for ssrc reqs using ok(2) by simp
  ultimately have "handled rx (Some (True, fold (HandleFir_request clk ssrc) reqs (rx, info)))" for ssrc reqs
    by (metis handled_Some prod.collapse)
  then show "handled rx (HandleFir clk h rx info)"
    unfolding HandleFir_def by (intro handled_parse [OF Fir_Parse_safe]) (use ok in simp_all)
qed

lemma HandlePsfbApp_handled:
  assumes "rx_ok rx" and "info_ok info"
  shows "handled rx (Option.bind (HandlePsfbApp h rx info) (\<lambda>r. Some (True, r)))"
proof -
  obtain r q where p: "Remb_Parse h = Some r" "LossNotification_Parse h = Some q"
    using Remb_Parse_safe [of h] LossNotification_Parse_safe [of h] by (auto simp: safe_def)
  show ?thesis
    using assms skip_packet_next [OF assms(1)]
    by (cases r; cases q) (simp_all add: HandlePsfbApp_def p info_ok_def)
qed

interpretation psfb_handler: block_handler "HandlePsfb clk" for clk
proof
  fix rx info h
  assume ok: "rx_ok rx" "info_ok info"
  then show "handled rx (HandlePsfb clk h rx info)"
    using pli_handler.handle_ok [OF ok] fir_handler.handle_ok [OF ok] HandlePsfbApp_handled [OF ok] skip_packet_next [OF ok(1)]
    by (simp add: HandlePsfb_def Let_def)
qed

lemma HandleTransportFeedback_handled:
  assumes "rx_ok rx" and "info_ok info"
  shows "handled rx (Option.bind (HandleTransportFeedback h rx info) (\<lambda>r. Some (True, r)))"
proof -
  obtain r where "TransportFeedback_Parse h = Some r" using TransportFeedback_Parse_safe [of h] by (auto simp: safe_def)
  then show ?thesis
    using assms skip_packet_next [OF assms(1)] by (cases r) (simp_all add: HandleTransportFeedback_def Let_def)
qed

lemma HandleCongestionControlFeedback_handled:
  assumes "rx_ok rx" and "info_ok info"
  shows "handled rx (Option.bind (HandleCongestionControlFeedback h rx info) (\<lambda>(valid, info'). Some (valid, rx, info')))"
proof -
  obtain r where "Ccfb_Parse h = Some r" using Ccfb_Parse_safe [of h] by (auto simp: safe_def)
  then show ?thesis
    using assms by (cases r) (simp_all add: HandleCongestionControlFeedback_def split: list.splits)
qed

lemma HandleSrReq_handled:
  assumes "rx_ok rx" and "info_ok info"
  shows "handled rx (Option.bind (HandleSrReq h info) (\<lambda>(valid, info'). Some (valid, rx, info')))"
proof -
  obtain r where "RapidResyncRequest_Parse h = Some r" using RapidResyncRequest_Parse_safe [of h] by (auto simp: safe_def)
  then show ?thesis using assms by (cases r) (simp_all add: HandleSrReq_def)
qed

interpretation rtpfb_handler: block_handler "HandleRtpfb cfg clk" for cfg clk
proof
  fix rx info h
  assume ok: "rx_ok rx" "info_ok info"
  then show "handled rx (HandleRtpfb cfg clk h rx info)"
    using nack_handler.handle_ok [OF ok] tmmbr_handler.handle_ok [OF ok] tmmbn_handler.handle_ok [OF ok]
      HandleSrReq_handled [OF ok] HandleTransportFeedback_handled [OF ok]
      HandleCongestionControlFeedback_handled [OF ok] skip_packet_next [OF ok(1)]
    by (simp add: HandleRtpfb_def Let_def)
qed

section \<open>Extended reports and BYE\<close>

lemma HandleXrReceiveReferenceTime_next:
  assumes "rx_ok rx"
  shows "\<exists>rx'. HandleXrReceiveReferenceTime clk ssrc rrtr rx = Some rx' \<and> rx_next rx rx'"
proof -
  let ?nodes = "rx_received_rrtrs rx" and ?its = "rx_received_rrtrs_ssrc_it rx"
  have ok: "rrtrs_ok ?nodes (rx_next_node rx) ?its" using assms by (simp add: rx_ok_def)
  show ?thesis
  proof (cases "smap_find ?its ssrc")
    case None
    then show ?thesis
      using assms rrtrs_ok_append [OF ok None]
      by (simp add: HandleXrReceiveReferenceTime_def Let_def rx_next_def rx_ok_def)
  next
    case (Some it)
    then show ?thesis
      using assms rrtrs_ok_update [OF ok _ Some, of "\<lambda>n. n\<lparr>rrtr_received_remote_mid_ntp_time := CompactNtp rrtr,
          rrtr_local_receive_mid_ntp_time := CompactNtp (CurrentNtpTime clk)\<rparr>"]
      by (auto simp: HandleXrReceiveReferenceTime_def Let_def rx_next_def rx_ok_def)
  qed
qed

lemma invalidate_non_sender_rtt_next: "rx_ok rx \<Longrightarrow> rx_next rx (invalidate_non_sender_rtt ssrc rx)"
  by (auto simp: invalidate_non_sender_rtt_def rx_next_def rx_ok_def split: option.splits)

lemma HandleXrDlrrReportBlock_next: "rx_ok rx \<Longrightarrow> rx_next rx (HandleXrDlrrReportBlock clk ssrc rti rx)"
  using invalidate_non_sender_rtt_next [of rx ssrc]
  by (auto simp: HandleXrDlrrReportBlock_def Let_def rx_next_def rx_ok_def)

lemma set_target_bitrates_ok: "vba_ok a \<Longrightarrow> \<exists>a'. set_target_bitrates items a = Some a' \<and> vba_ok a'"
proof (induction items arbitrary: a)
  case (Cons item items)
  show ?case
  proof (cases "unat (spatial_layer item) < kMaxSpatialLayers \<and> unat (temporal_layer item) < kMaxTemporalStreams")
    case True
    then obtain ok a' where "SetBitrate (unat (spatial_layer item)) (unat (temporal_layer item))
        (target_bitrate_kbps item * 1000) a = Some (ok, a')" "vba_ok a'"
      using SetBitrate_cases [OF Cons.prems] by metis
    then show ?thesis using True Cons.IH [of a'] by (simp add: not_le)
  next
    case False
    then show ?thesis using Cons by auto
  qed
qed simp

lemma HandleXrTargetBitrate_ok:
  assumes "info_ok info"
  shows "\<exists>info'. HandleXrTargetBitrate ssrc target rx info = Some info' \<and> info_ok info'"
proof -
  obtain a where "set_target_bitrates target VideoBitrateAllocation_init = Some a"
    using set_target_bitrates_ok [OF vba_ok_init] by blast
  then show ?thesis using assms by (simp add: HandleXrTargetBitrate_def)
qed

lemma HandleXr_ok:
  assumes "rx_ok rx" and "info_ok info"
  shows "\<exists>v rx' info' d s. HandleXr clk h rx info = Some (v, rx', info', d, s) \<and> rx_next rx rx' \<and> info_ok info'"
proof -
  obtain r where r: "ExtendedReports_Parse h = Some r" using ExtendedReports_Parse_safe [of h] by (auto simp: safe_def)
  show ?thesis
  proof (cases r)
    case Rejected
    then show ?thesis using assms by (auto simp: HandleXr_def r)
  next
    case (Accepted xr)
    let ?ssrc = "sender_ssrc xr"
    obtain rx1 where rx1: "(case rrtr_block xr of Some rrtr \<Rightarrow> HandleXrReceiveReferenceTime clk ?ssrc rrtr rx
        | None \<Rightarrow> Some rx) = Some rx1" "rx_next rx rx1"
      using HandleXrReceiveReferenceTime_next [OF assms(1), of clk ?ssrc "the (rrtr_block xr)"] assms(1)
      by (cases "rrtr_block xr") auto
    let ?rx2 = "fold (HandleXrDlrrReportBlock clk ?ssrc) (dlrr_block xr) rx1"
    have "rx_next rx1 ?rx2"
      using rx_next_fold [of "\<lambda>x. x" "HandleXrDlrrReportBlock clk ?ssrc" rx1] HandleXrDlrrReportBlock_next rx1(2)
      by (auto simp: rx_next_def)
    then have "rx_next rx ?rx2" using rx_next_trans rx1(2) by blast
    moreover obtain info' where "(case target_bitrate xr of Some target \<Rightarrow> HandleXrTargetBitrate ?ssrc target ?rx2 info
        | None \<Rightarrow> Some info) = Some info'" "info_ok info'"
      using HandleXrTargetBitrate_ok [OF assms(2), of ?ssrc "the (target_bitrate xr)" ?rx2] assms(2)
      by (cases "target_bitrate xr") auto
    ultimately show ?thesis using rx1(1) by (auto simp: HandleXr_def r Accepted Let_def)
  qed
qed

lemma HandleBye_ok:
  assumes "rx_ok rx"
  shows "\<exists>v rx'. HandleBye h rx = Some (v, rx') \<and> rx_next rx rx'"
proof -
  obtain r where r: "Bye_Parse h = Some r" using Bye_Parse_safe [of h] by (auto simp: safe_def)
  show ?thesis
  proof (cases r)
    case Rejected
    then show ?thesis using assms by (auto simp: HandleBye_def r)
  next
    case (Accepted bye)
    let ?ssrc = "sender_ssrc bye"
    have t: "tmmbr_infos_ok (case smap_find (rx_tmmbr_infos rx) ?ssrc of
        Some t \<Rightarrow> smap_set ?ssrc (t\<lparr>tm_ready_for_delete := True\<rparr>) (rx_tmmbr_infos rx) | None \<Rightarrow> rx_tmmbr_infos rx)"
      using assms maps_ok_find(2) by (auto simp: rx_ok_def maps_ok_set split: option.splits)
    have ok: "rrtrs_ok (rx_received_rrtrs rx) (rx_next_node rx) (rx_received_rrtrs_ssrc_it rx)"
      using assms by (simp add: rx_ok_def)
    show ?thesis
    proof (cases "smap_find (rx_received_rrtrs_ssrc_it rx) ?ssrc")
      case None
      then show ?thesis
        using assms t by (auto simp: HandleBye_def r Accepted Let_def rx_next_def rx_ok_def maps_ok_filter smap_ok_erase)
    next
      case (Some it)
      then obtain nodes where "erase_node it (rx_received_rrtrs rx) = Some nodes"
        "rrtrs_ok nodes (rx_next_node rx) (smap_erase ?ssrc (rx_received_rrtrs_ssrc_it rx))"
        using rrtrs_ok_erase [OF ok Some] by blast
      then show ?thesis
        using assms t Some by (auto simp: HandleBye_def r Accepted Let_def rx_next_def rx_ok_def maps_ok_filter smap_ok_erase)
    qed
  qed
qed

section \<open>Whole packets\<close>

fun is_cname :: "callback \<Rightarrow> bool" where
  "is_cname (OnCname ssrc cname) = True"
| "is_cname _ = False"

text \<open>What any number of blocks does to the state of the loop.\<close>

definition compound_next :: "compound \<Rightarrow> (bool \<times> compound) option \<Rightarrow> bool" where
  "compound_next c r \<longleftrightarrow> (\<exists>v c' cs. r = Some (v, c') \<and> rx_next (cp_rx c) (cp_rx c') \<and> info_ok (cp_info c') \<and>
     cp_calls c' = cp_calls c @ cs \<and> list_all is_cname cs)"

lemma compound_nextI:
  assumes "rx_next (cp_rx c) (cp_rx c')" and "info_ok (cp_info c')" and "cp_calls c' = cp_calls c @ cs" and "list_all is_cname cs"
  shows "compound_next c (Some (v, c'))"
  using assms unfolding compound_next_def by blast

lemma compound_next_handler:
  assumes "block_handler handle" and "rx_ok (cp_rx c)" and "info_ok (cp_info c)"
  shows "compound_next c (map_option (with_rx_info c) (handle h (cp_rx c) (cp_info c)))"
  using block_handler.with_rx_info_ok [OF assms, of h] by (force simp: compound_next_def)

lemma HandleSdes_ok:
  assumes "info_ok info"
  shows "\<exists>v info' cs. HandleSdes cfg h info = Some (v, info', cs) \<and> info_ok info' \<and> list_all is_cname cs"
proof -
  obtain r where "Sdes_Parse h = Some r" using Sdes_Parse_safe [of h] by (auto simp: safe_def)
  then show ?thesis using assms by (cases r) (auto simp: HandleSdes_def list_all_iff)
qed

lemma HandleApp_ok:
  assumes "info_ok info"
  shows "\<exists>v info'. HandleApp h info = Some (v, info') \<and> info_ok info'"
proof -
  obtain r where r: "App_Parse h = Some r" using App_Parse_safe [of h] by (auto simp: safe_def)
  show ?thesis
  proof (cases r)
    case (Accepted app)
    let ?e = "RemoteEstimate_of_App app"
    obtain q where "Estimate_Parse (app_data ?e) (re_estimate ?e) = Some q"
      using Estimate_Parse_safe by (auto simp: safe_def)
    then obtain q' where "RemoteEstimate_ParseData ?e = Some q'"
      by (cases q) (auto simp: RemoteEstimate_ParseData_def)
    then show ?thesis using assms by (cases q') (auto simp: HandleApp_def r Accepted)
  qed (use assms in \<open>auto simp: HandleApp_def r\<close>)
qed

lemma HandleBlock_next:
  assumes ok: "rx_ok (cp_rx c)" "info_ok (cp_info c)"
  shows "compound_next c (HandleBlock cfg clk h c)"
proof -
  let ?rx = "cp_rx c" and ?info = "cp_info c"
  obtain v1 rx1 i1 where sr: "HandleSenderReport clk h ?rx ?info = Some (v1, rx1, i1)" "rx_next ?rx rx1" "info_ok i1"
    using HandleSenderReport_handled [OF ok, of clk h] by (auto simp: handled_def)
  obtain v2 i2 cs where sdes: "HandleSdes cfg h ?info = Some (v2, i2, cs)" "info_ok i2" "list_all is_cname cs"
    using HandleSdes_ok [OF ok(2)] by blast
  obtain v3 rx3 i3 d s where xr: "HandleXr clk h ?rx ?info = Some (v3, rx3, i3, d, s)" "rx_next ?rx rx3" "info_ok i3"
    using HandleXr_ok [OF ok] by blast
  obtain v4 rx4 where bye: "HandleBye h ?rx = Some (v4, rx4)" "rx_next ?rx rx4" using HandleBye_ok [OF ok(1)] by blast
  obtain v5 i5 where app: "HandleApp h ?info = Some (v5, i5)" "info_ok i5" using HandleApp_ok [OF ok(2)] by blast
  note skip = skip_packet_next [OF ok(1)]
  note handlers = compound_next_handler [OF rr_handler.block_handler_axioms ok]
    compound_next_handler [OF rtpfb_handler.block_handler_axioms ok] compound_next_handler [OF psfb_handler.block_handler_axioms ok]
  consider "ch_packet_type h = SenderReport_kPacketType" | "ch_packet_type h = ReceiverReport_kPacketType"
    | "ch_packet_type h = Sdes_kPacketType" | "ch_packet_type h = ExtendedReports_kPacketType"
    | "ch_packet_type h = Bye_kPacketType" | "ch_packet_type h = App_kPacketType"
    | "ch_packet_type h \<notin> {SenderReport_kPacketType, ReceiverReport_kPacketType, Sdes_kPacketType,
         ExtendedReports_kPacketType, Bye_kPacketType, App_kPacketType}"
    by blast
  then show ?thesis
  proof cases
    case 1
    then show ?thesis using sr by (auto simp: HandleBlock_def Let_def with_rx_info_def intro!: compound_nextI)
  next
    case 2
    then show ?thesis using handlers by (simp add: HandleBlock_def Let_def sr_consts rr_consts)
  next
    case 3
    then show ?thesis using sdes ok
      by (auto simp: HandleBlock_def Let_def sr_consts rr_consts Sdes_kPacketType_def intro!: compound_nextI)
  next
    case 4
    then show ?thesis using xr
      by (auto simp: HandleBlock_def Let_def sr_consts rr_consts Sdes_kPacketType_def ExtendedReports_kPacketType_def
          intro!: compound_nextI)
  next
    case 5
    then show ?thesis using bye ok
      by (auto simp: HandleBlock_def Let_def sr_consts rr_consts Sdes_kPacketType_def ExtendedReports_kPacketType_def
          Bye_kPacketType_def intro!: compound_nextI)
  next
    case 6
    then show ?thesis using app ok
      by (auto simp: HandleBlock_def Let_def sr_consts rr_consts Sdes_kPacketType_def ExtendedReports_kPacketType_def
          Bye_kPacketType_def App_kPacketType_def intro!: compound_nextI)
  next
    case 7
    then show ?thesis
      using handlers skip ok by (auto simp: HandleBlock_def Let_def intro!: compound_nextI)
  qed
qed

lemma compound_loop_next:
  "rx_ok (cp_rx c) \<Longrightarrow> info_ok (cp_info c) \<Longrightarrow> compound_next c (compound_loop cfg clk bs c)"
proof (induction cfg clk bs c rule: compound_loop.induct)
  case (1 cfg clk bs c)
  have stop: "compound_next c (Some (v, c))" for v
    using "1.prems" by (intro compound_nextI [where cs = "[]"]) simp_all
  obtain r where r: "CommonHeader_Parse bs = Some r" using CommonHeader_Parse_safe [of bs] by (auto simp: safe_def)
  show ?case
  proof (cases "bs = [] \<or> r = Rejected")
    case True
    then show ?thesis using stop r by (auto simp: compound_loop.simps [of cfg clk bs])
  next
    case False
    then obtain h where h: "bs \<noteq> []" "r = Accepted h" by (cases r) auto
    obtain v c' cs where b: "HandleBlock cfg clk h c = Some (v, c')" "rx_next (cp_rx c) (cp_rx c')" "info_ok (cp_info c')"
      "cp_calls c' = cp_calls c @ cs" "list_all is_cname cs"
      using HandleBlock_next [OF "1.prems"] unfolding compound_next_def by blast
    show ?thesis
    proof (cases v)
      case False
      then show ?thesis using r h b by (simp add: compound_loop.simps [of cfg clk bs] compound_nextI)
    next
      case True
      have "compound_next c' (compound_loop cfg clk (ch_next h) c')"
        using "1.IH" [OF h(1) r h(2) b(1) refl True] b by (simp add: rx_next_def)
      then obtain v2 c2 cs2 where l: "compound_loop cfg clk (ch_next h) c' = Some (v2, c2)"
        "rx_next (cp_rx c') (cp_rx c2)" "info_ok (cp_info c2)" "cp_calls c2 = cp_calls c' @ cs2" "list_all is_cname cs2"
        unfolding compound_next_def by blast
      then have "compound_loop cfg clk bs c = Some (v2, c2)"
        using r h b(1) True by (simp add: compound_loop.simps [of cfg clk bs])
      then show ?thesis
        using compound_nextI [of c c2 "cs @ cs2" v2] rx_next_trans [OF b(2) l(2)] b l by simp
    qed
  qed
qed

lemma tmmbr_infos_ok_map:
  assumes "tmmbr_infos_ok m"
  shows "tmmbr_infos_ok (map (\<lambda>(ssrc, t). (ssrc, t\<lparr>tm_tmmbr := filter (P ssrc) (tm_tmmbr t)\<rparr>)) m)"
proof -
  have "map fst (map (\<lambda>(ssrc, t). (ssrc, t\<lparr>tm_tmmbr := filter (P ssrc) (tm_tmmbr t)\<rparr>)) m) = map fst m"
    by (simp add: comp_def case_prod_beta)
  then have "smap_ok (map (\<lambda>(ssrc, t). (ssrc, t\<lparr>tm_tmmbr := filter (P ssrc) (tm_tmmbr t)\<rparr>)) m)"
    using assms unfolding tmmbr_infos_ok_def smap_ok_def by (simp only:)
  then show ?thesis using assms by (force simp: tmmbr_infos_ok_def intro: smap_ok_filter)
qed

lemma TmmbrReceived_next: "rx_ok rx \<Longrightarrow> rx_next rx (snd (TmmbrReceived clk rx))"
  using tmmbr_infos_ok_map [of "rx_tmmbr_infos rx" "\<lambda>_ e. \<not> tmmbr_expired clk (snd e)"]
  by (simp add: TmmbrReceived_def Let_def rx_next_def rx_ok_def)

lemma TriggerCallbacks_ok:
  assumes "rx_ok rx" and "info_ok info"
  shows "\<exists>calls rx'. TriggerCallbacksFromRtcpPacket F cfg clk info rx = Some (calls, rx') \<and> rx_next rx rx'"
proof -
  define n where "n = (if has_flag kRtcpTmmbr info then NotifyTmmbrUpdated F cfg clk rx else ([], rx))"
  have "rx_next rx (snd n)"
    using assms(1) TmmbrReceived_next [OF assms(1), of clk] by (simp add: n_def NotifyTmmbrUpdated_def Let_def split_def)
  moreover have "loss_notification_calls cfg (snd n) info \<noteq> None"
    using assms(2) by (auto simp: loss_notification_calls_def info_ok_def split: option.splits)
  then obtain l where "loss_notification_calls cfg (snd n) info = Some l" by blast
  ultimately show ?thesis
    unfolding TriggerCallbacksFromRtcpPacket_def n_def [symmetric] by (simp add: Let_def split_def)
qed

lemma ParseCompoundPacket_ok:
  assumes "rx_ok rx"
  shows "\<exists>v rx' info calls. ParseCompoundPacket cfg clk bs rx = Some (v, rx', info, calls) \<and> rx_next rx rx' \<and> info_ok info \<and>
    (\<not> v \<longrightarrow> rx_num_skipped_packets rx < rx_num_skipped_packets rx' \<and> list_all is_cname calls)"
proof -
  let ?c = "\<lparr>cp_rx = rx, cp_info = PacketInformation_init, cp_received_blocks = [], cp_calls = []\<rparr>"
  obtain v c cs where l: "compound_loop cfg clk bs ?c = Some (v, c)" "rx_next rx (cp_rx c)" "info_ok (cp_info c)"
    "cp_calls c = cs" "list_all is_cname cs"
    using compound_loop_next [of ?c cfg clk bs] assms info_ok_init by (auto simp: compound_next_def)
  have w: "rx_next rx (warn_skipped clk (cp_rx c))"
    using l(2) by (auto simp: warn_skipped_def rx_next_def rx_ok_def)
  then have k: "rx_next rx (skip_packet (warn_skipped clk (cp_rx c)))"
    using skip_packet_next [of "warn_skipped clk (cp_rx c)"] rx_next_trans [OF w] unfolding rx_next_def by blast
  have "rx_next rx1 (invalidate_without_dlrr bl rx1)" if "rx_ok rx1" for rx1 bl
    using rx_next_fold [of "\<lambda>x. x" "\<lambda>(ssrc, b) rx. if rb_sender_report b \<and> \<not> rb_dlrr b
        then invalidate_non_sender_rtt ssrc rx else rx" rx1 bl] that invalidate_non_sender_rtt_next
    by (auto simp: invalidate_without_dlrr_def split: prod.splits)
  then have i: "rx_next rx (invalidate_without_dlrr (cp_received_blocks c) (warn_skipped clk (cp_rx c)))"
    using w rx_next_trans unfolding rx_next_def by metis
  have "rx_num_skipped_packets rx < rx_num_skipped_packets (skip_packet (warn_skipped clk (cp_rx c)))"
    using w by (simp add: skip_packet_def rx_next_def)
  then show ?thesis
    using l k i by (cases v) (auto simp: ParseCompoundPacket_def Let_def)
qed

lemma IncomingPacket_ok:
  assumes "rx_ok rx"
  shows "\<exists>calls rx'. IncomingPacket F cfg clk bs rx = Some (calls, rx') \<and> rx_next rx rx'"
proof (cases "bs = []")
  case False
  obtain v rx1 info calls where p: "ParseCompoundPacket cfg clk bs rx = Some (v, rx1, info, calls)" "rx_next rx rx1" "info_ok info"
    using ParseCompoundPacket_ok [OF assms, of cfg clk bs] by blast
  obtain calls' rx2 where t: "TriggerCallbacksFromRtcpPacket F cfg clk info rx1 = Some (calls', rx2)" "rx_next rx1 rx2"
    using TriggerCallbacks_ok [of rx1 info F cfg clk] p by (auto simp: rx_next_def)
  then show ?thesis using False p rx_next_trans [OF p(2) t(2)] by (simp add: IncomingPacket_def)
qed (simp add: IncomingPacket_def assms)

section \<open>The stored reference times\<close>

text \<open>The abstract content of the store: the reference times in the order of their arrival.\<close>

definition stored_rrtrs :: "RTCPReceiver \<Rightarrow> RrtrInformation list" where
  "stored_rrtrs rx = map snd (rx_received_rrtrs rx)"

definition rti_of :: "u32 \<Rightarrow> RrtrInformation \<Rightarrow> ReceiveTimeInfo" where
  "rti_of now_ntp r = \<lparr>rti_ssrc = rrtr_ssrc r, rti_last_rr = rrtr_received_remote_mid_ntp_time r,
     rti_delay_since_last_rr = now_ntp - rrtr_local_receive_mid_ntp_time r\<rparr>"

definition store_rrtr :: "RrtrInformation \<Rightarrow> RrtrInformation list \<Rightarrow> RrtrInformation list" where
  "store_rrtr r rs =
     (if rrtr_ssrc r \<in> rrtr_ssrc ` set rs then map (\<lambda>q. if rrtr_ssrc q = rrtr_ssrc r then r else q) rs
      else if length rs < 300 then rs @ [r] else rs)"

lemma rrtrs_ok_pop:
  assumes ok: "rrtrs_ok ((i, r) # nodes) n its"
  shows "rrtrs_ok nodes n (smap_erase (rrtr_ssrc r) its)"
proof -
  have "smap_find its (rrtr_ssrc r) = Some i" using rrtrs_ok_find [OF ok, of "rrtr_ssrc r" i] by auto
  then obtain nodes' where e: "erase_node i ((i, r) # nodes) = Some nodes'" "rrtrs_ok nodes' n (smap_erase (rrtr_ssrc r) its)"
    using rrtrs_ok_erase [OF ok] by blast
  have "i \<notin> fst ` set nodes" using rrtrs_ok_facts(1) [OF ok] by simp
  then have "filter (\<lambda>m. fst m \<noteq> i) nodes = nodes" by (intro filter_True) (metis image_eqI)
  then show ?thesis using e by (simp add: erase_node_def)
qed

lemma rrtrs_ssrcs_distinct:
  assumes ok: "rrtrs_ok nodes n its"
  shows "distinct (map (\<lambda>m. rrtr_ssrc (snd m)) nodes)"
proof -
  have "m = m'" if "m \<in> set nodes" "m' \<in> set nodes" "rrtr_ssrc (snd m) = rrtr_ssrc (snd m')" for m m'
  proof -
    have "smap_find its (rrtr_ssrc (snd m)) = Some (fst m)"
      using rrtrs_ok_find [OF ok] that(1) by (metis prod.collapse)
    then have "fst m' = fst m" using rrtrs_node_iff [OF ok _ that(2)] that(3) by simp
    then show ?thesis
      using that(1,2) rrtrs_ok_facts(1) [OF ok] by (metis eq_key_imp_eq_value prod.collapse)
  qed
  then show ?thesis
    using rrtrs_ok_facts(1) [OF ok] by (simp add: distinct_map inj_on_def)
qed

lemma stored_rrtrs_ok:
  assumes "rx_ok rx"
  shows "distinct (map rrtr_ssrc (stored_rrtrs rx))" and "length (stored_rrtrs rx) \<le> 300"
proof -
  have ok: "rrtrs_ok (rx_received_rrtrs rx) (rx_next_node rx) (rx_received_rrtrs_ssrc_it rx)"
    using assms by (simp add: rx_ok_def)
  show "distinct (map rrtr_ssrc (stored_rrtrs rx))"
    using rrtrs_ssrcs_distinct [OF ok] by (simp add: stored_rrtrs_def comp_def)
  show "length (stored_rrtrs rx) \<le> 300"
    using rrtrs_ok_facts(3) [OF ok] by (simp add: stored_rrtrs_def kMaxNumberOfStoredRrtrs_def)
qed

lemma consume_rrtrs_eq:
  assumes "rx_ok rx" and "n \<le> length (stored_rrtrs rx)"
  shows "\<exists>rx'. consume_rrtrs n now rx = Some (map (rti_of now) (take n (stored_rrtrs rx)), rx') \<and>
    rx_next rx rx' \<and> stored_rrtrs rx' = drop n (stored_rrtrs rx)"
  using assms
proof (induction n arbitrary: rx)
  case (Suc n)
  then obtain i r nodes where n: "rx_received_rrtrs rx = (i, r) # nodes"
    by (cases "rx_received_rrtrs rx") (auto simp: stored_rrtrs_def)
  let ?rx = "rx\<lparr>rx_received_rrtrs_ssrc_it := smap_erase (rrtr_ssrc r) (rx_received_rrtrs_ssrc_it rx), rx_received_rrtrs := nodes\<rparr>"
  have nx: "rx_next rx ?rx"
    using Suc.prems(1) rrtrs_ok_pop [of i r nodes] by (simp add: rx_next_def rx_ok_def n)
  moreover have "n \<le> length (stored_rrtrs ?rx)" using Suc.prems(2) by (simp add: stored_rrtrs_def n)
  ultimately obtain rx' where rx': "consume_rrtrs n now ?rx = Some (map (rti_of now) (take n (stored_rrtrs ?rx)), rx')"
    "rx_next ?rx rx'" "stored_rrtrs rx' = drop n (stored_rrtrs ?rx)"
    using Suc.IH [of ?rx] by (auto simp: rx_next_def)
  have "stored_rrtrs ?rx = map snd nodes" "stored_rrtrs rx = r # map snd nodes" by (simp_all add: stored_rrtrs_def n)
  then show ?case using rx' rx_next_trans [OF nx rx'(2)] by (simp add: n rti_of_def)
qed simp

lemma ConsumeReceivedXr_eq:
  assumes "rx_ok rx"
  shows "\<exists>rx'. ConsumeReceivedXrReferenceTimeInfo clk rx =
      Some (map (rti_of (CompactNtp (CurrentNtpTime clk))) (take 50 (stored_rrtrs rx)), rx') \<and>
    rx_next rx rx' \<and> stored_rrtrs rx' = drop 50 (stored_rrtrs rx)"
proof -
  have l: "length (rx_received_rrtrs rx) = length (stored_rrtrs rx)" by (simp add: stored_rrtrs_def)
  show ?thesis
    using consume_rrtrs_eq [OF assms, of "min (length (stored_rrtrs rx)) 50" "CompactNtp (CurrentNtpTime clk)"]
    unfolding ConsumeReceivedXrReferenceTimeInfo_def l kMaxNumberOfDlrrItems_def
    by (cases "length (stored_rrtrs rx) \<le> 50") (auto simp: min_def)
qed


definition example_clock :: Clock where
  "example_clock = \<lparr>clk_now = 2000000, clk_to_ntp = (\<lambda>t. 0x0000000A00000000)\<rparr>"

definition example_receiver :: RTCPReceiver where
  "example_receiver = RTCPReceiver_init example_clock [0x1111] True"

lemma example_receiver_ok: "rx_ok example_receiver"
  by (simp add: example_receiver_def rx_ok_init)


section \<open>The life of a receiver\<close>

text \<open>The other methods that change the receiver keep the invariant.\<close>

definition timer_step :: "Timestamp \<Rightarrow> u32 \<times> TmmbrInformation \<Rightarrow> (u32, TmmbrInformation) smap" where
  "timer_step timeout e =
     (if tm_last_time_received (snd e) > 0 then
        if tm_last_time_received (snd e) < timeout
        then [(fst e, (snd e)\<lparr>tm_tmmbr := [], tm_last_time_received := 0\<rparr>)] else [e]
      else if tm_ready_for_delete (snd e) then [] else [e])"

lemma tmmbr_timers_loop_entries:
  "fst (tmmbr_timers_loop timeout es oldest update) = concat (map (timer_step timeout) es)"
  by (induction timeout es oldest update rule: tmmbr_timers_loop.induct) (auto simp: Let_def split_def timer_step_def)

lemma timer_steps_ok: "tmmbr_infos_ok es \<Longrightarrow> tmmbr_infos_ok (concat (map (timer_step timeout) es))"
proof (induction es)
  case (Cons e es)
  have keys: "e' \<in> set (concat (map (timer_step timeout) es)) \<Longrightarrow> fst e' \<in> fst ` set es" for e' es
    by (induction es) (auto simp: timer_step_def split: if_splits)
  have e: "tmmbr_infos_ok es" "\<forall>e' \<in> set es. fst e < fst e'" "smap_ok (tm_tmmbr (snd e))"
    using Cons.prems by (auto simp: tmmbr_infos_ok_def smap_ok_def)
  then have "\<forall>e' \<in> set (concat (map (timer_step timeout) es)). fst e < fst e'" using keys by fastforce
  then show ?case
    using Cons.IH [OF e(1)] e(3) by (simp add: tmmbr_infos_ok_def smap_ok_def timer_step_def)
qed (simp add: tmmbr_infos_ok_def)

lemma UpdateTmmbrTimers_ok:
  assumes "rx_ok rx"
  shows "rx_ok (snd (UpdateTmmbrTimers clk rx))"
proof -
  define timeout where "timeout = Timestamp_minus_delta (clk_now clk) kTmmbrTimeoutInterval"
  obtain es oldest u where l: "tmmbr_timers_loop timeout (rx_tmmbr_infos rx) MinusInfinity False = (es, oldest, u)"
    by (metis prod.exhaust)
  then have "tmmbr_infos_ok es"
    using assms timer_steps_ok [of "rx_tmmbr_infos rx" timeout]
      tmmbr_timers_loop_entries [of timeout "rx_tmmbr_infos rx" MinusInfinity False]
    by (simp add: rx_ok_def)
  then show ?thesis using assms l by (simp add: UpdateTmmbrTimers_def Let_def timeout_def [symmetric] rx_ok_def)
qed

lemma set_local_media_ssrc_ok: "rx_ok rx \<Longrightarrow> rx_ok (set_local_media_ssrc ssrc rx)"
  by (simp add: set_local_media_ssrc_def rx_ok_def)

lemma SetRemoteSSRC_ok: "rx_ok rx \<Longrightarrow> rx_ok (SetRemoteSSRC ssrc rx)"
  by (simp add: SetRemoteSSRC_def rx_ok_def)

lemma SetNonSenderRttMeasurement_ok: "rx_ok rx \<Longrightarrow> rx_ok (SetNonSenderRttMeasurement b rx)"
  by (simp add: SetNonSenderRttMeasurement_def rx_ok_def)

lemma OnPeriodicRttUpdate_ok: "rx_ok rx \<Longrightarrow> rx_ok (snd (OnPeriodicRttUpdate cfg clk newer_than sending rx))"
  by (auto simp: OnPeriodicRttUpdate_def RtcpRrTimeoutLocked_def RtcpRrSequenceNumberTimeoutLocked_def
      GetAndResetXrRrRtt_def Let_def rx_ok_def split: prod.splits)

lemma rr_timeouts_ok:
  "rx_ok rx \<Longrightarrow> rx_ok (snd (GetAndResetXrRrRtt rx))" "rx_ok rx \<Longrightarrow> rx_ok (snd (RtcpRrTimeout cfg clk rx))"
  "rx_ok rx \<Longrightarrow> rx_ok (snd (RtcpRrSequenceNumberTimeout cfg clk rx))"
  by (auto simp: RtcpRrTimeout_def RtcpRrSequenceNumberTimeout_def RtcpRrTimeoutLocked_def
      RtcpRrSequenceNumberTimeoutLocked_def GetAndResetXrRrRtt_def rx_ok_def split: prod.splits)

text \<open>The receivers that some sequence of calls, with any packets at any times, leads to.\<close>

inductive rx_reachable :: "(TmmbItem list \<Rightarrow> TmmbItem list) \<Rightarrow> rx_config \<Rightarrow> RTCPReceiver \<Rightarrow> bool"
  for F :: "TmmbItem list \<Rightarrow> TmmbItem list" and cfg :: rx_config where
  construct: "rx_reachable F cfg (RTCPReceiver_init clk (RegisteredSsrcs_init a b c) d)"
| packet: "rx_reachable F cfg rx \<Longrightarrow> IncomingPacket F cfg clk bs rx = Some (calls, rx') \<Longrightarrow> rx_reachable F cfg rx'"
| consume: "rx_reachable F cfg rx \<Longrightarrow> ConsumeReceivedXrReferenceTimeInfo clk rx = Some (rtis, rx') \<Longrightarrow> rx_reachable F cfg rx'"
| timers: "rx_reachable F cfg rx \<Longrightarrow> rx_reachable F cfg (snd (UpdateTmmbrTimers clk rx))"
| local_ssrc: "rx_reachable F cfg rx \<Longrightarrow> rx_reachable F cfg (set_local_media_ssrc ssrc rx)"
| remote_ssrc: "rx_reachable F cfg rx \<Longrightarrow> rx_reachable F cfg (SetRemoteSSRC ssrc rx)"
| measurement: "rx_reachable F cfg rx \<Longrightarrow> rx_reachable F cfg (SetNonSenderRttMeasurement b rx)"
| periodic: "rx_reachable F cfg rx \<Longrightarrow> rx_reachable F cfg (snd (OnPeriodicRttUpdate cfg clk newer_than sending rx))"
| xr_rtt: "rx_reachable F cfg rx \<Longrightarrow> rx_reachable F cfg (snd (GetAndResetXrRrRtt rx))"
| rr_timeout: "rx_reachable F cfg rx \<Longrightarrow> rx_reachable F cfg (snd (RtcpRrTimeout cfg clk rx))"
| sequence_timeout: "rx_reachable F cfg rx \<Longrightarrow> rx_reachable F cfg (snd (RtcpRrSequenceNumberTimeout cfg clk rx))"
| notify: "rx_reachable F cfg rx \<Longrightarrow> rx_reachable F cfg (snd (NotifyTmmbrUpdated F cfg clk rx))"

lemma rx_reachable_ok: "rx_reachable F cfg rx \<Longrightarrow> rx_ok rx"
proof (induction rule: rx_reachable.induct)
  case (packet rx clk bs calls rx')
  then show ?case using IncomingPacket_ok [of rx F cfg clk bs] by (auto simp: rx_next_def)
next
  case (consume rx clk rtis rx')
  then show ?case using ConsumeReceivedXr_eq [of rx clk] by (auto simp: rx_next_def)
next
  case (notify rx clk)
  then show ?case
    using TmmbrReceived_next [of rx clk] by (simp add: NotifyTmmbrUpdated_def Let_def split_def rx_next_def)
qed (simp_all add: rx_ok_init RegisteredSsrcs_init_ok UpdateTmmbrTimers_ok set_local_media_ssrc_ok SetRemoteSSRC_ok
    SetNonSenderRttMeasurement_ok OnPeriodicRttUpdate_ok rr_timeouts_ok)

lemma average_rtt_bounds:
  assumes "rtt_stats_ok s"
  shows "\<exists>a. average_rtt s = Some a \<and> (rs_num_rtts s < 2 ^ 28 \<longrightarrow> rtt_in_range a)"
proof -
  let ?n = "int (rs_num_rtts s)"
  have n: "0 < ?n" using assms by (simp add: rtt_stats_ok_def)
  moreover have "rtt_in_range (rs_sum_rtt s sdiv ?n)" if "rs_num_rtts s < 2 ^ 28"
  proof -
    have b: "?n * 1000 \<le> rs_sum_rtt s" "rs_sum_rtt s \<le> ?n * kMaxRtt" using assms that by (simp_all add: rtt_stats_ok_def)
    have "0 \<le> ?n * 1000" using n by simp
    then have "0 \<le> rs_sum_rtt s" using b(1) by linarith
    then have "rs_sum_rtt s sdiv ?n = rs_sum_rtt s div ?n" using n by (simp add: sdiv_nonneg)
    moreover have "1000 \<le> rs_sum_rtt s div ?n" using zdiv_mono1 [OF b(1) n] n by simp
    moreover have "rs_sum_rtt s div ?n \<le> kMaxRtt" using zdiv_mono1 [OF b(2) n] n by simp
    ultimately show ?thesis by (simp add: rtt_in_range_def)
  qed
  ultimately show ?thesis by (auto simp: average_rtt_def unit_divide_def)
qed

lemma RttStats_of_reachable:
  assumes "rx_ok rx" and "smap_find (rx_rtts rx) ssrc = Some s"
  shows "rtt_stats_ok s"
  using assms maps_ok_find(1) by (auto simp: rx_ok_def)

text \<open>
  C2: No sequence of calls on a receiver, with whatever packets, makes it do something undefined: every incoming packet is
  handled to the end, without a read outside of the packet, a stale list iterator, a null loss
  notification or an index past the bitrate layers; consuming the reference times finds a list node each
  time; and the average round trip time is never divided by zero.
\<close>

theorem receiver_never_undefined:
  assumes "rx_reachable F cfg rx"
  shows "safe (IncomingPacket F cfg clk bs rx) \<and> safe (ConsumeReceivedXrReferenceTimeInfo clk rx) \<and> safe (AverageRtt rx)"
proof -
  note ok = rx_reachable_ok [OF assms]
  have "AverageRtt rx \<noteq> None"
    using RttStats_of_reachable [OF ok] average_rtt_bounds by (fastforce simp: AverageRtt_def split: option.splits)
  then show ?thesis
    using IncomingPacket_ok [OF ok, of F cfg clk bs] ConsumeReceivedXr_eq [OF ok, of clk] by (auto simp: safe_def)
qed

definition example_config :: rx_config where
  "example_config = \<lparr>cfg_receiver_only = False, cfg_enable_congestion_controller_feedback = True,
     cfg_network_link_rtcp_observer = True, cfg_intra_frame_observer = True, cfg_loss_notification_observer = True,
     cfg_network_state_estimate_observer = True, cfg_bitrate_allocation_observer = True, cfg_cname_callback = True,
     cfg_report_block_data_observer = True, cfg_packet_type_counter_observer = True, cfg_report_interval = 1000000\<rparr>"

lemma example_receiver_reachable: "rx_reachable F cfg example_receiver"
  using construct [of F cfg example_clock "0x1111" None None True]
  by (simp add: example_receiver_def RegisteredSsrcs_init_def)

theorem receiver_never_undefined_witness:
  "safe (IncomingPacket (\<lambda>b. b) example_config example_clock [0x80, 200, 0, 6, 1, 2, 3] example_receiver)"
  using receiver_never_undefined [OF example_receiver_reachable] by blast

text \<open>
  C33: The round trip times the receiver reports are plausible: after any sequence of calls the last one and, over up to
  2^28 - 1 measurements, the average lie between one millisecond and 32768 seconds.
\<close>

theorem reported_rtts_in_range:
  assumes "rx_reachable F cfg rx"
  shows "(\<forall>rtt. LastRtt rx = Some rtt \<longrightarrow> 1000 \<le> rtt \<and> rtt \<le> 32768000000) \<and>
    (\<forall>rtt. AverageRtt rx = Some (Some rtt) \<longrightarrow>
       (\<forall>s. smap_find (rx_rtts rx) (rx_remote_ssrc rx) = Some s \<longrightarrow> rs_num_rtts s < 2 ^ 28 \<longrightarrow>
          1000 \<le> rtt \<and> rtt \<le> 32768000000))"
proof (cases "smap_find (rx_rtts rx) (rx_remote_ssrc rx)")
  case (Some s)
  have "rtt_stats_ok s" using RttStats_of_reachable [OF rx_reachable_ok [OF assms] Some] .
  then show ?thesis
    using average_rtt_bounds [of s] by (auto simp: LastRtt_def AverageRtt_def Some rtt_stats_ok_def rtt_in_range_def kMaxRtt_def)
qed (simp add: LastRtt_def AverageRtt_def)

definition example_rr :: bytes where
  "example_rr = [0x81, 201, 0, 7, 0, 0, 0, 7, 0, 0, 0x11, 0x11, 0, 0, 0, 0, 0, 0, 0, 5, 0, 0, 0, 0,
     0, 9, 0, 0, 0, 0, 0x80, 0]"

definition example_after_rr :: RTCPReceiver where
  "example_after_rr = SetRemoteSSRC 7
     (case IncomingPacket (\<lambda>b. b) example_config example_clock example_rr example_receiver of
        Some (calls, rx) \<Rightarrow> rx | None \<Rightarrow> example_receiver)"

lemma example_after_rr_reachable: "rx_reachable (\<lambda>b. b) example_config example_after_rr"
  unfolding example_after_rr_def
  by (rule remote_ssrc)
    (use example_receiver_reachable packet in \<open>fastforce split: option.splits\<close>)

theorem reported_rtts_in_range_witness:
  "LastRtt example_after_rr = Some 500000 \<and> (\<exists>rtt. LastRtt example_after_rr = Some rtt \<and> 1000 \<le> rtt \<and> rtt \<le> 32768000000)"
proof -
  have "LastRtt example_after_rr = Some 500000" by code_simp
  then show ?thesis using reported_rtts_in_range [OF example_after_rr_reachable] by blast
qed

section \<open>Malformed packets and the bound of the loop\<close>

text \<open>The blocks of a packet as the common headers delimit them, and whether the last one ends with the packet.\<close>

function block_chain :: "bytes \<Rightarrow> CommonHeader list \<times> bool" where
  "block_chain bs =
     (if bs = [] then ([], True)
      else case CommonHeader_Parse bs of
             Some (Accepted h) \<Rightarrow> let (hs, ok) = block_chain (ch_next h) in (h # hs, ok)
           | _ \<Rightarrow> ([], False))"
  by pat_completeness auto
termination
  by (relation "measure length") (auto dest: CommonHeader_Parse_progress)

declare block_chain.simps [simp del]

fun handle_blocks :: "rx_config \<Rightarrow> Clock \<Rightarrow> CommonHeader list \<Rightarrow> bool \<Rightarrow> compound \<Rightarrow> (bool \<times> compound) option" where
  "handle_blocks cfg clk [] ok c = Some (ok, c)"
| "handle_blocks cfg clk (h # hs) ok c = do {
     (valid, c') \<leftarrow> HandleBlock cfg clk h c;
     if valid then handle_blocks cfg clk hs ok c' else Some (False, c')
   }"

lemma compound_loop_chain:
  "compound_loop cfg clk bs c = handle_blocks cfg clk (fst (block_chain bs)) (snd (block_chain bs)) c"
proof (induction cfg clk bs c rule: compound_loop.induct)
  case (1 cfg clk bs c)
  show ?case
  proof (cases "bs = []")
    case False
    obtain r where r: "CommonHeader_Parse bs = Some r" using CommonHeader_Parse_safe [of bs] by (auto simp: safe_def)
    show ?thesis
    proof (cases r)
      case Rejected
      then show ?thesis using False r by (simp add: compound_loop.simps [of cfg clk bs] block_chain.simps [of bs])
    next
      case (Accepted h)
      have c: "block_chain bs = (h # fst (block_chain (ch_next h)), snd (block_chain (ch_next h)))"
        using False r Accepted by (simp add: block_chain.simps [of bs] split_def Let_def)
      show ?thesis
      proof (cases "HandleBlock cfg clk h c")
        case None
        then show ?thesis using False r Accepted c by (simp add: compound_loop.simps [of cfg clk bs])
      next
        case (Some vc)
        then show ?thesis
          using False r Accepted c "1.IH" [OF False r Accepted Some]
          by (cases vc) (simp add: compound_loop.simps [of cfg clk bs])
      qed
    qed
  qed (simp add: compound_loop.simps [of cfg clk "[]"] block_chain.simps [of "[]"])
qed

lemma block_chain_length: "4 * length (fst (block_chain bs)) \<le> length bs"
proof (induction bs rule: block_chain.induct)
  case (1 bs)
  show ?case
  proof (cases "bs \<noteq> [] \<and> (\<exists>h. CommonHeader_Parse bs = Some (Accepted h))")
    case True
    then obtain h where h: "bs \<noteq> []" "CommonHeader_Parse bs = Some (Accepted h)" by blast
    have "length (ch_next h) + 4 \<le> length bs"
      using CommonHeader_Parse_layout [OF h(2)] by (simp add: packet_size_def kHeaderSizeBytes_def)
    then show ?thesis using "1.IH" [OF h(1) _ refl] h by (simp add: block_chain.simps [of bs] split_def Let_def)
  next
    case False
    then show ?thesis by (auto simp: block_chain.simps [of bs] split: option.splits outcome.splits)
  qed
qed

text \<open>
  C19: The loop of ParseCompoundPacket ends: it handles the blocks that the common headers delimit, one after the other
  and each once, stopping at the first invalid one, and a packet of n bytes has at most n / 4 of them, zero-length payloads
  and padding included.
\<close>

theorem compound_loop_bounded:
  "compound_loop cfg clk bs c = handle_blocks cfg clk (fst (block_chain bs)) (snd (block_chain bs)) c \<and>
   length (fst (block_chain bs)) \<le> length bs div 4"
  using compound_loop_chain block_chain_length [of bs] by simp

lemma handle_blocks_broken:
  "handle_blocks cfg clk hs ok c = Some (v, c') \<Longrightarrow> \<not> ok \<Longrightarrow> \<not> v"
  by (induction cfg clk hs ok c rule: handle_blocks.induct) (auto split: Option.bind_splits if_splits)

text \<open>
  C18: A datagram whose bytes do not form a chain of blocks up to its end is rejected as a whole: whatever its first blocks
  say, no observer learns of it except the callback for canonical names, which is made while the
  blocks are read, and the packet is counted as skipped.
\<close>

theorem malformed_packet_reaches_nobody:
  assumes "rx_reachable F cfg rx" and "\<not> snd (block_chain bs)"
  shows "\<exists>calls rx'. IncomingPacket F cfg clk bs rx = Some (calls, rx') \<and> rx_ok rx' \<and> list_all is_cname calls \<and>
    rx_num_skipped_packets rx < rx_num_skipped_packets rx'"
proof -
  obtain v rx1 info calls where p: "ParseCompoundPacket cfg clk bs rx = Some (v, rx1, info, calls)" "rx_next rx rx1"
      "\<not> v \<longrightarrow> rx_num_skipped_packets rx < rx_num_skipped_packets rx1 \<and> list_all is_cname calls"
    using ParseCompoundPacket_ok [OF rx_reachable_ok [OF assms(1)], of cfg clk bs] by blast
  let ?c = "\<lparr>cp_rx = rx, cp_info = PacketInformation_init, cp_received_blocks = [], cp_calls = []\<rparr>"
  obtain v' c' where "compound_loop cfg clk bs ?c = Some (v', c')" "v' = v"
    using p(1) by (auto simp: ParseCompoundPacket_def Let_def split: Option.bind_splits if_splits)
  then have "\<not> v" using handle_blocks_broken assms(2) unfolding compound_loop_chain by blast
  moreover have "bs \<noteq> []" using assms(2) by (auto simp: block_chain.simps)
  ultimately show ?thesis using p by (simp add: IncomingPacket_def rx_next_def)
qed

theorem malformed_packet_reaches_nobody_witness:
  "\<exists>calls rx'. IncomingPacket (\<lambda>b. b) example_config example_clock (example_rr @ [0x80, 203, 0]) example_receiver =
     Some (calls, rx') \<and> list_all is_cname calls \<and> 0 < rx_num_skipped_packets rx'"
proof -
  have "\<not> snd (block_chain (example_rr @ [0x80, 203, 0]))" by code_simp
  then show ?thesis
    using malformed_packet_reaches_nobody [OF example_receiver_reachable, of "example_rr @ [0x80, 203, 0]" "\<lambda>b. b"
        example_config example_clock]
    by auto
qed

end
