(* ===== verification/Rtcp_Sender.thy ===== *)
theory Rtcp_Sender
  imports Rtcp_Receiver_Inv
begin

text \<open>
  How packets get into datagrams: \<open>rtcp::CompoundPacket\<close> and, from
  \<open>modules/rtp_rtcp/source/rtcp_sender.cc\<close>, the nested class \<open>PacketSender\<close> and
  \<open>RTCPSender::SendCombinedRtcpPacket\<close>. An object of a class derived from \<open>RtcpPacket\<close> is a value
  of \<open>RtcpObject\<close>, and the virtual methods dispatch on its constructor. \<open>PacketSender\<close> owns the packet buffer: it
  is the \<open>wbuf\<close> of the packet classes, whose second component are the datagrams handed to the
  transport. The theorems follow a datagram to the receiver's loop over its blocks.
\<close>

section \<open>Virtual methods of RtcpPacket\<close>

datatype RtcpObject =
  Obj_Pli Pli
| Obj_RapidResyncRequest RapidResyncRequest
| Obj_Fir Fir
| Obj_LossNotification LossNotification
| Obj_Nack Nack
| Obj_Tmmbr Tmmb
| Obj_Tmmbn Tmmb
| Obj_Remb Remb
| Obj_ReceiverReport ReceiverReport
| Obj_SenderReport SenderReport
| Obj_Bye Bye
| Obj_App App
| Obj_Sdes Sdes
| Obj_ExtendedReports ExtendedReports
| Obj_Ccfb Ccfb
| Obj_TransportFeedback TransportFeedback

fun RtcpPacket_BlockLength :: "RtcpObject \<Rightarrow> nat" where
  "RtcpPacket_BlockLength (Obj_Pli p) = Pli_BlockLength p"
| "RtcpPacket_BlockLength (Obj_RapidResyncRequest p) = RapidResyncRequest_BlockLength p"
| "RtcpPacket_BlockLength (Obj_Fir p) = Fir_BlockLength p"
| "RtcpPacket_BlockLength (Obj_LossNotification p) = LossNotification_BlockLength p"
| "RtcpPacket_BlockLength (Obj_Nack p) = Nack_BlockLength p"
| "RtcpPacket_BlockLength (Obj_Tmmbr p) = Tmmbr_BlockLength p"
| "RtcpPacket_BlockLength (Obj_Tmmbn p) = Tmmbn_BlockLength p"
| "RtcpPacket_BlockLength (Obj_Remb p) = Remb_BlockLength p"
| "RtcpPacket_BlockLength (Obj_ReceiverReport p) = ReceiverReport_BlockLength p"
| "RtcpPacket_BlockLength (Obj_SenderReport p) = SenderReport_BlockLength p"
| "RtcpPacket_BlockLength (Obj_Bye p) = Bye_BlockLength p"
| "RtcpPacket_BlockLength (Obj_App p) = App_BlockLength p"
| "RtcpPacket_BlockLength (Obj_Sdes p) = Sdes_BlockLength p"
| "RtcpPacket_BlockLength (Obj_ExtendedReports p) = ExtendedReports_BlockLength p"
| "RtcpPacket_BlockLength (Obj_Ccfb p) = Ccfb_BlockLength p"
| "RtcpPacket_BlockLength (Obj_TransportFeedback p) = TransportFeedback_BlockLength p"

fun RtcpPacket_Create :: "RtcpObject \<Rightarrow> nat \<Rightarrow> wbuf \<Rightarrow> bool \<times> wbuf" where
  "RtcpPacket_Create (Obj_Pli p) = Pli_Create p"
| "RtcpPacket_Create (Obj_RapidResyncRequest p) = RapidResyncRequest_Create p"
| "RtcpPacket_Create (Obj_Fir p) = Fir_Create p"
| "RtcpPacket_Create (Obj_LossNotification p) = LossNotification_Create p"
| "RtcpPacket_Create (Obj_Nack p) = Nack_Create p"
| "RtcpPacket_Create (Obj_Tmmbr p) = Tmmbr_Create p"
| "RtcpPacket_Create (Obj_Tmmbn p) = Tmmbn_Create p"
| "RtcpPacket_Create (Obj_Remb p) = Remb_Create p"
| "RtcpPacket_Create (Obj_ReceiverReport p) = ReceiverReport_Create p"
| "RtcpPacket_Create (Obj_SenderReport p) = SenderReport_Create p"
| "RtcpPacket_Create (Obj_Bye p) = Bye_Create p"
| "RtcpPacket_Create (Obj_App p) = App_Create p"
| "RtcpPacket_Create (Obj_Sdes p) = Sdes_Create p"
| "RtcpPacket_Create (Obj_ExtendedReports p) = ExtendedReports_Create p"
| "RtcpPacket_Create (Obj_Ccfb p) = Ccfb_Create p"
| "RtcpPacket_Create (Obj_TransportFeedback p) = TransportFeedback_Create p"

fun SetSenderSsrc :: "u32 \<Rightarrow> RtcpObject \<Rightarrow> RtcpObject" where
  "SetSenderSsrc s (Obj_Pli p) = Obj_Pli (p\<lparr>sender_ssrc := s\<rparr>)"
| "SetSenderSsrc s (Obj_RapidResyncRequest p) = Obj_RapidResyncRequest (p\<lparr>sender_ssrc := s\<rparr>)"
| "SetSenderSsrc s (Obj_Fir p) = Obj_Fir (p\<lparr>sender_ssrc := s\<rparr>)"
| "SetSenderSsrc s (Obj_LossNotification p) = Obj_LossNotification (p\<lparr>sender_ssrc := s\<rparr>)"
| "SetSenderSsrc s (Obj_Nack p) = Obj_Nack (p\<lparr>sender_ssrc := s\<rparr>)"
| "SetSenderSsrc s (Obj_Tmmbr p) = Obj_Tmmbr (p\<lparr>sender_ssrc := s\<rparr>)"
| "SetSenderSsrc s (Obj_Tmmbn p) = Obj_Tmmbn (p\<lparr>sender_ssrc := s\<rparr>)"
| "SetSenderSsrc s (Obj_Remb p) = Obj_Remb (p\<lparr>sender_ssrc := s\<rparr>)"
| "SetSenderSsrc s (Obj_ReceiverReport p) = Obj_ReceiverReport (p\<lparr>sender_ssrc := s\<rparr>)"
| "SetSenderSsrc s (Obj_SenderReport p) = Obj_SenderReport (p\<lparr>sender_ssrc := s\<rparr>)"
| "SetSenderSsrc s (Obj_Bye p) = Obj_Bye (p\<lparr>sender_ssrc := s\<rparr>)"
| "SetSenderSsrc s (Obj_App p) = Obj_App (p\<lparr>sender_ssrc := s\<rparr>)"
| "SetSenderSsrc s (Obj_Sdes p) = Obj_Sdes (p\<lparr>sender_ssrc := s\<rparr>)"
| "SetSenderSsrc s (Obj_ExtendedReports p) = Obj_ExtendedReports (p\<lparr>sender_ssrc := s\<rparr>)"
| "SetSenderSsrc s (Obj_Ccfb p) = Obj_Ccfb (p\<lparr>sender_ssrc := s\<rparr>)"
| "SetSenderSsrc s (Obj_TransportFeedback p) = Obj_TransportFeedback (p\<lparr>sender_ssrc := s\<rparr>)"

section \<open>CompoundPacket\<close>

type_synonym CompoundPacket = "RtcpObject list"

definition CompoundPacket_Append :: "RtcpObject \<Rightarrow> CompoundPacket \<Rightarrow> CompoundPacket" where
  "CompoundPacket_Append packet appended_packets = appended_packets @ [packet]"

fun CompoundPacket_Create :: "CompoundPacket \<Rightarrow> nat \<Rightarrow> wbuf \<Rightarrow> bool \<times> wbuf" where
  "CompoundPacket_Create [] max_length w = (True, w)"
| "CompoundPacket_Create (appended # rest) max_length w =
     (let (ok, w') = RtcpPacket_Create appended max_length w
      in if \<not> ok then (False, w') else CompoundPacket_Create rest max_length w')"

definition CompoundPacket_BlockLength :: "CompoundPacket \<Rightarrow> nat" where
  "CompoundPacket_BlockLength appended_packets = sum_list (map RtcpPacket_BlockLength appended_packets)"

section \<open>RTCPSender: PacketSender and SendCombinedRtcpPacket\<close>

definition IP_PACKET_SIZE :: nat where
  "IP_PACKET_SIZE = 1500"

text \<open>The answer of \<open>Create\<close> is dropped.\<close>

definition PacketSender_AppendPacket :: "nat \<Rightarrow> RtcpObject \<Rightarrow> wbuf \<Rightarrow> wbuf" where
  "PacketSender_AppendPacket max_packet_size packet w = snd (RtcpPacket_Create packet max_packet_size w)"

definition PacketSender_Send :: "wbuf \<Rightarrow> wbuf" where
  "PacketSender_Send w =
     (if length (w_bytes w) > 0 then w\<lparr>w_bytes := [], w_ready := w_ready w @ [w_bytes w]\<rparr> else w)"

datatype RtcpMode = kOff | kCompound | kReducedSize

definition SendCombinedRtcpPacket :: "RtcpMode \<Rightarrow> nat \<Rightarrow> u32 \<Rightarrow> RtcpObject list \<Rightarrow> bytes list" where
  "SendCombinedRtcpPacket method max_packet_size ssrc rtcp_packets =
     (if method = kOff then []
      else w_ready (PacketSender_Send
             (fold (\<lambda>rtcp_packet. PacketSender_AppendPacket max_packet_size (SetSenderSsrc ssrc rtcp_packet))
                rtcp_packets wbuf_init)))"

section \<open>Objects that are written as one block\<close>

fun obj_body :: "RtcpObject \<Rightarrow> bytes" where
  "obj_body (Obj_Pli p) = Pli_body p"
| "obj_body (Obj_RapidResyncRequest p) = RapidResyncRequest_body p"
| "obj_body (Obj_Fir p) = Fir_body p"
| "obj_body (Obj_LossNotification p) = LossNotification_body p"
| "obj_body (Obj_Nack p) = Nack_body p"
| "obj_body (Obj_Tmmbr p) = Tmmbr_body p"
| "obj_body (Obj_Tmmbn p) = Tmmbn_body p"
| "obj_body (Obj_Remb p) = Remb_body p"
| "obj_body (Obj_ReceiverReport p) = ReceiverReport_body p"
| "obj_body (Obj_SenderReport p) = SenderReport_body p"
| "obj_body (Obj_Bye p) = Bye_body p"
| "obj_body (Obj_App p) = App_body p"
| "obj_body (Obj_Sdes p) = Sdes_body p"
| "obj_body (Obj_ExtendedReports p) = ExtendedReports_body p"
| "obj_body (Obj_Ccfb p) = Ccfb_body p"
| "obj_body (Obj_TransportFeedback p) = TransportFeedback_body p"

text \<open>The packets that \<open>Create\<close> writes as one block; a NACK is cut into pieces and has its own theorem.\<close>

fun obj_valid :: "RtcpObject \<Rightarrow> bool" where
  "obj_valid (Obj_Pli p) = True"
| "obj_valid (Obj_RapidResyncRequest p) = True"
| "obj_valid (Obj_Fir p) = Fir_valid p"
| "obj_valid (Obj_LossNotification p) = LossNotification_valid p"
| "obj_valid (Obj_Nack p) = False"
| "obj_valid (Obj_Tmmbr p) = Tmmb_valid p"
| "obj_valid (Obj_Tmmbn p) = Tmmbn_valid p"
| "obj_valid (Obj_Remb p) = Remb_valid p"
| "obj_valid (Obj_ReceiverReport p) = ReceiverReport_valid p"
| "obj_valid (Obj_SenderReport p) = SenderReport_valid p"
| "obj_valid (Obj_Bye p) = Bye_valid p"
| "obj_valid (Obj_App p) = App_valid p"
| "obj_valid (Obj_Sdes p) = Sdes_valid p"
| "obj_valid (Obj_ExtendedReports p) = ExtendedReports_valid p"
| "obj_valid (Obj_Ccfb p) = Ccfb_valid p"
| "obj_valid (Obj_TransportFeedback p) = (tf_valid p \<and> tf_num_seq_no p \<noteq> 0)"

text \<open>The receiver reads from a block the object that was written, up to what the wire format rounds.\<close>

fun obj_received :: "RtcpObject \<Rightarrow> CommonHeader \<Rightarrow> bool" where
  "obj_received (Obj_Pli p) h = (ch_packet_type h = Psfb_kPacketType \<and> Pli_Parse h = Some (Accepted p))"
| "obj_received (Obj_RapidResyncRequest p) h =
     (ch_packet_type h = Rtpfb_kPacketType \<and> RapidResyncRequest_Parse h = Some (Accepted p))"
| "obj_received (Obj_Fir p) h = (ch_packet_type h = Psfb_kPacketType \<and> Fir_Parse h = Some (Accepted p))"
| "obj_received (Obj_LossNotification p) h =
     (ch_packet_type h = Psfb_kPacketType \<and> LossNotification_Parse h = Some (Accepted p))"
| "obj_received (Obj_Nack p) h =
     (ch_packet_type h = Rtpfb_kPacketType \<and> Nack_Parse h = Some (Accepted (nack_of p (nack_packed p))))"
| "obj_received (Obj_Tmmbr p) h =
     (ch_packet_type h = Rtpfb_kPacketType \<and> Tmmbr_Parse h = Some (Accepted (Tmmb_canon p)))"
| "obj_received (Obj_Tmmbn p) h =
     (ch_packet_type h = Rtpfb_kPacketType \<and> Tmmbn_Parse h = Some (Accepted (Tmmb_canon p)))"
| "obj_received (Obj_Remb p) h =
     (ch_packet_type h = Psfb_kPacketType \<and> Remb_Parse h = Some (Accepted (Remb_canon p)))"
| "obj_received (Obj_ReceiverReport p) h =
     (ch_packet_type h = ReceiverReport_kPacketType \<and> ReceiverReport_Parse h = Some (Accepted p))"
| "obj_received (Obj_SenderReport p) h =
     (ch_packet_type h = SenderReport_kPacketType \<and> SenderReport_Parse h = Some (Accepted p))"
| "obj_received (Obj_Bye p) h = (ch_packet_type h = Bye_kPacketType \<and> Bye_Parse h = Some (Accepted p))"
| "obj_received (Obj_App p) h = (ch_packet_type h = App_kPacketType \<and> App_Parse h = Some (Accepted p))"
| "obj_received (Obj_Sdes p) h = (ch_packet_type h = Sdes_kPacketType \<and> Sdes_Parse h = Some (Accepted p))"
| "obj_received (Obj_ExtendedReports p) h =
     (ch_packet_type h = ExtendedReports_kPacketType \<and> ExtendedReports_Parse h = Some (Accepted p))"
| "obj_received (Obj_Ccfb p) h =
     (ch_packet_type h = Rtpfb_kPacketType \<and> Ccfb_Parse h = Some (Accepted (Ccfb_canon p)))"
| "obj_received (Obj_TransportFeedback p) h =
     (ch_packet_type h = Rtpfb_kPacketType \<and> TransportFeedback_Parse h = Some (Accepted (tf_canon p)))"

lemma obj_Create:
  "obj_valid o1 \<Longrightarrow> RtcpPacket_Create o1 m w = create_block (RtcpPacket_BlockLength o1) (obj_body o1) m w"
  by (cases o1) (simp_all add: Pli_Create_def RapidResyncRequest_Create_def Fir_Create_def LossNotification_Create_def
      Tmmbr_Create_def Tmmbn_Create_def Remb_Create_def ReceiverReport_Create_def SenderReport_Create_def Bye_Create_def
      App_Create_def Sdes_Create_def ExtendedReports_Create_def Ccfb_Create_def TransportFeedback_Create_def)

lemma obj_body_length: "obj_valid o1 \<Longrightarrow> length (obj_body o1) = RtcpPacket_BlockLength o1"
  by (cases o1) (simp_all add: pli.body_length rrr.body_length fir.body_length lntf.body_length tmmbr.body_length
      tmmbn.body_length remb.body_length rr.body_length sr.body_length bye.body_length app.body_length sdes.body_length
      xr.body_length ccfb.body_length tfb.body_length)

lemma obj_header:
  assumes "obj_valid o1"
  shows "\<exists>h. CommonHeader_Parse (obj_body o1 @ rest) = Some (Accepted h) \<and> ch_next h = rest \<and> obj_received o1 h"
proof (cases o1)
  case (Obj_Pli p)
  then show ?thesis using assms pli.header [of p rest] by auto
next
  case (Obj_RapidResyncRequest p)
  then show ?thesis using assms rrr.header [of p rest] by auto
next
  case (Obj_Fir p)
  then show ?thesis using assms fir.header [of p rest] by auto
next
  case (Obj_LossNotification p)
  then show ?thesis using assms lntf.header [of p rest] by auto
next
  case (Obj_Tmmbr p)
  then show ?thesis using assms tmmbr.header [of p rest] by auto
next
  case (Obj_Tmmbn p)
  then show ?thesis using assms tmmbn.header [of p rest] by auto
next
  case (Obj_Remb p)
  then show ?thesis using assms remb.header [of p rest] by auto
next
  case (Obj_ReceiverReport p)
  then show ?thesis using assms rr.header [of p rest] by auto
next
  case (Obj_SenderReport p)
  then show ?thesis using assms sr.header [of p rest] by auto
next
  case (Obj_Bye p)
  then show ?thesis using assms bye.header [of p rest] by auto
next
  case (Obj_App p)
  then show ?thesis using assms app.header [of p rest] by auto
next
  case (Obj_Sdes p)
  then show ?thesis using assms sdes.header [of p rest] by auto
next
  case (Obj_ExtendedReports p)
  then show ?thesis using assms xr.header [of p rest] by auto
next
  case (Obj_Ccfb p)
  then show ?thesis using assms ccfb.header [of p rest] by auto
next
  case (Obj_TransportFeedback p)
  then show ?thesis using assms tfb.header [of p rest] by auto
qed (use assms in simp)

section \<open>Whole blocks in datagrams\<close>

text \<open>A buffer whose datagrams, finished or not, consist of the given whole blocks.\<close>

definition grouped :: "wbuf \<Rightarrow> bytes list list \<Rightarrow> bytes list \<Rightarrow> bool" where
  "grouped w gs cur \<longleftrightarrow> w_ready w = map concat gs \<and> w_bytes w = concat cur"

lemma create_block_grouped:
  assumes "grouped w gs cur" and "length b \<le> m"
  shows "\<exists>w' gs' cur'. create_block (length b) b m w = (True, w') \<and> grouped w' gs' cur' \<and>
    concat gs' @ cur' = concat gs @ cur @ [b]"
proof (cases "length (w_bytes w) + length b \<le> m")
  case True
  then have "create_block (length b) b m w = (True, put b w)"
    by (simp add: create_block_def ensure_room.simps)
  moreover have "grouped (put b w) gs (cur @ [b])" using assms(1) by (simp add: grouped_def put_def)
  ultimately show ?thesis by fastforce
next
  case False
  let ?w = "w\<lparr>w_bytes := [], w_ready := w_ready w @ [w_bytes w]\<rparr>"
  have "w_bytes w \<noteq> []" using False assms(2) by auto
  then have "ensure_room (length b) m w = (True, ?w)"
    using False assms(2) by (simp add: ensure_room.simps [of _ _ w] ensure_room.simps [of _ _ ?w] OnBufferFull_def)
  then have "create_block (length b) b m w = (True, put b ?w)" by (simp add: create_block_def)
  moreover have "grouped (put b ?w) (gs @ [cur]) [b]" using assms(1) by (simp add: grouped_def put_def)
  ultimately show ?thesis by fastforce
qed

lemma append_packets_grouped:
  assumes "grouped w gs cur" and "wbuf_fits m w"
    and "list_all (\<lambda>q. obj_valid q \<and> RtcpPacket_BlockLength q \<le> m) qs"
  shows "\<exists>w' gs' cur'. fold (PacketSender_AppendPacket m) qs w = w' \<and> grouped w' gs' cur' \<and> wbuf_fits m w' \<and>
    concat gs' @ cur' = concat gs @ cur @ map obj_body qs"
  using assms
proof (induction qs arbitrary: w gs cur)
  case (Cons q qs)
  have q: "obj_valid q" "length (obj_body q) \<le> m" "RtcpPacket_BlockLength q = length (obj_body q)"
    using Cons.prems(3) obj_body_length by (simp_all add: list_all_iff)
  obtain w1 gs1 cur1 where w1: "create_block (length (obj_body q)) (obj_body q) m w = (True, w1)" "grouped w1 gs1 cur1"
      "concat gs1 @ cur1 = concat gs @ cur @ [obj_body q]"
    using create_block_grouped [OF Cons.prems(1) q(2)] by blast
  have "wbuf_fits m w1" using create_block_props(2) [OF w1(1) refl Cons.prems(2)] .
  moreover have "PacketSender_AppendPacket m q w = w1"
    using w1(1) q by (simp add: PacketSender_AppendPacket_def obj_Create)
  moreover have e: "concat gs1 @ cur1 @ map obj_body qs = concat gs @ cur @ map obj_body (q # qs)"
    using arg_cong [OF w1(3), of "\<lambda>x. x @ map obj_body qs"] by simp
  moreover have "list_all (\<lambda>q. obj_valid q \<and> RtcpPacket_BlockLength q \<le> m) qs" using Cons.prems(3) by simp
  ultimately show ?case using Cons.IH [OF w1(2)] unfolding e fold_simps by blast
qed auto

lemma SendCombined_grouped:
  assumes "method \<noteq> kOff"
    and v: "list_all (\<lambda>q. obj_valid q \<and> RtcpPacket_BlockLength q \<le> m) (map (SetSenderSsrc ssrc) qs)"
  shows "\<exists>gs. SendCombinedRtcpPacket method m ssrc qs = map concat gs \<and>
    concat gs = map obj_body (map (SetSenderSsrc ssrc) qs) \<and>
    (\<forall>d \<in> set (map concat gs). d \<noteq> [] \<and> length d \<le> m)"
proof -
  let ?qs = "map (SetSenderSsrc ssrc) qs"
  obtain w gs cur where w: "fold (PacketSender_AppendPacket m) ?qs wbuf_init = w" "grouped w gs cur" "wbuf_fits m w"
      "concat gs @ cur = map obj_body ?qs"
    using append_packets_grouped [of wbuf_init "[]" "[]" m ?qs] v by (auto simp: grouped_def)
  have f: "fold (\<lambda>q. PacketSender_AppendPacket m (SetSenderSsrc ssrc q)) qs wbuf_init = w"
    using w(1) by (simp add: fold_map comp_def)
  have bodies: "\<forall>b \<in> set (concat gs @ cur). b \<noteq> []"
  proof -
    have "obj_body q \<noteq> []" if "obj_valid q" for q
      using obj_header [OF that, of "[]"] by (auto simp: CommonHeader_Parse_def kHeaderSizeBytes_def)
    then show ?thesis using v unfolding w(4) by (auto simp: list_all_iff)
  qed
  show ?thesis
  proof (cases "cur = []")
    case True
    then show ?thesis
      using f w assms(1) by (intro exI [of _ gs])
        (auto simp: SendCombinedRtcpPacket_def PacketSender_Send_def grouped_def wbuf_fits_def)
  next
    case False
    then have ne: "concat cur \<noteq> []" using bodies by (cases cur) auto
    then show ?thesis
      using f w assms(1) by (intro exI [of _ "gs @ [cur]"])
        (auto simp: SendCombinedRtcpPacket_def PacketSender_Send_def grouped_def wbuf_fits_def)
  qed
qed

section \<open>From the sender to the receiver's loop\<close>

lemma block_chain_blocks:
  "list_all obj_valid qs \<Longrightarrow> list_all2 obj_received qs (fst (block_chain (concat (map obj_body qs)))) \<and>
     snd (block_chain (concat (map obj_body qs)))"
proof (induction qs)
  case (Cons q qs)
  let ?rest = "concat (map obj_body qs)"
  obtain h where h: "CommonHeader_Parse (obj_body q @ ?rest) = Some (Accepted h)" "ch_next h = ?rest" "obj_received q h"
    using obj_header Cons.prems by (metis list.pred_inject(2))
  have "obj_body q @ ?rest \<noteq> []" using CommonHeader_Parse_progress [OF h(1)] by (metis list.size(3) not_less_zero)
  then have "block_chain (obj_body q @ ?rest) = (h # fst (block_chain ?rest), snd (block_chain ?rest))"
    using h(1,2) by (simp add: block_chain.simps [of "obj_body q @ ?rest"] split_def Let_def)
  then show ?case using Cons h(3) by simp
qed (simp add: block_chain.simps)

lemma block_chains_groups:
  assumes "concat gs = map obj_body qs" and "list_all obj_valid qs"
  shows "list_all2 obj_received qs (concat (map (\<lambda>d. fst (block_chain d)) (map concat gs))) \<and>
    list_all (\<lambda>d. snd (block_chain d)) (map concat gs)"
  using assms
proof (induction gs arbitrary: qs)
  case (Cons g gs)
  define k where "k = length g"
  have e: "map obj_body qs = g @ concat gs" using Cons.prems(1) by simp
  have g: "g = map obj_body (take k qs)" "concat gs = map obj_body (drop k qs)"
    unfolding take_map [symmetric] drop_map [symmetric] e k_def by simp_all
  have v: "list_all obj_valid (take k qs)" "list_all obj_valid (drop k qs)"
    using Cons.prems(2) by (auto simp: list_all_iff dest: in_set_takeD in_set_dropD)
  have "list_all2 obj_received (take k qs @ drop k qs)
      (fst (block_chain (concat g)) @ concat (map (\<lambda>d. fst (block_chain d)) (map concat gs)))"
    using block_chain_blocks [OF v(1)] Cons.IH [OF g(2) v(2)] g(1) by (intro list_all2_appendI) simp_all
  then show ?case using block_chain_blocks [OF v(1)] Cons.IH [OF g(2) v(2)] g(1) by simp
qed simp

text \<open>
  C4: Framing is faithful from end to end. Whatever packets are combined, of any mix of the classes that are written as one
  block, and however they spread over datagrams of the given size: every datagram sent is within that size and is
  a chain of whole blocks, and the blocks the receiver's loop visits over all the datagrams are exactly the packets
  sent, in order, each parsed back by its own class.
\<close>

theorem combined_packets_arrive:
  assumes "method \<noteq> kOff"
    and "list_all (\<lambda>q. obj_valid q \<and> RtcpPacket_BlockLength q \<le> m) (map (SetSenderSsrc ssrc) qs)"
  shows "list_all (\<lambda>d. d \<noteq> [] \<and> length d \<le> m \<and> snd (block_chain d)) (SendCombinedRtcpPacket method m ssrc qs) \<and>
    list_all2 obj_received (map (SetSenderSsrc ssrc) qs)
      (concat (map (\<lambda>d. fst (block_chain d)) (SendCombinedRtcpPacket method m ssrc qs)))"
proof -
  obtain gs where gs: "SendCombinedRtcpPacket method m ssrc qs = map concat gs"
      "concat gs = map obj_body (map (SetSenderSsrc ssrc) qs)" "\<forall>d \<in> set (map concat gs). d \<noteq> [] \<and> length d \<le> m"
    using SendCombined_grouped [OF assms] by blast
  have "list_all obj_valid (map (SetSenderSsrc ssrc) qs)" using assms(2) by (simp add: list_all_iff)
  note c = block_chains_groups [OF gs(2) this]
  have "list_all (\<lambda>d. d \<noteq> [] \<and> length d \<le> m \<and> snd (block_chain d)) (map concat gs)"
    using gs(3) c unfolding list_all_iff by blast
  then show ?thesis using c unfolding gs(1) by blast
qed

definition example_pli :: RtcpObject where
  "example_pli = Obj_Pli \<lparr>sender_ssrc = 0, media_ssrc = 0x2222\<rparr>"

definition example_bye :: RtcpObject where
  "example_bye = Obj_Bye \<lparr>sender_ssrc = 0, bye_csrcs = [5, 6], bye_reason = []\<rparr>"

theorem combined_packets_arrive_witness:
  "length (SendCombinedRtcpPacket kCompound 28 0x1111 [example_pli, example_bye, example_pli]) = 2 \<and>
   list_all2 obj_received (map (SetSenderSsrc 0x1111) [example_pli, example_bye, example_pli])
     (concat (map (\<lambda>d. fst (block_chain d)) (SendCombinedRtcpPacket kCompound 28 0x1111 [example_pli, example_bye, example_pli])))"
proof -
  have "list_all (\<lambda>q. obj_valid q \<and> RtcpPacket_BlockLength q \<le> 28) (map (SetSenderSsrc 0x1111) [example_pli, example_bye, example_pli])"
    by (simp add: example_pli_def example_bye_def Pli_BlockLength_def Bye_BlockLength_def Bye_valid_def
        Bye_kMaxNumberOfCsrcs_def kHeaderSizeBytes_def kCommonFeedbackLength_def)
  moreover have "length (SendCombinedRtcpPacket kCompound 28 0x1111 [example_pli, example_bye, example_pli]) = 2"
    by code_simp
  ultimately show ?thesis using combined_packets_arrive [of kCompound 28 "0x1111" "[example_pli, example_bye, example_pli]"] by simp
qed

lemma append_packets_written:
  assumes "wbuf_fits m w" and "list_all obj_valid qs"
  shows "written (fold (PacketSender_AppendPacket m) qs w) =
    written w @ concat (map obj_body (filter (\<lambda>q. RtcpPacket_BlockLength q \<le> m) qs))"
  using assms
proof (induction qs arbitrary: w)
  case (Cons q qs)
  have q: "obj_valid q" "list_all obj_valid qs" using Cons.prems(2) by simp_all
  obtain ok w' where c: "create_block (RtcpPacket_BlockLength q) (obj_body q) m w = (ok, w')" by fastforce
  note p = create_block_props [OF c obj_body_length [OF q(1)] Cons.prems(1)]
  have "PacketSender_AppendPacket m q w = w'" using c q(1) by (simp add: PacketSender_AppendPacket_def obj_Create)
  then show ?case using Cons.IH [OF p(2) q(2)] p(1,3) by simp
qed simp

text \<open>
  C20: A packet that does not fit the maximum size is dropped without a trace. The bytes handed to the transport are exactly those
  of the packets that fit: Create fails for every other one, the answer is ignored, and neither the caller nor
  the receiver of the remaining packets learns of it.
\<close>

theorem oversize_packets_are_dropped:
  assumes "method \<noteq> kOff" and "list_all obj_valid (map (SetSenderSsrc ssrc) qs)"
  shows "concat (SendCombinedRtcpPacket method m ssrc qs) =
    concat (map obj_body (filter (\<lambda>q. RtcpPacket_BlockLength q \<le> m) (map (SetSenderSsrc ssrc) qs)))"
proof -
  have s: "concat (w_ready (PacketSender_Send w)) = written w" for w by (simp add: PacketSender_Send_def written_def)
  have "fold (\<lambda>q. PacketSender_AppendPacket m (SetSenderSsrc ssrc q)) qs w =
      fold (PacketSender_AppendPacket m) (map (SetSenderSsrc ssrc) qs) w" for w by (simp add: fold_map comp_def)
  then show ?thesis
    using append_packets_written [OF _ assms(2), of m wbuf_init] assms(1)
    by (simp add: SendCombinedRtcpPacket_def s)
qed

theorem oversize_packets_are_dropped_witness:
  "SetSenderSsrc 7 example_bye \<noteq> example_bye \<and> concat (SendCombinedRtcpPacket kCompound 12 7 [example_pli, example_bye]) =
     obj_body (SetSenderSsrc 7 example_pli)"
proof -
  have v: "list_all obj_valid (map (SetSenderSsrc 7) [example_pli, example_bye])"
    by (simp add: example_pli_def example_bye_def Bye_valid_def Bye_kMaxNumberOfCsrcs_def)
  have "filter (\<lambda>q. RtcpPacket_BlockLength q \<le> 12) (map (SetSenderSsrc 7) [example_pli, example_bye]) = [SetSenderSsrc 7 example_pli]"
    by (simp add: example_pli_def example_bye_def Pli_BlockLength_def Bye_BlockLength_def kHeaderSizeBytes_def
        kCommonFeedbackLength_def)
  then show ?thesis using oversize_packets_are_dropped [OF _ v, of kCompound 12] by (simp add: example_bye_def)
qed

end
