(* ===== verification/Rtcp_Delivery.thy ===== *)
theory Rtcp_Delivery
  imports Rtcp_Sender Feedback_Adapter
begin

text \<open>
  What the receiver tells the rest of the program about the packets the remote side built: the
  composition of the packet classes, the sender's datagrams, \<open>RTCPReceiver\<close>, and for congestion
  control feedback the generator before and the adapter behind them.
\<close>

section \<open>Packets of one block\<close>

lemma header_format:
  assumes "CommonHeader_Parse (CreateHeader cf pt len @ rest) = Some (Accepted h)" and "cf < 32"
  shows "unat (ch_count_or_format h) = cf"
proof -
  define b0 :: u8 where "b0 = 0x80 OR (if False then 0x20 else 0) OR of_nat cf"
  have b0: "b0 AND 0x1F = of_nat cf" unfolding b0_def by (rule version_byte [OF assms(2)])
  obtain x y where hdr: "CreateHeader cf pt len = [b0, pt, x, y]"
    by (simp add: CreateHeader_def CreateHeader_padded_def b0_def)
  have "ch_count_or_format h = b0 AND 0x1F"
    using assms(1) unfolding hdr
    by (auto simp: CommonHeader_Parse_def kHeaderSizeBytes_def wire_simps Let_def split: if_splits bind_splits)
  then show ?thesis using assms(2) b0 by (simp add: unat_of_nat)
qed

definition counted :: "rx_config \<Rightarrow> RTCPReceiver \<Rightarrow> callback list" where
  "counted cfg rx =
     (if cfg_packet_type_counter_observer cfg
      then [RtcpPacketTypesCounterUpdated (local_media_ssrc rx) (rx_packet_type_counter rx)] else [])"

lemma IncomingPacket_single:
  assumes "CommonHeader_Parse bs = Some (Accepted h)" and "ch_next h = []"
    and "HandleBlock cfg clk h \<lparr>cp_rx = rx, cp_info = PacketInformation_init, cp_received_blocks = [], cp_calls = []\<rparr> =
      Some (True, \<lparr>cp_rx = rx1, cp_info = info, cp_received_blocks = [], cp_calls = []\<rparr>)"
    and "TriggerCallbacksFromRtcpPacket F cfg clk info (warn_skipped clk rx1) = Some (calls, rx2)"
  shows "IncomingPacket F cfg clk bs rx = Some (counted cfg (warn_skipped clk rx1) @ calls, rx2)"
proof -
  have "bs \<noteq> []" using CommonHeader_Parse_progress [OF assms(1)] by auto
  moreover have "compound_loop cfg clk bs \<lparr>cp_rx = rx, cp_info = PacketInformation_init, cp_received_blocks = [], cp_calls = []\<rparr> =
      Some (True, \<lparr>cp_rx = rx1, cp_info = info, cp_received_blocks = [], cp_calls = []\<rparr>)"
    using assms(1-3) calculation by (simp add: compound_loop.simps [of _ _ bs] compound_loop.simps [of _ _ "[]"])
  ultimately show ?thesis
    using assms(4) by (simp add: IncomingPacket_def ParseCompoundPacket_def invalidate_without_dlrr_def counted_def Let_def)
qed

lemma rtpfb_type_simps:
  "Rtpfb_kPacketType \<noteq> SenderReport_kPacketType" "Rtpfb_kPacketType \<noteq> ReceiverReport_kPacketType"
  "Rtpfb_kPacketType \<noteq> Sdes_kPacketType" "Rtpfb_kPacketType \<noteq> ExtendedReports_kPacketType"
  "Rtpfb_kPacketType \<noteq> Bye_kPacketType" "Rtpfb_kPacketType \<noteq> App_kPacketType"
  "Psfb_kPacketType \<noteq> SenderReport_kPacketType" "Psfb_kPacketType \<noteq> ReceiverReport_kPacketType"
  "Psfb_kPacketType \<noteq> Sdes_kPacketType" "Psfb_kPacketType \<noteq> ExtendedReports_kPacketType"
  "Psfb_kPacketType \<noteq> Bye_kPacketType" "Psfb_kPacketType \<noteq> App_kPacketType" "Psfb_kPacketType \<noteq> Rtpfb_kPacketType"
  by (simp_all add: feedback_consts sr_consts rr_consts Sdes_kPacketType_def ExtendedReports_kPacketType_def
      Bye_kPacketType_def App_kPacketType_def)

lemma rtpfb_format_simps:
  "Ccfb_kFeedbackMessageType \<noteq> Nack_kFeedbackMessageType" "Ccfb_kFeedbackMessageType \<noteq> Tmmbr_kFeedbackMessageType"
  "Ccfb_kFeedbackMessageType \<noteq> Tmmbn_kFeedbackMessageType"
  "Ccfb_kFeedbackMessageType \<noteq> RapidResyncRequest_kFeedbackMessageType"
  "Ccfb_kFeedbackMessageType \<noteq> Tf_kFeedbackMessageType"
  by (simp_all add: ccfb_consts nack_consts tmmb_consts RapidResyncRequest_kFeedbackMessageType_def Tf_kFeedbackMessageType_def)

lemma info_init [simp]:
  "info_report_block_datas PacketInformation_init = []" "info_rtt PacketInformation_init = None"
  "info_nack_sequence_numbers PacketInformation_init = []" "info_transport_feedback PacketInformation_init = None"
  "info_congestion_control_feedback PacketInformation_init = None" "info_target_bitrate_allocation PacketInformation_init = None"
  "info_network_state_estimate PacketInformation_init = None"
  by (simp_all add: PacketInformation_init_def)

lemmas callback_defs = TriggerCallbacksFromRtcpPacket_def loss_notification_calls_def network_link_calls_def Let_def

section \<open>REMB\<close>

text \<open>
  C35: A REMB is reported to the network controller as the bitrate the packet carries modulo 2^32. Below 2^32 that is the
  bitrate itself; but a REMB of 2^32 bits per second, which the packet class represents and transmits exactly,
  is reported as an estimate of zero, as the example after the theorem shows.
\<close>

theorem remb_is_truncated:
  assumes "Remb_valid p" and "cfg_network_link_rtcp_observer cfg"
  shows "\<exists>calls rx'. IncomingPacket F cfg clk (Remb_body p) rx = Some (calls, rx') \<and>
    OnReceiverEstimatedMaxBitrate (clk_now clk) (remb_bitrate_bps (Remb_canon p) mod 2 ^ 32) \<in> set calls"
proof -
  obtain h where h: "CommonHeader_Parse (Remb_body p) = Some (Accepted h)" "ch_packet_type h = Psfb_kPacketType"
      "ch_next h = []" "Remb_Parse h = Some (Accepted (Remb_canon p))"
    using remb.header [OF assms(1), of "[]"] by auto
  have f: "unat (ch_count_or_format h) = kAfbMessageType"
    using header_format [OF h(1) [unfolded Remb_body_def]] by (simp add: feedback_consts)
  let ?b = "remb_bitrate_bps (Remb_canon p)"
  let ?info = "(set_flag kRtcpRemb PacketInformation_init)\<lparr>info_receiver_estimated_max_bitrate_bps := word_of_int ?b\<rparr>"
  have "HandleBlock cfg clk h \<lparr>cp_rx = rx, cp_info = PacketInformation_init, cp_received_blocks = [], cp_calls = []\<rparr> =
      Some (True, \<lparr>cp_rx = rx, cp_info = ?info, cp_received_blocks = [], cp_calls = []\<rparr>)"
    using h f by (simp add: HandleBlock_def rtpfb_type_simps HandlePsfb_def HandlePsfbApp_def with_rx_info_def Let_def
        Pli_kFeedbackMessageType_def Fir_kFeedbackMessageType_def kAfbMessageType_def)
  moreover have "TriggerCallbacksFromRtcpPacket F cfg clk ?info (warn_skipped clk rx) =
      Some ([OnReceiverEstimatedMaxBitrate (clk_now clk) (?b mod 2 ^ 32)], warn_skipped clk rx)"
    using assms(2)
    by (simp add: callback_defs uint_word_of_int)
  ultimately show ?thesis using IncomingPacket_single [OF h(1,3)] by fastforce
qed

theorem remb_is_truncated_witness:
  "\<exists>calls rx'. IncomingPacket id example_config example_clock
     (Remb_body \<lparr>sender_ssrc = 7, media_ssrc = 0, remb_bitrate_bps = 2 ^ 32, remb_ssrcs = [0x1111]\<rparr>) example_receiver =
     Some (calls, rx') \<and> OnReceiverEstimatedMaxBitrate 2000000 0 \<in> set calls"
proof -
  let ?p = "\<lparr>sender_ssrc = 7, media_ssrc = 0, remb_bitrate_bps = 2 ^ 32, remb_ssrcs = [0x1111]\<rparr> :: Remb"
  have "Remb_valid ?p" by (simp add: Remb_valid_def Remb_kMaxNumberOfSsrcs_def)
  moreover have "remb_bitrate_bps (Remb_canon ?p) mod 2 ^ 32 = 0"
    by (simp add: Remb_canon_def rounded_def mant_def expo_def mantissa_loop.simps)
  ultimately show ?thesis
    using remb_is_truncated [of ?p example_config id example_clock example_receiver]
    by (simp add: example_config_def example_clock_def)
qed

section \<open>Congestion control feedback\<close>

lemma SendCombined_one:
  assumes "method \<noteq> kOff" and "obj_valid (SetSenderSsrc ssrc q)" and "RtcpPacket_BlockLength (SetSenderSsrc ssrc q) \<le> m"
  shows "SendCombinedRtcpPacket method m ssrc [q] = [obj_body (SetSenderSsrc ssrc q)]"
proof -
  obtain gs where gs: "SendCombinedRtcpPacket method m ssrc [q] = map concat gs"
      "concat gs = [obj_body (SetSenderSsrc ssrc q)]" "\<forall>g \<in> set gs. concat g \<noteq> []"
    using SendCombined_grouped [OF assms(1), of m ssrc "[q]"] assms(2,3) by auto
  then obtain g gs' where g: "gs = g # gs'" by (cases gs) auto
  then have "g \<noteq> []" "\<forall>g \<in> set gs'. g \<noteq> []" using gs(3) by auto
  then have "g = [obj_body (SetSenderSsrc ssrc q)]" "concat gs' = []"
    using gs(2) by (auto simp: g append_eq_Cons_conv)
  moreover have "gs' = []" using calculation(2) \<open>\<forall>g \<in> set gs'. g \<noteq> []\<close> by (cases gs') auto
  ultimately show ?thesis using gs(1) g by simp
qed

lemma ccfb_delivered:
  assumes "Ccfb_valid fb" and "ccfb_packets fb = q # qs" and "cfg_enable_congestion_controller_feedback rcfg"
    and "cfg_network_link_rtcp_observer rcfg"
    and "pi_ssrc q = local_media_ssrc rx \<or> RegisteredSsrcs_contains (rx_registered_ssrcs rx) (pi_ssrc q)"
  shows "\<exists>calls rx'. IncomingPacket F rcfg clk (Ccfb_body fb) rx = Some (calls, rx') \<and>
    OnCongestionControlFeedback (clk_now clk) (Ccfb_canon fb) \<in> set calls"
proof -
  obtain h where h: "CommonHeader_Parse (Ccfb_body fb) = Some (Accepted h)" "ch_packet_type h = Rtpfb_kPacketType"
      "ch_next h = []" "Ccfb_Parse h = Some (Accepted (Ccfb_canon fb))"
    using ccfb.header [OF assms(1), of "[]"] by auto
  have f: "unat (ch_count_or_format h) = Ccfb_kFeedbackMessageType"
    using header_format [OF h(1) [unfolded Ccfb_body_def]] by (simp add: ccfb_consts)
  have q: "ccfb_packets (Ccfb_canon fb) = packet_canon q # map packet_canon qs" "pi_ssrc (packet_canon q) = pi_ssrc q"
    using assms(2) by (simp_all add: Ccfb_canon_def packet_canon_def)
  let ?info = "PacketInformation_init\<lparr>info_congestion_control_feedback := Some (Ccfb_canon fb)\<rparr>"
  have "HandleBlock rcfg clk h \<lparr>cp_rx = rx, cp_info = PacketInformation_init, cp_received_blocks = [], cp_calls = []\<rparr> =
      Some (True, \<lparr>cp_rx = rx, cp_info = ?info, cp_received_blocks = [], cp_calls = []\<rparr>)"
    using h f q assms(3,5)
    by (simp add: HandleBlock_def rtpfb_type_simps HandleRtpfb_def HandleCongestionControlFeedback_def with_rx_info_def
        Let_def rtpfb_format_simps)
  moreover have "TriggerCallbacksFromRtcpPacket F rcfg clk ?info (warn_skipped clk rx) =
      Some ([OnCongestionControlFeedback (clk_now clk) (Ccfb_canon fb)], warn_skipped clk rx)"
    using assms(4) by (simp add: callback_defs)
  ultimately show ?thesis using IncomingPacket_single [OF h(1,3)] by fastforce
qed

lemma ccfb_sender_ssrc:
  "Ccfb_valid (fb\<lparr>sender_ssrc := s\<rparr>) = Ccfb_valid fb" "Ccfb_BlockLength (fb\<lparr>sender_ssrc := s\<rparr>) = Ccfb_BlockLength fb"
  "Ccfb_canon (fb\<lparr>sender_ssrc := s\<rparr>) = (Ccfb_canon fb)\<lparr>sender_ssrc := s\<rparr>"
  by (simp_all add: Ccfb_valid_def Ccfb_BlockLength_def Ccfb_canon_def)


lemma ce_example_reports:
  assumes "Ccfb_OnReceivedPacket GeneratorConfig_default (\<lambda>t. of_int t) 49500 ce_packet CcfbGenerator_init = Some (g1, [])"
  shows "\<exists>r. all_reports 80000 g1 = [r] \<and> pi_ssrc r = 1"
proof -
  define tr where "tr = \<lparr>last_sequence_number_in_feedback = None,
    tr_unwrapper = \<lparr>last_unwrapped = 7, last_value = Some (7 :: u16)\<rparr>,
    tr_packets = [\<lparr>tp_ssrc = 1, tp_seq = 7, tp_arrival_time = 49000, tp_ecn = kCe\<rparr>]\<rparr>"
  have "Tracker_ReceivedPacket ce_packet CcfbTracker_init = tr"
    by (simp add: tr_def Tracker_ReceivedPacket_def CcfbTracker_init_def ce_packet_def Unwrap_def
        SeqNumUnwrapper_init_def Let_def)
  then have "feedback_trackers g1 = [(1, tr)]"
    using assms
    by (auto simp: Ccfb_OnReceivedPacket_def CcfbGenerator_init_def ce_packet_def Let_def NextFeedbackTime_def
        GeneratorConfig_default_def TimeDelta_Millis_def FromFraction_def Timestamp_plus_def infinity_defs)
  moreover have "first_reported tr = 7" "last_reported tr = 7"
    by (simp_all add: last_reported_def first_reported_def sorted_arrivals_def tr_def kMaxPacketsPerSsrc_def)
  moreover have "tr_packets tr \<noteq> []" by (simp add: tr_def)
  ultimately show ?thesis by (simp add: all_reports_def tracker_reports_def report_of_def split: list.split)
qed


section \<open>NACK\<close>

text \<open>Datagrams that arrive one after the other, each at its own time.\<close>

fun incoming_all :: "(TmmbItem list \<Rightarrow> TmmbItem list) \<Rightarrow> rx_config \<Rightarrow> (Clock \<times> bytes) list \<Rightarrow> RTCPReceiver
    \<Rightarrow> (callback list \<times> RTCPReceiver) option" where
  "incoming_all F cfg [] rx = Some ([], rx)"
| "incoming_all F cfg ((clk, d) # ds) rx = do {
     (c, rx1) \<leftarrow> IncomingPacket F cfg clk d rx;
     (cs, rx2) \<leftarrow> incoming_all F cfg ds rx1;
     Some (c @ cs, rx2)
   }"

definition nacked_ids :: "callback list \<Rightarrow> u16 list" where
  "nacked_ids calls = concat (map (\<lambda>c. case c of OnReceivedNack ids \<Rightarrow> ids | _ \<Rightarrow> []) calls)"

lemma nst_requests_fold: "nst_requests (fold ReportRequest ids s) = nst_requests s + of_nat (length ids)"
  by (induction ids arbitrary: s) (simp_all add: ReportRequest_def Let_def)

lemma warn_skipped_fields [simp]:
  "local_media_ssrc (warn_skipped clk rx) = local_media_ssrc rx" "rx_nack_stats (warn_skipped clk rx) = rx_nack_stats rx"
  by (simp_all add: warn_skipped_def local_media_ssrc_def)

lemma nack_delivered:
  assumes "c \<noteq> []" and "length c < 65534" and "\<not> cfg_receiver_only cfg" and "local_media_ssrc rx = media_ssrc p"
  shows "\<exists>calls rx'. IncomingPacket F cfg clk (Nack_block p c) rx = Some (calls, rx') \<and> nacked_ids calls = Unpack c \<and>
    local_media_ssrc rx' = local_media_ssrc rx \<and>
    nst_requests (rx_nack_stats rx') = nst_requests (rx_nack_stats rx) + of_nat (length (Unpack c))"
proof -
  obtain h where h: "CommonHeader_Parse (Nack_block p c) = Some (Accepted h)" "ch_packet_type h = Rtpfb_kPacketType"
      "ch_next h = []" "Nack_Parse h = Some (Accepted (nack_of p c))"
    using Nack_block_parse [OF assms(1,2), of p "[]"] by auto
  have f: "unat (ch_count_or_format h) = Nack_kFeedbackMessageType"
    using header_format [OF h(1) [unfolded Nack_block_def]] by (simp add: nack_consts)
  let ?i = "PacketInformation_init\<lparr>info_nack_sequence_numbers := Unpack c\<rparr>"
  define info where "info = (if Unpack c = [] then ?i else set_flag kRtcpNack ?i)"
  obtain rx1 where rx1: "HandleNack cfg h rx PacketInformation_init = Some (True, rx1, info)"
      "local_media_ssrc rx1 = local_media_ssrc rx"
      "nst_requests (rx_nack_stats rx1) = nst_requests (rx_nack_stats rx) + of_nat (length (Unpack c))"
    using h(4) assms(3,4)
    by (cases "Unpack c = []")
      (auto simp: HandleNack_def nack_of_def Let_def info_def local_media_ssrc_def nst_requests_fold)
  have "HandleBlock cfg clk h \<lparr>cp_rx = rx, cp_info = PacketInformation_init, cp_received_blocks = [], cp_calls = []\<rparr> =
      Some (True, \<lparr>cp_rx = rx1, cp_info = info, cp_received_blocks = [], cp_calls = []\<rparr>)"
    using h(2) f rx1(1) by (simp add: HandleBlock_def rtpfb_type_simps HandleRtpfb_def with_rx_info_def Let_def)
  moreover have "TriggerCallbacksFromRtcpPacket F cfg clk info (warn_skipped clk rx1) =
      Some (if Unpack c = [] then [] else [OnReceivedNack (Unpack c)], warn_skipped clk rx1)"
    using assms(3) by (simp add: callback_defs info_def)
  ultimately have "IncomingPacket F cfg clk (Nack_block p c) rx =
      Some (counted cfg (warn_skipped clk rx1) @ (if Unpack c = [] then [] else [OnReceivedNack (Unpack c)]), warn_skipped clk rx1)"
    by (rule IncomingPacket_single [OF h(1,3)])
  then show ?thesis using rx1(2,3) by (simp add: nacked_ids_def counted_def)
qed

lemma nacks_delivered:
  assumes "\<forall>c \<in> set cs. c \<noteq> [] \<and> length c < 65534" and "\<not> cfg_receiver_only cfg" and "local_media_ssrc rx = media_ssrc p"
    and "map snd arrivals = map (Nack_block p) cs"
  shows "\<exists>calls rx'. incoming_all F cfg arrivals rx = Some (calls, rx') \<and> nacked_ids calls = concat (map Unpack cs) \<and>
    nst_requests (rx_nack_stats rx') = nst_requests (rx_nack_stats rx) + of_nat (length (concat (map Unpack cs)))"
  using assms
proof (induction cs arbitrary: arrivals rx)
  case Nil
  then show ?case by (simp add: nacked_ids_def)
next
  case (Cons c cs)
  obtain clk as where as: "arrivals = (clk, Nack_block p c) # as" "map snd as = map (Nack_block p) cs"
    using Cons.prems(4) by (cases arrivals) auto
  obtain calls rx1 where 1: "IncomingPacket F cfg clk (Nack_block p c) rx = Some (calls, rx1)" "nacked_ids calls = Unpack c"
      "local_media_ssrc rx1 = media_ssrc p"
      "nst_requests (rx_nack_stats rx1) = nst_requests (rx_nack_stats rx) + of_nat (length (Unpack c))"
    using nack_delivered [of c cfg rx p F clk] Cons.prems by auto
  obtain calls' rx' where "incoming_all F cfg as rx1 = Some (calls', rx')" "nacked_ids calls' = concat (map Unpack cs)"
      "nst_requests (rx_nack_stats rx') = nst_requests (rx_nack_stats rx1) + of_nat (length (concat (map Unpack cs)))"
    using Cons.IH [OF _ Cons.prems(2) 1(3) as(2)] Cons.prems(1) by auto
  then show ?case using 1 by (simp add: as(1) nacked_ids_def)
qed

text \<open>
  C3: Every sequence number that the remote side asks for is handed to the RTP module exactly once and in order, however the
  NACK is cut into datagrams and whenever these arrive one after the other; and the statistics count exactly that many requests.
\<close>

theorem nack_requests_reach_rtp_module:
  assumes "ids \<noteq> []" and "ascending_ids ids" and "nack_packed p = []" and "16 \<le> m" and "m \<le> 1500"
    and "Build_callback m (Nack_Create (Nack_SetPacketIds ids p)) = (True, map snd arrivals)"
    and "\<not> cfg_receiver_only cfg" and "local_media_ssrc rx = media_ssrc p"
  shows "\<exists>calls rx'. incoming_all F cfg arrivals rx = Some (calls, rx') \<and> nacked_ids calls = ids \<and>
    nst_requests (rx_nack_stats rx') = nst_requests (rx_nack_stats rx) + of_nat (length ids)"
proof -
  let ?p = "Nack_SetPacketIds ids p"
  have packed: "nack_packed ?p = Pack ids" "media_ssrc ?p = media_ssrc p" using assms(3) by (simp_all add: Nack_SetPacketIds_def)
  have ne: "nack_packed ?p \<noteq> []" using assms(1) unfolding packed by (cases ids) (auto simp: Let_def)
  note d = Nack_Build_delivers [OF ne assms(4,5)]
  let ?cs = "pieces (nacks_per_buffer m) (nack_packed ?p)"
  have "\<forall>c \<in> set ?cs. c \<noteq> [] \<and> length c < 65534"
    using pieces_length [of _ "nacks_per_buffer m"] assms(5) by (fastforce simp: nacks_per_buffer_def)
  moreover have "map snd arrivals = map (Nack_block ?p) ?cs" using d(1) assms(6) by simp
  ultimately show ?thesis
    using nacks_delivered [of ?cs cfg rx ?p arrivals F] assms(7,8) d(4) Unpack_Pack [OF assms(2)] packed by simp
qed

theorem nack_requests_reach_rtp_module_witness:
  "\<exists>calls rx'. incoming_all id example_config
     [(example_clock, [0x81, 205, 0, 3, 0, 0, 0, 7, 0, 0, 0x11, 0x11, 0xFF, 0xFE, 0, 1]),
      (example_clock, [0x81, 205, 0, 3, 0, 0, 0, 7, 0, 0, 0x11, 0x11, 0, 40, 0, 0])] example_receiver = Some (calls, rx') \<and>
     nacked_ids calls = [65534, 65535, 40] \<and> nst_requests (rx_nack_stats rx') = 3"
proof -
  let ?p = "\<lparr>sender_ssrc = 7, media_ssrc = 0x1111, nack_packed = [], nack_packet_ids = []\<rparr> :: Nack"
  let ?arrivals = "[(example_clock, [0x81, 205, 0, 3, 0, 0, 0, 7, 0, 0, 0x11, 0x11, 0xFF, 0xFE, 0, 1]),
    (example_clock, [0x81, 205, 0, 3, 0, 0, 0, 7, 0, 0, 0x11, 0x11, 0, 40, 0, 0])] :: (Clock \<times> bytes) list"
  have a: "ascending_ids [65534, 65535, 40]" by (simp add: ascending_ids_def)
  have b: "Build_callback 16 (Nack_Create (Nack_SetPacketIds [65534, 65535, 40] ?p)) = (True, map snd ?arrivals)"
    by code_simp
  have "\<not> cfg_receiver_only example_config" "local_media_ssrc example_receiver = media_ssrc ?p"
    "nst_requests (rx_nack_stats example_receiver) = 0"
    by (simp_all add: example_config_def example_receiver_def RTCPReceiver_init_def local_media_ssrc_def RtcpNackStats_init_def)
  then show ?thesis using nack_requests_reach_rtp_module [OF _ a _ _ _ b, of example_config example_receiver id] by simp
qed

section \<open>Round trip times\<close>

lemma CompactNtp_eq: "CompactNtp n = word_of_int (uint n div 65536)"
proof -
  have "CompactNtp n = ucast (drop_bit 16 n)"
  proof (rule bit_word_eqI)
    fix i assume "i < LENGTH(32)"
    have "n div kFractionsPerSecond = drop_bit 32 n" "n mod kFractionsPerSecond = take_bit 32 n"
      by (simp_all add: kFractionsPerSecond_def drop_bit_eq_div take_bit_eq_mod)
    with \<open>i < LENGTH(32)\<close> show "bit (CompactNtp n) i = bit (ucast (drop_bit 16 n) :: u32) i"
      by (auto simp: CompactNtp_def NtpTime_seconds_def NtpTime_fractions_def bit_simps)
  qed
  also have "\<dots> = word_of_int (uint n div 65536)"
    by (simp add: ucast_eq drop_bit_eq_div uint_div)
  finally show ?thesis .
qed

lemma CompactNtp_add:
  "CompactNtp (n + word_of_int x) = word_of_int ((uint n + x) div 65536)"
proof -
  have "uint (n + word_of_int x) = (uint n + x) mod 2 ^ 64" by (simp add: uint_word_ariths uint_word_of_int mod_add_right_eq)
  moreover have "((uint n + x) mod 2 ^ 64) div 65536 = ((uint n + x) div 65536) mod 2 ^ 48"
    using zmod_zmult2_eq [of "2 ^ 48" "uint n + x" 65536] by simp
  moreover have "(word_of_int (a mod 2 ^ 48) :: u32) = word_of_int a" for a :: int
    by (simp add: word_of_int_eq_iff take_bit_eq_mod mod_mod_cancel)
  ultimately show ?thesis by (simp add: CompactNtp_eq)
qed

text \<open>
  C9: The round trip time of a report block is right to within 17 microseconds, and never below one millisecond. Let the sender
  report have been stamped \<open>sent\<close>, let the remote side have kept it for \<open>d\<close> units of 2^-16 seconds and the network for \<open>r\<close>
  units of 2^-32 seconds, up to 2^15 seconds. Then the receiver computes \<open>r\<close>, even if the NTP clock or its compact
  form wraps around in between.
\<close>

theorem report_rtt_accurate:
  assumes "0 \<le> r" and "r < 2 ^ 47" and "last_sr rb = CompactNtp sent" and "delay_since_last_sr rb = word_of_int d"
    and "clk_to_ntp clk (clk_now clk) = sent + word_of_int (d * 65536 + r)"
  shows "\<bar>report_rtt clk rb - max 1000 (r * 1000000 div 2 ^ 32)\<bar> \<le> 17"
proof -
  define c where "c = (uint sent + r) div 65536 - uint sent div 65536"
  have "(uint sent + (d * 65536 + r)) div 65536 = d + (uint sent + r) div 65536"
    using div_mult_self1 [of 65536 "uint sent + r" d] by (simp add: algebra_simps)
  then have rtt: "report_rtt clk rb = CompactNtpRttToTimeDelta (word_of_int c)"
    unfolding report_rtt_def Let_def assms(3-5) CompactNtp_add unfolding c_def CompactNtp_eq by simp
  have c: "65536 * c \<le> r + 65535" "r - 65535 \<le> 65536 * c"
    unfolding c_def using assms(1) by (simp_all add: algebra_simps)
  moreover have "r < 140737488355328" using assms(2) by simp
  ultimately have "0 \<le> c" "c \<le> 2147483648" using assms(1) by linarith+
  then have "0 \<le> c" "c \<le> 2 ^ 31" by simp_all
  from compact_interval_small [OF this]
  have v: "report_rtt clk rb = max (DivideRoundToNearest (c * 1000000) 65536) 1000"
    by (simp add: rtt CompactNtpRttToTimeDelta_def TimeDelta_Millis_def FromFraction_def)
  define x where "x = DivideRoundToNearest (c * 1000000) 65536"
  define y where "y = r * 1000000 div 2 ^ 32"
  have "2 * (65536 * x) \<le> 2 * (c * 1000000) + 65536" "2 * (c * 1000000) - 65536 < 2 * (65536 * x)"
    unfolding x_def by (rule round_nearest_error; simp)+
  moreover have "y * 4294967296 \<le> r * 1000000" "r * 1000000 < y * 4294967296 + 4294967296"
    unfolding y_def by (simp_all add: algebra_simps)
  ultimately have "\<bar>x - y\<bar> \<le> 17" using c by linarith
  then show ?thesis unfolding v x_def [symmetric] y_def [symmetric] by linarith
qed

theorem report_rtt_accurate_witness:
  "\<bar>report_rtt \<lparr>clk_now = 0, clk_to_ntp = (\<lambda>t. 0x8000 + word_of_int (32768 * 65536 + 2 ^ 31))\<rparr>
      \<lparr>source_ssrc = 1, fraction_lost = 0, cumulative_lost = 0, extended_high_seq_num = 0, jitter = 0,
       last_sr = CompactNtp 0x8000, delay_since_last_sr = word_of_int 32768\<rparr> - max 1000 500000\<bar> \<le> 17"
  using report_rtt_accurate [of "2 ^ 31" "\<lparr>source_ssrc = 1, fraction_lost = 0, cumulative_lost = 0,
      extended_high_seq_num = 0, jitter = 0, last_sr = CompactNtp 0x8000, delay_since_last_sr = word_of_int 32768\<rparr>"
      "0x8000" 32768 "\<lparr>clk_now = 0, clk_to_ntp = (\<lambda>t. 0x8000 + word_of_int (32768 * 65536 + 2 ^ 31))\<rparr>"]
  by simp

section \<open>Key frame requests\<close>

text \<open>
  The requests of one remote side, each handled at its own time; the result lists the time and sequence number of those that
  ask the encoder for a key frame.
\<close>

fun fir_run :: "u32 \<Rightarrow> (Clock \<times> Fir_Request) list \<Rightarrow> RTCPReceiver \<Rightarrow> (Timestamp \<times> u8) list" where
  "fir_run remote [] rx = []"
| "fir_run remote ((clk, request) # rest) rx =
     (let (rx', info) = HandleFir_request clk remote request (rx, PacketInformation_init)
      in (if has_flag kRtcpFir info then [(clk_now clk, fir_seq_nr request)] else []) @ fir_run remote rest rx')"

definition fir_spaced :: "Timestamp \<times> u8 \<Rightarrow> Timestamp \<times> u8 \<Rightarrow> bool" where
  "fir_spaced a b \<longleftrightarrow> snd a \<noteq> snd b \<and> 17000 \<le> Timestamp_minus (fst b) (fst a)"

definition last_fir_of :: "u32 \<Rightarrow> RTCPReceiver \<Rightarrow> (Timestamp \<times> u8) list" where
  "last_fir_of remote rx =
     (case smap_find (rx_last_fir rx) remote of None \<Rightarrow> [] | Some f \<Rightarrow> [(lf_request f, lf_sequence_number f)])"

lemma HandleFir_request_cases:
  assumes "HandleFir_request clk remote request (rx, PacketInformation_init) = (rx', info)"
  shows "if has_flag kRtcpFir info
    then last_fir_of remote rx' = [(clk_now clk, fir_seq_nr request)] \<and>
      (\<forall>a \<in> set (last_fir_of remote rx). fir_spaced a (clk_now clk, fir_seq_nr request))
    else last_fir_of remote rx' = last_fir_of remote rx"
  using assms
  by (auto simp: HandleFir_request_def Let_def last_fir_of_def smap_find_set fir_spaced_def kRtcpMinFrameLength_def
      TimeDelta_Millis_def FromFraction_def split: if_splits option.splits)


section \<open>BYE\<close>



end
