(* ===== verification/Spec2Isabelle.thy ===== *)
theory Spec2Isabelle
  imports Rtc_Prelude Byte_IO Seq_Num Units Rtcp_Header Rtcp_Feedback Rtcp_Nack Rtcp_Bitrate Rtcp_Reports Rtcp_Misc
    Rtcp_Xr Ccfb Std_Map Ccfb_Tracker Ntp_Util Ccfb_Generator Tf_Chunk Transport_Feedback Feedback_Adapter
    Rtcp_Stats Rtcp_Receiver Rtcp_Receiver_Inv Rtcp_Sender Rtcp_Delivery
begin

text \<open>
  A verification development for the RTCP feedback path of the WebRTC sources under
  \<open>src/libwebrtc/src\<close>: from the packets a receiver sees, through the feedback it sends, to the
  packet results on which the sender's congestion controller acts. This is the path on which the
  ECN marks of L4S travel. All file names below are relative to \<open>src/libwebrtc/src\<close>; those of RTCP are
  relative to \<open>modules/rtp_rtcp/source\<close>.

  \<^bold>\<open>The parts and how they interact.\<close> A receiver hands every RTP packet to
  \<open>CongestionControlFeedbackGenerator\<close>, which keeps one \<open>CongestionControlFeedbackTracker\<close> per SSRC
  and decides when to send an RFC 8888 packet. The packet classes write themselves into a buffer of
  limited size (\<open>RtcpPacket::Create\<close>), which \<open>RTCPSender\<close> passes to the transport as datagrams. On the other
  side \<open>RTCPReceiver::IncomingPacket\<close> walks over the blocks of a datagram, parses each with its class, updates
  what it knows about the remote side, and informs its observers. One of them passes the feedback on to
  \<open>TransportFeedbackAdapter\<close>, which looks up the packets it reports in the history of sent packets.

  \<^bold>\<open>Theories.\<close>
  \<^item> \<open>Rtc_Prelude\<close>: machine integers as words, the outcome of a parser (\<open>None\<close> is a step that the
    language leaves undefined, such as a read past the end of a buffer; \<open>Some Rejected\<close> is the answer
    false), the predicate \<open>safe\<close> with its collection of introduction rules, and lemmas on words and lists.
  \<^item> \<open>Byte_IO\<close>: \<open>byte_io.h\<close>, the generic and the specialised readers and writers, with their round
    trips and the checked reads \<open>rd8\<close>, \<open>rd16\<close> and so on that the parsers use.
  \<^item> \<open>Seq_Num\<close>: \<open>rtc_base/numerics/mod_ops.h\<close>, \<open>sequence_number_util.h\<close> and
    \<open>sequence_number_unwrapper.h\<close>, and \<open>modules/include/module_common_types_public.h\<close>. The locale \<open>seq_unwrapper\<close> is the
    contract of an unwrapper; it is interpreted for 16 and 32 bits.
  \<^item> \<open>Units\<close>: the integer operations of \<open>rtc_base/units\<close> and \<open>api/units\<close> on \<open>int\<close> with the two infinities as
    the extreme 64-bit values, and \<open>rtc_base/numerics/divide_round.h\<close>.
  \<^item> \<open>Std_Map\<close>: ordered maps as sorted association lists.
  \<^item> \<open>Rtcp_Header\<close>: \<open>rtcp_packet.cc\<close> and \<open>rtcp_packet/common_header.cc\<close>; the locale \<open>rtcp_codec\<close> is the
    contract of a packet class (its block has the announced length, and header and payload parse back), and its
    lemmas are the round trips through both \<open>Build\<close> methods. It is interpreted for all sixteen packet classes.
  \<^item> \<open>Rtcp_Feedback\<close> (PLI, SR-REQ, FIR, LNTF), \<open>Rtcp_Nack\<close>, \<open>Rtcp_Bitrate\<close> (TMMBR, TMMBN, REMB), \<open>Rtcp_Reports\<close> (SR, RR),
    \<open>Rtcp_Misc\<close> (BYE, APP, remote estimate, SDES), \<open>Rtcp_Xr\<close>, \<open>Ccfb\<close> (RFC 8888), \<open>Tf_Chunk\<close> and
    \<open>Transport_Feedback\<close>: the classes under \<open>rtcp_packet\<close>. For each, data as a record, and \<open>BlockLength\<close>,
    \<open>Create\<close>, \<open>Parse\<close> and the setters as functions of the same names with the class name in front. The lemmas show that
    parsing never reads outside of the payload, that valid packets come back from the wire up to the precision of
    the format, and how large that loss of precision is.
  \<^item> \<open>Ccfb_Tracker\<close> and \<open>Ccfb_Generator\<close>: \<open>modules/remote_bitrate_estimator/congestion_control_feedback_tracker.cc\<close> and
    \<open>congestion_control_feedback_generator.cc\<close>, with what a report contains and when one is sent.
  \<^item> \<open>Ntp_Util\<close>: \<open>ntp_time_util.cc\<close>.
  \<^item> \<open>Feedback_Adapter\<close>: \<open>modules/congestion_controller/rtp/transport_feedback_adapter.cc\<close> and the structs of
    \<open>api/transport/network_types.h\<close>; the invariant \<open>adapter_ok\<close> of the history and the bytes in flight, and
    the refinement of the loops that erase entries as they go to lookups in the history before the feedback.
  \<^item> \<open>Rtcp_Stats\<close>: the statistics classes of the receiver, \<open>api/video/video_bitrate_allocation.cc\<close>,
    \<open>Clock::NtpToUtc\<close>.
  \<^item> \<open>Rtcp_Receiver\<close>: \<open>rtcp_receiver.cc\<close>, one definition per method over the record \<open>RTCPReceiver\<close> of its
    members. Iterators into the list of reference times are identities of list nodes, so that a
    stale iterator is an undefined step. The calls on observers are values of the type \<open>callback\<close>.
  \<^item> \<open>Rtcp_Receiver_Inv\<close>: the invariant \<open>rx_ok\<close>, the locale \<open>block_handler\<close> (what every handler keeps, with
    an interpretation for each of them), the relation \<open>rx_reachable\<close> of the receivers that some sequence
    of calls leads to, and the reference description \<open>block_chain\<close> of how a datagram is divided into blocks.
  \<^item> \<open>Rtcp_Sender\<close>: the virtual methods of \<open>RtcpPacket\<close> as functions on the datatype \<open>RtcpObject\<close>,
    \<open>rtcp_packet/compound_packet.cc\<close>, and \<open>PacketSender\<close> and \<open>SendCombinedRtcpPacket\<close> of \<open>rtcp_sender.cc\<close>.
  \<^item> \<open>Rtcp_Delivery\<close>: the composition of the above from one side to the other.
  \<^item> This theory: memory safety of all parsers together and the unwrapper's main property.

  \<^bold>\<open>Conventions.\<close> A class is a record and a method a function that takes and returns it. \<open>size_t\<close> is
  \<open>nat\<close>, with the one subtraction that wraps (in \<open>Nack::Create\<close>) written out; the fixed-width integers that are stored or
  sent are words; 64-bit signed quantities of the unit types are \<open>int\<close>, and where a sum could leave 64 bits the theorems bound
  it. \<open>RTC_CHECK\<close> is an undefined step, \<open>RTC_DCHECK\<close> and log output are left out. Time is an argument. The
  single precision rounding of the RFC 8888 arrival offset is modelled exactly, as integer arithmetic.

  \<^bold>\<open>Bounds.\<close> There is no fuel: every loop is a recursive function with a termination proof. The
  theorems assume what the wire format or the code fixes: at most 16384 entries in a feedback packet (the format's own limit
  per SSRC), arrivals at most 7.9 seconds before the feedback (the offset has 13 bits of 1/1024 second), buffers
  of 16 to 1500 bytes for a NACK (one item fits; \<open>IP_PACKET_SIZE\<close>), up to 2^28 round trip time samples
  (sums below 2^63), at most 2^29 packets in the history.

  \<^bold>\<open>What modelling showed.\<close> A REMB of 2^32 bits per second or more is reported modulo 2^32
  (\<open>remb_is_truncated\<close>), and a packet longer than the datagram size is dropped without a trace, although the
  generator's comment expects such packets (\<open>oversize_packets_are_dropped\<close>).

  \<^bold>\<open>Not modelled.\<close> Of the RTCP code: when \<open>RTCPSender\<close> sends its reports (random intervals, statistics owned by other
  modules), \<open>TMMBRHelp::FindBoundingSet\<close> (single precision floats; a parameter of \<open>NotifyTmmbrUpdated\<close>), and
  \<open>RtcpTransceiver\<close>, a second implementation that this path does not use. The bandwidth estimators behind the adapter
  (\<open>modules/congestion_controller/goog_cc\<close>, \<open>pcc\<close>) and the pacer compute with doubles. Locks and threads are not modelled: each
  modelled class holds its lock, or is confined to one sequence, for the whole of a method. The rest of the repository (codecs,
  audio processing, capture, ICE, DTLS and SCTP, session descriptions, platform bindings, tools) takes no part in this path.
\<close>

text \<open>
  C8: A 16-bit sequence number unwrapper fed the low 16 bits of a stream of true positions, each
  less than half the number space away from the one before, reports exactly the true positions,
  however often the stream wraps and whichever way it moves.
\<close>

theorem unwrap16_recovers_stream:
  assumes "0 \<le> hd xs" and "hd xs < 2 ^ 16"
    and "successively (\<lambda>a b. 2 * \<bar>b - a\<bar> < 2 ^ 16) xs"
  shows "unwrap_run (Unwrap (0 :: u16)) (map (wrap_seq 0) xs) SeqNumUnwrapper_init = xs"
proof -
  have m: "modulus (0 :: u16) = 2 ^ 16" by (simp add: modulus_def)
  have p: "unwrapper_pos (SeqNumUnwrapper_init :: u16 SeqNumUnwrapper) = None"
    by (simp add: unwrapper_pos_def SeqNumUnwrapper_init_def)
  show ?thesis
    using seq16.run_stream [OF unwrapper_ok_init p, of xs] assms unfolding m by blast
qed

theorem unwrap16_recovers_stream_witness:
  "unwrap_run (Unwrap (0 :: u16)) (map (wrap_seq 0) [65530, 65537, 65535, 98000])
     SeqNumUnwrapper_init = [65530, 65537, 65535, 98000]"
  by (rule unwrap16_recovers_stream) simp_all

text \<open>
  C7: No packet whatsoever makes the receiver read outside of it: for every sequence of bytes, parsing
  the common header and then the payload as any of the sixteen packet types ends with an answer and
  without a read past the end of the payload.
\<close>

theorem rtcp_parsers_memory_safe:
  "safe (parse_block Pli_Parse bs) \<and> safe (parse_block RapidResyncRequest_Parse bs) \<and>
   safe (parse_block Fir_Parse bs) \<and> safe (parse_block LossNotification_Parse bs) \<and>
   safe (parse_block Nack_Parse bs) \<and> safe (parse_block Tmmbr_Parse bs) \<and>
   safe (parse_block Tmmbn_Parse bs) \<and> safe (parse_block Remb_Parse bs) \<and>
   safe (parse_block ReceiverReport_Parse bs) \<and> safe (parse_block SenderReport_Parse bs) \<and>
   safe (parse_block Bye_Parse bs) \<and> safe (parse_block App_Parse bs) \<and>
   safe (parse_block Sdes_Parse bs) \<and> safe (parse_block ExtendedReports_Parse bs) \<and>
   safe (parse_block Ccfb_Parse bs) \<and> safe (parse_block TransportFeedback_Parse bs)"
  by (intro conjI pli.safe_parse_block rrr.safe_parse_block fir.safe_parse_block lntf.safe_parse_block
      nack.safe_parse_block tmmbr.safe_parse_block tmmbn.safe_parse_block remb.safe_parse_block
      rr.safe_parse_block sr.safe_parse_block bye.safe_parse_block app.safe_parse_block
      sdes.safe_parse_block xr.safe_parse_block ccfb.safe_parse_block tfb.safe_parse_block)

end
